theory Spec2Isabelle
  imports Complex_Main
begin

section \<open>Numbers and vectors\<close>

text \<open>
  The C++ sources compute in \<open>double\<close> and \<open>float\<close>. The embedding computes in the
  reals, with two exceptions where the outcome of a test hangs on the rounding:
  \<open>get_cell_index\<close>, which narrows its three coordinates to \<open>float\<close> and compares them with
  the bounds of the grid, is embedded in single precision, and the two routines for the
  closest approach of two lines, which compare a computed norm with zero, are embedded a
  second time in double precision. Elsewhere what is modelled is the one non-finite value
  that the sources themselves create and test for, the not-a-number: a \<open>double\<close> that a
  function hands to its caller is a \<open>dbl\<close>, either a finite real or \<open>NaN\<close>. A division
  whose divisor can be zero is written as an explicit branch of the model, with the value
  IEEE arithmetic gives there.
\<close>

datatype dbl = Finite real | NaN

text \<open>Comparisons of a \<open>double\<close> with a finite bound: every comparison with NaN is false.\<close>

fun dbl_gt :: "dbl \<Rightarrow> real \<Rightarrow> bool" where
  "dbl_gt (Finite a) b = (a > b)"
| "dbl_gt NaN b = False"

fun dbl_lt :: "dbl \<Rightarrow> real \<Rightarrow> bool" where
  "dbl_lt (Finite a) b = (a < b)"
| "dbl_lt NaN b = False"

fun dbl_le :: "dbl \<Rightarrow> real \<Rightarrow> bool" where
  "dbl_le (Finite a) b = (a \<le> b)"
| "dbl_le NaN b = False"

fun dbl_eq :: "dbl \<Rightarrow> real \<Rightarrow> bool" where
  "dbl_eq (Finite a) b = (a = b)"
| "dbl_eq NaN b = False"

fun dbl_fabs :: "dbl \<Rightarrow> dbl" where
  "dbl_fabs (Finite a) = Finite \<bar>a\<bar>"
| "dbl_fabs NaN = NaN"

text \<open>\<open>TVector3\<close> and \<open>Eigen::Vector3d\<close> with finite components.\<close>

datatype vec3 = Vec3 (vx: real) (vy: real) (vz: real)

definition vadd :: "vec3 \<Rightarrow> vec3 \<Rightarrow> vec3" where
  "vadd a b = Vec3 (vx a + vx b) (vy a + vy b) (vz a + vz b)"

definition vsub :: "vec3 \<Rightarrow> vec3 \<Rightarrow> vec3" where
  "vsub a b = Vec3 (vx a - vx b) (vy a - vy b) (vz a - vz b)"

definition smul :: "real \<Rightarrow> vec3 \<Rightarrow> vec3" where
  "smul c a = Vec3 (c * vx a) (c * vy a) (c * vz a)"

definition dot :: "vec3 \<Rightarrow> vec3 \<Rightarrow> real" where
  "dot a b = vx a * vx b + vy a * vy b + vz a * vz b"

definition cross :: "vec3 \<Rightarrow> vec3 \<Rightarrow> vec3" where
  "cross a b = Vec3 (vy a * vz b - vz a * vy b) (vz a * vx b - vx a * vz b)
                    (vx a * vy b - vy a * vx b)"

definition Mag :: "vec3 \<Rightarrow> real" where
  "Mag a = sqrt (dot a a)"

section \<open>Single and double precision\<close>

text \<open>
  Where a value is narrowed to \<open>float\<close> and compared with a bound, the embedding rounds
  it: \<open>fl p\<close> rounds a real to the nearest real with a significand of \<open>p\<close> bits, ties to
  the even significand, as IEEE 754 does in its default mode. The exponent is not bounded:
  overflow and subnormal numbers are not modelled. \<open>to_float\<close> is the conversion to
  \<open>float\<close> (24 bits) and \<open>to_double\<close> the rounding to \<open>double\<close> (53 bits); the result of an
  operation is the rounded exact result.
\<close>

definition round_even :: "real \<Rightarrow> int" where
  "round_even y =
     (if y - of_int \<lfloor>y\<rfloor> < 1 / 2 then \<lfloor>y\<rfloor>
      else if y - of_int \<lfloor>y\<rfloor> > 1 / 2 then \<lfloor>y\<rfloor> + 1
      else if even \<lfloor>y\<rfloor> then \<lfloor>y\<rfloor> else \<lfloor>y\<rfloor> + 1)"

definition ulp_exp :: "nat \<Rightarrow> real \<Rightarrow> int" where
  "ulp_exp p x = \<lfloor>log 2 \<bar>x\<bar>\<rfloor> - int p + 1"

definition fl :: "nat \<Rightarrow> real \<Rightarrow> real" where
  "fl p x = (if x = 0 then 0
             else of_int (round_even (x / 2 powi ulp_exp p x)) * 2 powi ulp_exp p x)"

definition to_float :: "real \<Rightarrow> real" where
  "to_float = fl 24"

definition to_double :: "real \<Rightarrow> real" where
  "to_double = fl 53"

section \<open>TpcDirectLaserReconstruction: geometry helpers\<close>

definition square :: "real \<Rightarrow> real" where
  "square x = x * x"

definition get_r :: "real \<Rightarrow> real \<Rightarrow> real" where
  "get_r x y = sqrt (square x + square y)"

text \<open>
  \<open>line_circle_intersection\<close> (lines 58-85). The two quotients divide by \<open>2*A\<close>. When
  \<open>2*A = 0\<close> the direction has no transverse component, so \<open>B = 0\<close> and \<open>delta = 0\<close>:
  the test \<open>delta < 0\<close> does not fire and both quotients are \<open>0/0\<close>, which is NaN.
\<close>

definition line_circle_intersection :: "vec3 \<Rightarrow> vec3 \<Rightarrow> real \<Rightarrow> dbl \<times> dbl" where
  "line_circle_intersection p d radius =
     (let A = square (vx d) + square (vy d);
          B = 2 * vx p * vx d + 2 * vy p * vy d;
          C = square (vx p) + square (vy p) - square radius;
          delta = square B - 4 * A * C
      in if delta < 0 then (Finite (- 1), Finite (- 1))
         else if 2 * A = 0 then (NaN, NaN)
         else (Finite ((- B + sqrt delta) / (2 * A)), Finite ((- B - sqrt delta) / (2 * A))))"

text \<open>\<open>delta_phi\<close> (lines 95-101); \<open>M_PI\<close> is \<open>pi\<close>.\<close>

definition delta_phi :: "real \<Rightarrow> real" where
  "delta_phi phi =
     (if phi \<ge> pi then phi - 2 * pi
      else if phi < - pi then phi + 2 * pi
      else phi)"

text \<open>The grid ranges (lines 103-114).\<close>

definition m_phimin :: real where "m_phimin = 0"
definition m_phimax :: real where "m_phimax = 2 * pi"
definition m_rmin :: real where "m_rmin = 20"
definition m_rmax :: real where "m_rmax = 78"
definition m_zmin :: real where "m_zmin = - 105.5"
definition m_zmax :: real where "m_zmax = 105.5"

section \<open>TpcDirectLaserReconstruction: grid cells and GEM modules\<close>

text \<open>
  \<open>std::atan2\<close> on finite arguments: the angle of the point \<open>(x, y)\<close>, in \<open>(-pi, pi]\<close>,
  and 0 at the origin.
\<close>

definition atan2 :: "real \<Rightarrow> real \<Rightarrow> real" where
  "atan2 y x =
     (if 0 < x then arctan (y / x)
      else if x < 0 then (if 0 \<le> y then arctan (y / x) + pi else arctan (y / x) - pi)
      else if 0 < y then pi / 2
      else if y < 0 then - (pi / 2)
      else 0)"

text \<open>The conversion of a \<open>float\<close> to \<open>int\<close> truncates towards zero.\<close>

definition to_int :: "real \<Rightarrow> int" where
  "to_int v = (if 0 \<le> v then \<lfloor>v\<rfloor> else \<lceil>v\<rceil>)"

text \<open>
  The two loops that bring an azimuth into \<open>[m_phimin, m_phimax)\<close>,
  \<open>while( phi < m_phimin ) phi += 2.*M_PI\<close> and \<open>while( phi >= m_phimax ) phi -= 2.*M_PI\<close>,
  as \<open>process_track\<close> runs them on the azimuth of a hit (lines 471-472), over the reals:
  there both end for every argument.
\<close>

function phi_raise :: "real \<Rightarrow> real" where
  "phi_raise phi = (if phi < m_phimin then phi_raise (phi + 2 * pi) else phi)"
  by pat_completeness auto
termination
proof (relation "measure (\<lambda>phi. nat \<lceil>(m_phimin - phi) / (2 * pi)\<rceil>)")
  show "wf (measure (\<lambda>phi. nat \<lceil>(m_phimin - phi) / (2 * pi)\<rceil>))" by simp
next
  fix phi :: real
  assume lt: "phi < m_phimin"
  have e: "(m_phimin - (phi + 2 * pi)) / (2 * pi) = (m_phimin - phi) / (2 * pi) - 1"
    by (simp add: field_simps)
  have pos: "0 < (m_phimin - phi) / (2 * pi)" using lt by simp
  then have "0 < \<lceil>(m_phimin - phi) / (2 * pi)\<rceil>" by linarith
  then have "nat \<lceil>(m_phimin - phi) / (2 * pi) - 1\<rceil> < nat \<lceil>(m_phimin - phi) / (2 * pi)\<rceil>"
    by simp
  then show "(phi + 2 * pi, phi) \<in> measure (\<lambda>phi. nat \<lceil>(m_phimin - phi) / (2 * pi)\<rceil>)"
    by (simp only: in_measure e)
qed

function phi_lower :: "real \<Rightarrow> real" where
  "phi_lower phi = (if phi \<ge> m_phimax then phi_lower (phi - 2 * pi) else phi)"
  by pat_completeness auto
termination
proof (relation "measure (\<lambda>phi. nat (\<lfloor>(phi - m_phimax) / (2 * pi)\<rfloor> + 1))")
  show "wf (measure (\<lambda>phi. nat (\<lfloor>(phi - m_phimax) / (2 * pi)\<rfloor> + 1)))" by simp
next
  fix phi :: real
  assume ge: "m_phimax \<le> phi"
  have e: "(phi - 2 * pi - m_phimax) / (2 * pi) = (phi - m_phimax) / (2 * pi) - 1"
    by (simp add: field_simps)
  have pos: "0 \<le> (phi - m_phimax) / (2 * pi)" using ge by simp
  then have "0 \<le> \<lfloor>(phi - m_phimax) / (2 * pi)\<rfloor>" by simp
  then have "nat (\<lfloor>(phi - m_phimax) / (2 * pi) - 1\<rfloor> + 1) < nat (\<lfloor>(phi - m_phimax) / (2 * pi)\<rfloor> + 1)"
    by simp
  then show "(phi - 2 * pi, phi) \<in> measure (\<lambda>phi. nat (\<lfloor>(phi - m_phimax) / (2 * pi)\<rfloor> + 1))"
    by (simp only: in_measure e)
qed

declare phi_raise.simps [simp del] phi_lower.simps [simp del]

text \<open>
  The matrix container (\<open>TpcSpaceChargeMatrixContainerv1\<close>) is not among the sources.
  \<open>get_cell_index\<close> reads its grid dimensions and ends in its
  \<open>get_cell_index(iphi, ir, iz)\<close>; both are taken as given, as the fields of a record.
\<close>

record matrix_container =
  mc_phibins :: int
  mc_rbins :: int
  mc_zbins :: int
  mc_cell_index :: "int \<Rightarrow> int \<Rightarrow> int \<Rightarrow> int"

text \<open>
  The same two loops in \<open>get_cell_index\<close> (lines 804-805), where \<open>phi\<close> is a \<open>float\<close> and
  the bounds are the \<open>float\<close> constants: each sum \<open>phi + 2.*M_PI\<close> is taken in \<open>double\<close> and
  narrowed to \<open>float\<close> by the assignment. In single precision a loop need not end for
  every argument (adding \<open>2*pi\<close> to a large negative \<open>float\<close> gives the same \<open>float\<close>), so
  the result is an option, \<open>None\<close> for a loop that does not return.
\<close>

partial_function (option) phi_raise_float :: "real \<Rightarrow> real option" where
  "phi_raise_float phi =
     (if phi < to_float m_phimin then phi_raise_float (to_float (phi + 2 * pi)) else Some phi)"

partial_function (option) phi_lower_float :: "real \<Rightarrow> real option" where
  "phi_lower_float phi =
     (if phi \<ge> to_float m_phimax then phi_lower_float (to_float (phi - 2 * pi)) else Some phi)"

text \<open>
  The bin of a value: \<open>bins*(v-vmin)/(vmax-vmin)\<close> with \<open>bins\<close> an \<open>int\<close> and the other three
  \<open>float\<close>, as the source writes it for each of the three axes. The \<open>int\<close> is converted to
  \<open>float\<close>, each operation gives a \<open>float\<close>, and the initialisation of the \<open>int\<close> bin
  truncates.
\<close>

definition float_bin :: "int \<Rightarrow> real \<Rightarrow> real \<Rightarrow> real \<Rightarrow> int" where
  "float_bin bins v vmin vmax =
     to_int (to_float (to_float (to_float (real_of_int bins) * to_float (v - vmin))
                       / to_float (vmax - vmin)))"

text \<open>
  \<open>TpcDirectLaserReconstruction::get_cell_index\<close> (lines 793-819). The azimuth, the radius
  and \<open>z\<close> are narrowed to \<open>float\<close>, the six bounds are \<open>float\<close> constants, and the tests and
  the bins are taken on the narrowed values. \<open>atan2\<close> and \<open>get_r\<close> themselves compute in
  \<open>double\<close>, here in the reals. The result is \<open>None\<close> if one of the two loops does not
  return; lemma \<open>wrap_float\<close> shows that both always do.
\<close>

definition get_cell_index :: "matrix_container \<Rightarrow> vec3 \<Rightarrow> int option" where
  "get_cell_index mc global =
     (let phibins = mc_phibins mc; rbins = mc_rbins mc; zbins = mc_zbins mc
      in case phi_raise_float (to_float (atan2 (vy global) (vx global))) of
           None \<Rightarrow> None
         | Some phi_raised \<Rightarrow>
             (case phi_lower_float phi_raised of
                None \<Rightarrow> None
              | Some phi \<Rightarrow>
                  Some
                    (let iphi = float_bin phibins phi (to_float m_phimin) (to_float m_phimax);
                         r = to_float (get_r (vx global) (vy global))
                     in if r < to_float m_rmin \<or> r \<ge> to_float m_rmax then - 1
                        else
                          let ir = float_bin rbins r (to_float m_rmin) (to_float m_rmax);
                              z = to_float (vz global)
                          in if z < to_float m_zmin \<or> z \<ge> to_float m_zmax then - 1
                             else
                               let iz = float_bin zbins z (to_float m_zmin) (to_float m_zmax)
                               in mc_cell_index mc iphi ir iz)))"

text \<open>
  \<open>TpcDirectLaserReconstruction::Locate\<close> (lines 821-891). Each of the two \<open>for\<close>
  loops keeps the first index whose test holds (\<open>break\<close>) and leaves the default 0 when
  none does.
\<close>

definition Angle_Bins :: "real list" where
  "Angle_Bins = [23 * pi / 12, 1 * pi / 12, 3 * pi / 12, 5 * pi / 12, 7 * pi / 12, 9 * pi / 12,
                 11 * pi / 12, 13 * pi / 12, 15 * pi / 12, 17 * pi / 12, 19 * pi / 12,
                 21 * pi / 12, 23 * pi / 12]"

definition r_bins :: "real list" where
  "r_bins = [30, 46, 62, 78]"

definition Locate :: "real \<Rightarrow> real \<Rightarrow> real \<Rightarrow> int" where
  "Locate r phi z =
     (let r_id = (case find (\<lambda>r_iter. r > r_bins ! r_iter \<and> r < r_bins ! (r_iter + 1)) [0, 1, 2] of
                    Some r_iter \<Rightarrow> int r_iter + 1 | None \<Rightarrow> 0);
          angle_id = (case find (\<lambda>ang_iter. phi > Angle_Bins ! ang_iter \<and> phi < Angle_Bins ! (ang_iter + 1))
                                [0, 1, 2, 3, 4, 5, 6, 7, 8, 9, 10, 11] of
                        Some ang_iter \<Rightarrow> int ang_iter | None \<Rightarrow> 0);
          side_id = (if z < 0 then 1 else 0)
      in 36 * side_id + 3 * angle_id + r_id)"

section \<open>TpcDirectLaserReconstruction: tracks and hits\<close>

text \<open>
  What the reconstruction reads of its collaborators, none of which is among the sources:
  the cell geometry of a layer (\<open>PHG4TpcCylinderGeom\<close>), the drift velocity, the hit sets
  of the TPC, each with its layer, its side and its hits (pad, time bin, ADC), and the
  origin and direction of a track.
\<close>

record layer_geom =
  lg_radius :: real
  lg_thickness :: real
  lg_zbins :: nat
  lg_phicenter :: "nat \<Rightarrow> real"
  lg_zcenter :: "nat \<Rightarrow> real"

record hit =
  hit_pad :: nat
  hit_tbin :: nat
  hit_adc :: real

record hitset =
  hs_layer :: nat
  hs_side :: int
  hs_hits :: "hit list"

record laser_track =
  lt_id :: nat
  lt_origin :: vec3
  lt_direction :: vec3

record laser_env =
  GetLayerCellGeom :: "nat \<Rightarrow> layer_geom"
  drift_velocity :: real
  m_max_dca :: real
  m_max_zrange :: real
  m_pedestal :: real
  m_matrix_container :: matrix_container

text \<open>
  The members that \<open>process_track\<close> changes: the three counters and, of the matrix
  container, the cells whose entries it increments, in order (\<open>add_to_entries\<close>). The
  flag \<open>gem_out_of_bounds\<close> records that an increment of the local array
  \<open>GEM_Mod_Arr\<close> fell outside its 72 elements.
\<close>

record laser_state =
  m_total_hits :: int
  m_matched_hits :: int
  m_accepted_clusters :: int
  cells_entered :: "int list"
  gem_out_of_bounds :: bool

text \<open>\<open>Init\<close> (lines 128-136).\<close>

definition Init :: laser_state where
  "Init = \<lparr>m_total_hits = 0, m_matched_hits = 0, m_accepted_clusters = 0,
           cells_entered = [], gem_out_of_bounds = False\<rparr>"

text \<open>
  The position of a hit (lines 395-406) and the test \<open>dca > m_max_dca\<close> of line 459.
  \<open>t\<close> is a quotient by \<open>square(direction.Mag())\<close>: for a direction of norm 0 it is
  \<open>0/0\<close>, \<open>dca\<close> is NaN and the test is false.
\<close>

definition AdcClockPeriod :: real where
  "AdcClockPeriod = 53.0"

definition hit_global :: "laser_env \<Rightarrow> nat \<Rightarrow> int \<Rightarrow> hit \<Rightarrow> real \<times> vec3" where
  "hit_global env layer side h =
     (let layergeom = GetLayerCellGeom env layer;
          layer_center_radius = lg_radius layergeom;
          NTBins = lg_zbins layergeom;
          tdriftmax = AdcClockPeriod * real NTBins / 2.0;
          phi = lg_phicenter layergeom (hit_pad h);
          x = layer_center_radius * cos phi;
          y = layer_center_radius * sin phi;
          zdriftlength = lg_zcenter layergeom (hit_tbin h) * drift_velocity env;
          z = tdriftmax * drift_velocity env - zdriftlength;
          z = (if side = 0 then z * (- 1) else z)
      in (phi, Vec3 x y z))"

definition dca_too_large :: "laser_env \<Rightarrow> vec3 \<Rightarrow> vec3 \<Rightarrow> vec3 \<Rightarrow> bool" where
  "dca_too_large env origin direction global =
     (let oc = Vec3 (vx global - vx origin) (vy global - vy origin) (vz global - vz origin)
      in if square (Mag direction) = 0 then False
         else
           let t = dot direction oc / square (Mag direction);
               om = smul t direction;
               dca = Mag (vsub oc om)
           in dca > m_max_dca env)"

text \<open>
  The increment \<open>GEM_Mod_Arr[locateid-1]++\<close> of line 476 on the array of 72 counters:
  outside the array the model leaves the array as it is and reports the access.
\<close>

definition gem_increment :: "int \<Rightarrow> int list \<Rightarrow> int list \<times> bool" where
  "gem_increment locateid GEM_Mod_Arr =
     (if 0 \<le> locateid - 1 \<and> locateid - 1 < int (length GEM_Mod_Arr)
      then (GEM_Mod_Arr [nat (locateid - 1) := GEM_Mod_Arr ! nat (locateid - 1) + 1], False)
      else (GEM_Mod_Arr, True))"

text \<open>
  The locals of \<open>process_track\<close> that the loop over the hits (lines 372-483) fills:
  the multimap \<open>cluspos_map\<close> from the layer to the weight and position of each
  associated hit, in the order of insertion, the set \<open>layer_bin_set\<close> of their layers,
  and the array of GEM counters.
\<close>

record track_locals =
  cluspos_map :: "(nat \<times> real \<times> vec3) list"
  layer_bin_set :: "nat set"
  GEM_Mod_Arr :: "int list"

definition hit_step ::
  "laser_env \<Rightarrow> laser_track \<Rightarrow> nat \<Rightarrow> int \<Rightarrow> laser_state \<times> track_locals \<Rightarrow> hit
     \<Rightarrow> laser_state \<times> track_locals" where
  "hit_step env track layer side sl h =
     (let s = fst sl; loc = snd sl;
          s = s\<lparr>m_total_hits := m_total_hits s + 1\<rparr>;
          (phi, global) = hit_global env layer side h;
          adc = hit_adc h - m_pedestal env
      in if dca_too_large env (lt_origin track) (lt_direction track) global then (s, loc)
         else
           let s = s\<lparr>m_matched_hits := m_matched_hits s + 1\<rparr>;
               r2 = sqrt (vx global * vx global + vy global * vy global);
               phi2 = phi_lower (phi_raise phi);
               z2 = vz global;
               locateid = Locate r2 phi2 z2;
               (arr, oob) = (if z2 > m_zmin \<or> z2 < m_zmax
                             then gem_increment locateid (GEM_Mod_Arr loc)
                             else (GEM_Mod_Arr loc, False))
           in (s\<lparr>gem_out_of_bounds := (gem_out_of_bounds s \<or> oob)\<rparr>,
               \<lparr>cluspos_map = cluspos_map loc @ [(layer, adc, global)],
                layer_bin_set = insert layer (layer_bin_set loc),
                GEM_Mod_Arr = arr\<rparr>))"

definition hitset_step ::
  "laser_env \<Rightarrow> laser_track \<Rightarrow> laser_state \<times> track_locals \<Rightarrow> hitset
     \<Rightarrow> laser_state \<times> track_locals" where
  "hitset_step env track sl hs =
     foldl (hit_step env track (hs_layer hs) (hs_side hs)) sl (hs_hits hs)"

definition hit_loop ::
  "laser_env \<Rightarrow> laser_track \<Rightarrow> hitset list \<Rightarrow> laser_state \<Rightarrow> laser_state \<times> track_locals" where
  "hit_loop env track hitsets s =
     foldl (hitset_step env track)
       (s, \<lparr>cluspos_map = [], layer_bin_set = {}, GEM_Mod_Arr = replicate 72 0\<rparr>)
       hitsets"

text \<open>Comparisons of two values that can be NaN.\<close>

fun dbl_less :: "dbl \<Rightarrow> dbl \<Rightarrow> bool" where
  "dbl_less (Finite a) (Finite b) = (a < b)"
| "dbl_less _ _ = False"

text \<open>
  The charge-weighted sum over the hits of a layer (lines 547-573): the sum of the
  positions times weight, the sum of the weights, and the least and greatest \<open>z\<close>, over the
  hits within \<open>m_max_zrange\<close> of the track in \<open>z\<close>.
\<close>

record centroid_acc =
  ca_sum :: vec3
  ca_wt :: real
  ca_zmin :: real
  ca_zmax :: real

definition centroid_step :: "laser_env \<Rightarrow> real \<Rightarrow> centroid_acc \<Rightarrow> real \<times> vec3 \<Rightarrow> centroid_acc" where
  "centroid_step env projection_z acc entry =
     (let adc = fst entry; cluspos = snd entry
      in if \<bar>vz cluspos - projection_z\<bar> > m_max_zrange env then acc
         else
           \<lparr>ca_sum = vadd (ca_sum acc) (smul adc cluspos),
            ca_wt = ca_wt acc + adc,
            ca_zmin = (if vz cluspos < ca_zmin acc then vz cluspos else ca_zmin acc),
            ca_zmax = (if vz cluspos > ca_zmax acc then vz cluspos else ca_zmax acc)\<rparr>)"

text \<open>
  The body of the loop over the layers of \<open>layer_bin_set\<close> (lines 499-777) for one
  layer: \<open>None\<close> where the source leaves the iteration by \<open>continue\<close>, and the cell
  otherwise, where it goes on to the matrices and to \<open>++m_accepted_clusters\<close>.
  Three quotients can have a zero divisor:
  \<^item> the intersection parameter \<open>t\<close> is NaN for a direction along \<open>z\<close>; then the
    projection, \<open>track_phi\<close> and \<open>talpha\<close> are NaN, and the iteration ends at
    \<open>isnan(talpha)\<close> if not before;
  \<^item> the centroid is a quotient by the sum \<open>wt\<close> of the weights; with \<open>wt = 0\<close> each
    coordinate is infinite or NaN, so \<open>drp\<close> or \<open>dz\<close> is NaN or the radius is infinite
    and \<open>get_cell_index\<close> gives -1: the iteration ends at one of these tests if not
    before;
  \<^item> \<open>talpha\<close> and \<open>tbeta\<close> are quotients by \<open>track_pr\<close>: \<open>talpha\<close> is NaN when
    \<open>track_pphi\<close> is 0 too, \<open>tbeta\<close> when \<open>track_pz\<close> is 0 too; otherwise they are
    infinite and pass \<open>isnan\<close>.

  \<open>get_cell_index\<close> always returns (lemma \<open>get_cell_index_returns\<close>), so its \<open>None\<close> is a
  case that does not occur.
\<close>

definition layer_step ::
  "laser_env \<Rightarrow> laser_track \<Rightarrow> (nat \<times> real \<times> vec3) list \<Rightarrow> nat \<Rightarrow> int option" where
  "layer_step env track cluspos layer =
     (let origin = lt_origin track; direction = lt_direction track;
          layergeom = GetLayerCellGeom env layer;
          layer_center_radius = lg_radius layergeom;
          layer_inner_radius = layer_center_radius - lg_thickness layergeom / 2.0;
          layer_outer_radius = layer_center_radius + lg_thickness layergeom / 2.0;
          tupdn_outer = line_circle_intersection origin direction layer_outer_radius
      in if dbl_le (fst tupdn_outer) 0 \<and> dbl_le (snd tupdn_outer) 0 then None
         else
           let tupdn_inner = line_circle_intersection origin direction layer_inner_radius
           in if dbl_le (fst tupdn_inner) 0 \<and> dbl_le (snd tupdn_inner) 0 then None
              else
                let tupdn = line_circle_intersection origin direction layer_center_radius;
                    tup = fst tupdn; tdn = snd tupdn;
                    t = (if dbl_gt tdn 0 \<and> dbl_less tdn tup then tdn else tup)
                in if dbl_lt t 0 then None
                   else
                     case t of
                       NaN \<Rightarrow> None
                     | Finite tv \<Rightarrow>
                         let om = smul tv direction;
                             projection = vadd origin om;
                             bin_residual = map snd (filter (\<lambda>e. fst e = layer) cluspos);
                             acc = foldl (centroid_step env (vz projection))
                                     \<lparr>ca_sum = Vec3 0 0 0, ca_wt = 0, ca_zmin = 999, ca_zmax = - 999\<rparr>
                                     bin_residual;
                             zrange = ca_zmax acc - ca_zmin acc
                         in if zrange > m_max_zrange env then None
                            else if ca_wt acc = 0 then None
                            else
                              let clus_centroid = Vec3 (vx (ca_sum acc) / ca_wt acc)
                                                       (vy (ca_sum acc) / ca_wt acc)
                                                       (vz (ca_sum acc) / ca_wt acc);
                                  pathlength = Mag om;
                                  ns_per_cm = 1000000000 / 30000000000;
                                  dt = pathlength * ns_per_cm;
                                  transit_dz = dt * drift_velocity env;
                                  clus_centroid =
                                    (if vz origin > 0
                                     then Vec3 (vx clus_centroid) (vy clus_centroid)
                                               (vz clus_centroid + transit_dz)
                                     else Vec3 (vx clus_centroid) (vy clus_centroid)
                                               (vz clus_centroid - transit_dz));
                                  track_phi = atan2 (vy projection) (vx projection);
                                  cosphi = cos track_phi;
                                  sinphi = sin track_phi;
                                  track_pphi = - vx direction * sinphi + vy direction * cosphi;
                                  track_pr = vx direction * cosphi + vy direction * sinphi;
                                  track_pz = vz direction
                              in if track_pr = 0 \<and> track_pphi = 0 then None
                                 else if track_pr = 0 \<and> track_pz = 0 then None
                                 else
                                   case get_cell_index (m_matrix_container env) clus_centroid of
                                     None \<Rightarrow> None
                                   | Some i \<Rightarrow> if i < 0 then None else Some i)"

text \<open>
  One iteration of the loop over \<open>layer_bin_set\<close>: a layer that reaches the end of
  the body adds its entry to the cell and increments \<open>m_accepted_clusters\<close>.
\<close>

definition layer_iteration ::
  "laser_env \<Rightarrow> laser_track \<Rightarrow> (nat \<times> real \<times> vec3) list \<Rightarrow> laser_state \<Rightarrow> nat
     \<Rightarrow> laser_state" where
  "layer_iteration env track cluspos s layer =
     (case layer_step env track cluspos layer of
        None \<Rightarrow> s
      | Some i \<Rightarrow> s\<lparr>cells_entered := cells_entered s @ [i],
                     m_accepted_clusters := m_accepted_clusters s + 1\<rparr>)"

text \<open>
  \<open>process_track\<close> (lines 346-789): the loop over the hits, then the loop over the
  layers of \<open>layer_bin_set\<close> in ascending order.
\<close>

definition process_track :: "laser_env \<Rightarrow> hitset list \<Rightarrow> laser_state \<Rightarrow> laser_track \<Rightarrow> laser_state" where
  "process_track env hitsets s track =
     (let (s, loc) = hit_loop env track hitsets s
      in foldl (layer_iteration env track (cluspos_map loc)) s
           (sorted_list_of_set (layer_bin_set loc)))"

text \<open>
  \<open>process_tracks\<close> (lines 336-343) and \<open>process_event\<close> (lines 165-173) on the track
  map and the hit sets that \<open>load_nodes\<close> found.
\<close>

record laser_event =
  ev_tracks :: "laser_track list"
  ev_hitsets :: "hitset list"

definition process_tracks :: "laser_env \<Rightarrow> laser_state \<Rightarrow> laser_event \<Rightarrow> laser_state" where
  "process_tracks env s ev = foldl (process_track env (ev_hitsets ev)) s (ev_tracks ev)"

subsection \<open>A laser event used to evaluate the reconstruction\<close>

text \<open>One layer of radius 40 with two pads (azimuth 0 and \<open>\<pi>/2\<close>), a laser along the
  x axis, no drift, and a 36 x 16 x 80 distortion grid flattened row-major.\<close>

definition example_laser_env :: laser_env where
  "example_laser_env =
     \<lparr>GetLayerCellGeom = (\<lambda>layer. \<lparr>lg_radius = 40, lg_thickness = 2, lg_zbins = 2,
                                     lg_phicenter = (\<lambda>pad. if pad = 0 then 0 else pi / 2),
                                     lg_zcenter = (\<lambda>tbin. 53)\<rparr>),
      drift_velocity = 0,
      m_max_dca = 20,
      m_max_zrange = 5,
      m_pedestal = 60,
      m_matrix_container = \<lparr>mc_phibins = 36, mc_rbins = 16, mc_zbins = 80,
                             mc_cell_index = (\<lambda>iphi ir iz. iz + 80 * (ir + 16 * iphi))\<rparr>\<rparr>"

definition example_laser_track :: laser_track where
  "example_laser_track = \<lparr>lt_id = 0, lt_origin = Vec3 0 0 0, lt_direction = Vec3 1 0 0\<rparr>"

definition example_laser_event :: laser_event where
  "example_laser_event =
     \<lparr>ev_tracks = [example_laser_track],
      ev_hitsets = [\<lparr>hs_layer = 7, hs_side = 1,
                     hs_hits = [\<lparr>hit_pad = 0, hit_tbin = 0, hit_adc = 100\<rparr>,
                                \<lparr>hit_pad = 5, hit_tbin = 0, hit_adc = 100\<rparr>]\<rparr>]\<rparr>"

text \<open>
  A container that numbers the cells of its grid row-major and gives -1 for a bin outside
  of the grid.
\<close>

definition example_container :: "int \<Rightarrow> int \<Rightarrow> int \<Rightarrow> matrix_container" where
  "example_container phibins rbins zbins =
     \<lparr>mc_phibins = phibins, mc_rbins = rbins, mc_zbins = zbins,
      mc_cell_index = (\<lambda>iphi ir iz.
        if iphi < 0 \<or> iphi \<ge> phibins then - 1
        else if ir < 0 \<or> ir \<ge> rbins then - 1
        else if iz < 0 \<or> iz \<ge> zbins then - 1
        else iz + zbins * (ir + rbins * iphi))\<rparr>"

section \<open>SecondaryVertexFinder: geometry\<close>

text \<open>\<open>Eigen::Vector2d::norm\<close>.\<close>

definition norm2 :: "real \<Rightarrow> real \<Rightarrow> real" where
  "norm2 x y = sqrt (x * x + y * y)"

text \<open>
  \<open>circle_circle_intersection\<close> (lines 932-995). The result is the returned flag and
  the vector \<open>intersectionXY\<close> after the call; the function only appends to it.
  Two places divide by a distance between the centres that can be zero:
  \<^item> \<open>u0 /= u0.norm()\<close> and \<open>u1 /= u1.norm()\<close>: at distance 0 both components of \<open>u0\<close>
    and \<open>u1\<close> are \<open>0/0\<close>, so both coordinates pushed are NaN;
  \<^item> \<open>a = (r0*r0-r1*r1+d*d)/(2*d)\<close>: the branch is reached at \<open>d = 0\<close> only when
    \<open>r1 = r0\<close>, so \<open>a\<close> is \<open>0/0\<close> and the four coordinates pushed are NaN.
  The square root \<open>h\<close> is taken of \<open>r0*r0 - a*a\<close>, which is not negative where the
  branch is reached with \<open>d \<noteq> 0\<close> (lemma \<open>cci_radicand_nonneg\<close>).
\<close>

definition circle_circle_intersection ::
  "real \<Rightarrow> real \<Rightarrow> real \<Rightarrow> real \<Rightarrow> real \<Rightarrow> real \<Rightarrow> dbl list \<Rightarrow> bool \<times> dbl list" where
  "circle_circle_intersection r0 x0 y0 r1 x1 y1 intersectionXY =
     (let d = norm2 (x0 - x1) (y0 - y1)
      in if d < \<bar>r1 - r0\<bar> then (False, intersectionXY)
         else if d > r0 + r1 then
           (let dr = 0.2
            in if \<bar>d - (r0 + r1)\<bar> < dr then
                 (if norm2 (x1 - x0) (y1 - y0) = 0 \<or> norm2 (x0 - x1) (y0 - y1) = 0
                  then (True, intersectionXY @ [NaN, NaN])
                  else
                    let u0x = (x1 - x0) / norm2 (x1 - x0) (y1 - y0);
                        u0y = (y1 - y0) / norm2 (x1 - x0) (y1 - y0);
                        PCA0x = x0 + u0x * r0;
                        PCA0y = y0 + u0y * r0;
                        u1x = (x0 - x1) / norm2 (x0 - x1) (y0 - y1);
                        u1y = (y0 - y1) / norm2 (x0 - x1) (y0 - y1);
                        PCA1x = x1 + u1x * r1;
                        PCA1y = y1 + u1y * r1;
                        PCAx = (PCA0x + PCA1x) / 2.0;
                        PCAy = (PCA0y + PCA1y) / 2.0
                    in (True, intersectionXY @ [Finite PCAx, Finite PCAy]))
               else (False, intersectionXY))
         else if 2 * d = 0 then (True, intersectionXY @ [NaN, NaN, NaN, NaN])
         else
           let a = (r0 * r0 - r1 * r1 + d * d) / (2 * d);
               h = sqrt (r0 * r0 - a * a);
               x2 = x0 + a * (x1 - x0) / d;
               y2 = y0 + a * (y1 - y0) / d;
               x3a = x2 + h * (y1 - y0) / d;
               y3a = y2 - h * (x1 - x0) / d;
               x3b = x2 - h * (y1 - y0) / d;
               y3b = y2 + h * (x1 - x0) / d
           in (True, intersectionXY @ [Finite x3a, Finite y3a, Finite x3b, Finite y3b]))"

text \<open>
  An \<open>Eigen::Vector3d\<close> handed back to the caller: its components can be NaN.
\<close>

datatype dvec3 = DVec3 dbl dbl dbl

definition fin3 :: "vec3 \<Rightarrow> dvec3" where
  "fin3 v = DVec3 (Finite (vx v)) (Finite (vy v)) (Finite (vz v))"

definition nan3 :: dvec3 where
  "nan3 = DVec3 NaN NaN NaN"

text \<open>
  The divisions a call performs, by the name of the divisor, in the order of the source.
  The list is no value of the C++ function: it records which divisions the run reaches.
\<close>

datatype division = By_mom1_norm | By_mom2_norm | By_mag_bcrossb | By_b2_dot_b1 | By_X

record lines_result =
  dca :: dbl
  PCA1 :: dvec3
  PCA2 :: dvec3
  divisions :: "division list"

text \<open>
  \<open>dcaTwoLines\<close> (lines 997-1027); \<open>PCA1\<close> and \<open>PCA2\<close> are passed by reference, so the
  model takes their values before the call and returns their values after it.
  When \<open>b2.dot(b1)\<close> is 0 the quotients by it are infinite or NaN: \<open>X\<close> is infinite and
  \<open>Y\<close> is infinite or NaN, so \<open>c = Y/X\<close> is NaN, and so are \<open>d\<close> and every component of
  the two points. The division \<open>Y/X\<close> is not by zero where it is reached with
  \<open>b2.dot(b1) \<noteq> 0\<close> (lemma \<open>lines_X_nonzero\<close>).
\<close>

definition dcaTwoLines ::
  "vec3 \<Rightarrow> vec3 \<Rightarrow> vec3 \<Rightarrow> vec3 \<Rightarrow> dvec3 \<Rightarrow> dvec3 \<Rightarrow> lines_result" where
  "dcaTwoLines a1 b1 a2 b2 PCA1_in PCA2_in =
     (let bcrossb = cross b1 b2;
          mag_bcrossb = Mag bcrossb;
          aminusa = vsub a2 a1
      in if mag_bcrossb \<noteq> 0 then
           (let dca_v = dot bcrossb aminusa / mag_bcrossb
            in if dot b2 b1 = 0 then
                 \<lparr>dca = Finite dca_v, PCA1 = nan3, PCA2 = nan3,
                  divisions = [By_mag_bcrossb, By_b2_dot_b1, By_b2_dot_b1, By_X,
                               By_b2_dot_b1, By_b2_dot_b1]\<rparr>
               else
                 let X = dot b1 b2 - dot b1 b1 * dot b2 b2 / dot b2 b1;
                     Y = (dot a2 b2 - dot a1 b2) - (dot a2 b1 - dot a1 b1) * dot b2 b2 / dot b2 b1;
                     c = Y / X;
                     F = dot b1 b1 / dot b2 b1;
                     G = - (dot a2 b1 - dot a1 b1) / dot b2 b1;
                     d = c * F + G
                 in \<lparr>dca = Finite dca_v,
                     PCA1 = fin3 (vadd a1 (smul c b1)),
                     PCA2 = fin3 (vadd a2 (smul d b2)),
                     divisions = [By_mag_bcrossb, By_b2_dot_b1, By_b2_dot_b1, By_X,
                                  By_b2_dot_b1, By_b2_dot_b1]\<rparr>)
         else \<lparr>dca = Finite 999, PCA1 = PCA1_in, PCA2 = PCA2_in, divisions = []\<rparr>)"

text \<open>
  \<open>findPcaTwoLines\<close> (lines 662-707); \<open>dca\<close>, \<open>PCA1\<close> and \<open>PCA2\<close> are passed by
  reference, and \<open>dca\<close> is assigned on every path. The directions are the momenta divided
  by their norms: with a momentum of norm 0 the components of its direction are \<open>0/0\<close>,
  the cross product and its norm are NaN, the test \<open>mag_bcrossb != 0\<close> holds and every
  value computed after it is NaN.
\<close>

definition findPcaTwoLines ::
  "vec3 \<Rightarrow> vec3 \<Rightarrow> vec3 \<Rightarrow> vec3 \<Rightarrow> dvec3 \<Rightarrow> dvec3 \<Rightarrow> lines_result" where
  "findPcaTwoLines pos1 mom1 pos2 mom2 PCA1_in PCA2_in =
     (if Mag mom1 = 0 \<or> Mag mom2 = 0 then
        \<lparr>dca = NaN, PCA1 = nan3, PCA2 = nan3,
         divisions = [By_mom1_norm, By_mom1_norm, By_mom1_norm,
                      By_mom2_norm, By_mom2_norm, By_mom2_norm,
                      By_mag_bcrossb, By_b2_dot_b1, By_b2_dot_b1, By_X,
                      By_b2_dot_b1, By_b2_dot_b1]\<rparr>
      else
        let a1 = Vec3 (vx pos1) (vy pos1) (vz pos1);
            b1 = Vec3 (vx mom1 / Mag mom1) (vy mom1 / Mag mom1) (vz mom1 / Mag mom1);
            a2 = Vec3 (vx pos2) (vy pos2) (vz pos2);
            b2 = Vec3 (vx mom2 / Mag mom2) (vy mom2 / Mag mom2) (vz mom2 / Mag mom2);
            bcrossb = cross b1 b2;
            mag_bcrossb = Mag bcrossb;
            aminusa = vsub a2 a1;
            norms = [By_mom1_norm, By_mom1_norm, By_mom1_norm,
                     By_mom2_norm, By_mom2_norm, By_mom2_norm]
        in if mag_bcrossb \<noteq> 0 then
             (let dca_v = dot bcrossb aminusa / mag_bcrossb
              in if dot b2 b1 = 0 then
                   \<lparr>dca = Finite dca_v, PCA1 = nan3, PCA2 = nan3,
                    divisions = norms @ [By_mag_bcrossb, By_b2_dot_b1, By_b2_dot_b1, By_X,
                                         By_b2_dot_b1, By_b2_dot_b1]\<rparr>
                 else
                   let X = dot b1 b2 - dot b1 b1 * dot b2 b2 / dot b2 b1;
                       Y = (dot a2 b2 - dot a1 b2)
                             - (dot a2 b1 - dot a1 b1) * dot b2 b2 / dot b2 b1;
                       c = Y / X;
                       F = dot b1 b1 / dot b2 b1;
                       G = - (dot a2 b1 - dot a1 b1) / dot b2 b1;
                       d = c * F + G
                   in \<lparr>dca = Finite dca_v,
                       PCA1 = fin3 (vadd a1 (smul c b1)),
                       PCA2 = fin3 (vadd a2 (smul d b2)),
                       divisions = norms @ [By_mag_bcrossb, By_b2_dot_b1, By_b2_dot_b1, By_X,
                                            By_b2_dot_b1, By_b2_dot_b1]\<rparr>)
           else \<lparr>dca = Finite 999, PCA1 = PCA1_in, PCA2 = PCA2_in, divisions = norms\<rparr>)"

section \<open>SecondaryVertexFinder: track pairs\<close>

text \<open>Arithmetic on values that can be NaN: NaN in, NaN out.\<close>

fun dbl_lift2 :: "(real \<Rightarrow> real \<Rightarrow> real) \<Rightarrow> dbl \<Rightarrow> dbl \<Rightarrow> dbl" where
  "dbl_lift2 f (Finite a) (Finite b) = Finite (f a b)"
| "dbl_lift2 f _ _ = NaN"

definition dv_add :: "dvec3 \<Rightarrow> dvec3 \<Rightarrow> dvec3" where
  "dv_add a b = (case a of DVec3 ax ay az \<Rightarrow> case b of DVec3 bx by bz \<Rightarrow>
     DVec3 (dbl_lift2 (+) ax bx) (dbl_lift2 (+) ay by) (dbl_lift2 (+) az bz))"

definition dv_sub :: "dvec3 \<Rightarrow> dvec3 \<Rightarrow> dvec3" where
  "dv_sub a b = (case a of DVec3 ax ay az \<Rightarrow> case b of DVec3 bx by bz \<Rightarrow>
     DVec3 (dbl_lift2 (-) ax bx) (dbl_lift2 (-) ay by) (dbl_lift2 (-) az bz))"

definition dv_div :: "dvec3 \<Rightarrow> real \<Rightarrow> dvec3" where
  "dv_div a s = (case a of DVec3 ax ay az \<Rightarrow>
     DVec3 (dbl_lift2 (/) ax (Finite s)) (dbl_lift2 (/) ay (Finite s)) (dbl_lift2 (/) az (Finite s)))"

definition dv_norm :: "dvec3 \<Rightarrow> dbl" where
  "dv_norm a = (case a of
       DVec3 (Finite ax) (Finite ay) (Finite az) \<Rightarrow> Finite (sqrt (ax * ax + ay * ay + az * az))
     | _ \<Rightarrow> NaN)"

text \<open>An \<open>Eigen::Vector2d\<close> handed back to the caller, and its norm.\<close>

type_synonym dvec2 = "dbl \<times> dbl"

definition d2_norm :: "dvec2 \<Rightarrow> dbl" where
  "d2_norm v = dbl_lift2 (\<lambda>x y. sqrt (x * x + y * y)) (fst v) (snd v)"

text \<open>
  What the finder reads of its collaborators, none of which is among the sources. A
  cluster key of a seed carries the detector it belongs to and, when the cluster and its
  surface are found and the position is corrected (\<open>getTrackletClusters\<close>, lines
  1062-1097), the global position. A track is read through the getters of \<open>SvtxTrack\<close>;
  its TPC seed is taken to be present, as the source takes it.
\<close>

datatype TrkrId = mvtxId | inttId | tpcId | micromegasId

record track =
  trk_id :: nat
  trk_vertex_id :: nat
  trk_quality :: real
  trk_charge :: int
  trk_pos :: vec3
  trk_mom :: vec3
  trk_silicon_seed :: bool
  trk_tpc_seed :: "(TrkrId \<times> vec3 option) list"

record vertex =
  vtx_size_tracks :: nat
  vtx_pos :: vec3

text \<open>
  The configuration, the vertex map, the two fits of \<open>TrackFitUtils\<close>, the Acts
  propagation to a cylinder, and the contents of the locals that the source declares
  without a value and may read before it writes them: \<open>dca3dz2\<close> (when \<open>get_dca\<close> finds
  no vertex) and the array \<open>intersection\<close>.
\<close>

record finder_env =
  Verbosity :: int
  vertex_map :: "nat \<Rightarrow> vertex option"
  require_mvtx :: bool
  qual_cut :: real
  track_dcaxy_cut :: real
  track_dcaz_cut :: real
  max_intersection_radius :: real
  projected_track_z_cut :: real
  two_track_dcacut :: real
  min_path_cut :: real
  circle_fit_by_taubin :: "vec3 list \<Rightarrow> real \<times> real \<times> real"
  line_fit :: "vec3 list \<Rightarrow> real \<times> real"
  propagate_to_cylinder :: "track \<Rightarrow> dbl \<Rightarrow> (vec3 \<times> vec3) option"
  stale_dca :: "track \<Rightarrow> dbl \<times> dbl"
  stale_intersection :: "track \<Rightarrow> track \<Rightarrow> dvec2 \<times> dvec2"

text \<open>\<open>hasSiliconSeed\<close> (lines 462-469).\<close>

definition hasSiliconSeed :: "track \<Rightarrow> bool" where
  "hasSiliconSeed tr = (if trk_silicon_seed tr then True else False)"

text \<open>
  \<open>get_dca\<close> (lines 471-539), its first two outputs: \<open>dca3dxy\<close> is set to NaN first, and
  when the vertex is not found the function returns with \<open>dca3dz\<close> as it was. The two
  sigmas are written too; no caller in the sources reads them.
\<close>

definition get_dca :: "finder_env \<Rightarrow> track \<Rightarrow> dbl \<times> dbl \<Rightarrow> dbl \<times> dbl" where
  "get_dca env tr before =
     (case vertex_map env (trk_vertex_id tr) of
        None \<Rightarrow> (NaN, snd before)
      | Some svtxVertex \<Rightarrow>
          let pos = vsub (trk_pos tr) (vtx_pos svtxVertex);
              r = cross (trk_mom tr) (Vec3 0 0 1);
              phi = atan2 (vy r) (vx r);
              pos_R0 = cos phi * vx pos + (- sin phi) * vy pos + 0 * vz pos;
              pos_R2 = 0 * vx pos + 0 * vy pos + 1 * vz pos
          in (Finite pos_R0, Finite pos_R2))"

text \<open>
  \<open>fitClusters\<close> (lines 1029-1060). Each test for too few clusters returns only under
  the nested test of the verbosity.
\<close>

definition getTrackletClusters :: "(TrkrId \<times> vec3 option) list \<Rightarrow> (TrkrId \<times> vec3) list" where
  "getTrackletClusters tracklet =
     concat (map (\<lambda>(trkrid, g). case g of None \<Rightarrow> [] | Some global \<Rightarrow> [(trkrid, global)]) tracklet)"

definition fitClusters :: "finder_env \<Rightarrow> (TrkrId \<times> vec3 option) list \<Rightarrow> real list" where
  "fitClusters env tracklet =
     (let clusters = getTrackletClusters tracklet;
          global_vec = map snd clusters
      in if length global_vec < 3 \<and> Verbosity env > 0 then []
         else
           let circle_fit_pars = circle_fit_by_taubin env global_vec;
               global_vec_noINTT = map snd (filter (\<lambda>(trkrid, g). trkrid \<noteq> inttId) clusters)
           in if length global_vec_noINTT < 3 \<and> Verbosity env > 0 then []
              else
                let line_fit_pars = line_fit env global_vec_noINTT
                in [fst circle_fit_pars, fst (snd circle_fit_pars), snd (snd circle_fit_pars),
                    fst line_fit_pars, snd line_fit_pars])"

text \<open>
  \<open>findTwoTrackIntersection\<close> (lines 756-801): the returned flag and the two points
  passed by reference, after the call.
\<close>

definition findTwoTrackIntersection ::
  "finder_env \<Rightarrow> track \<Rightarrow> track \<Rightarrow> dvec2 \<Rightarrow> dvec2 \<Rightarrow> bool \<times> dvec2 \<times> dvec2" where
  "findTwoTrackIntersection env track1 track2 intersect1 intersect2 =
     (let circle_fitpars1 = fitClusters env (trk_tpc_seed track1)
      in if length circle_fitpars1 = 0 then (False, intersect1, intersect2)
         else
           let circle_fitpars2 = fitClusters env (trk_tpc_seed track2)
           in if length circle_fitpars2 = 0 then (False, intersect1, intersect2)
              else
                case circle_circle_intersection
                       (circle_fitpars1 ! 0) (circle_fitpars1 ! 1) (circle_fitpars1 ! 2)
                       (circle_fitpars2 ! 0) (circle_fitpars2 ! 1) (circle_fitpars2 ! 2) [] of
                  (False, intersections) \<Rightarrow> (False, intersect1, intersect2)
                | (True, intersections) \<Rightarrow>
                    (True, (intersections ! 0, intersections ! 1),
                     if length intersections = 4 then (intersections ! 2, intersections ! 3)
                     else intersect2))"

text \<open>
  \<open>projectTrackToCylinder\<close> (lines 341-378): the flag, and \<open>pos\<close> and \<open>mom\<close> after the
  call; the caller passes both as (0,0,0).
\<close>

definition projectTrackToCylinder ::
  "finder_env \<Rightarrow> track \<Rightarrow> dbl \<Rightarrow> vec3 \<Rightarrow> vec3 \<Rightarrow> bool \<times> vec3 \<times> vec3" where
  "projectTrackToCylinder env tr Radius pos mom =
     (case propagate_to_cylinder env tr Radius of
        Some (projectionPos, momentum) \<Rightarrow> (True, projectionPos, momentum)
      | None \<Rightarrow> (False, pos, mom))"

text \<open>
  What \<open>process_event\<close> emits for a pair that passes every cut: the fill of the histogram
  \<open>recomass\<close> and the row of the ntuple (\<open>fillNtp\<close>, lines 86-125), here the tracks and
  the quantities the cuts were taken on.
\<close>

record candidate =
  cand_track1 :: track
  cand_track2 :: track
  cand_dca3dxy1 :: dbl
  cand_dca3dz1 :: dbl
  cand_dca3dxy2 :: dbl
  cand_dca3dz2 :: dbl
  cand_has_silicon_1 :: int
  cand_has_silicon_2 :: int
  cand_intersection :: dvec2
  cand_PCA1 :: dvec3
  cand_PCA2 :: dvec3
  cand_pair_dca :: dbl
  cand_path :: dbl

text \<open>
  The body of the loop over the two intersections (lines 233-333), for one of them. The
  vertex of track 1 was found before the loop is entered.
\<close>

definition intersection_body ::
  "finder_env \<Rightarrow> track \<Rightarrow> vertex \<Rightarrow> dbl \<times> dbl \<Rightarrow> int \<Rightarrow> track \<Rightarrow> dbl \<times> dbl \<Rightarrow> int \<Rightarrow> dvec2
     \<Rightarrow> candidate list" where
  "intersection_body env tr1 vertex1 dcas1 has_silicon_1 tr2 dcas2 has_silicon_2 intersection_i =
     (if dbl_eq (d2_norm intersection_i) 0 then []
      else
        let vradius = d2_norm intersection_i
        in if dbl_gt vradius (max_intersection_radius env) then []
           else
             case projectTrackToCylinder env tr1 vradius (Vec3 0 0 0) (Vec3 0 0 0) of
               (False, vpos1, vmom1) \<Rightarrow> []
             | (True, vpos1, vmom1) \<Rightarrow>
                 (case projectTrackToCylinder env tr2 vradius (Vec3 0 0 0) (Vec3 0 0 0) of
                    (False, vpos2, vmom2) \<Rightarrow> []
                  | (True, vpos2, vmom2) \<Rightarrow>
                      if \<bar>vz vpos1 - vz vpos2\<bar> > projected_track_z_cut env then []
                      else
                        let res = findPcaTwoLines vpos1 vmom1 vpos2 vmom2
                                    (fin3 (Vec3 0 0 0)) (fin3 (Vec3 0 0 0));
                            pair_dca = dca res
                        in if dbl_gt (dbl_fabs pair_dca) (two_track_dcacut env) then []
                           else
                             let PCA = dv_div (dv_add (PCA1 res) (PCA2 res)) 2.0;
                                 VTX = fin3 (vtx_pos vertex1);
                                 path = dv_sub PCA VTX
                             in if dbl_gt (dv_norm path) (min_path_cut env) then
                                  [\<lparr>cand_track1 = tr1, cand_track2 = tr2,
                                    cand_dca3dxy1 = fst dcas1, cand_dca3dz1 = snd dcas1,
                                    cand_dca3dxy2 = fst dcas2, cand_dca3dz2 = snd dcas2,
                                    cand_has_silicon_1 = has_silicon_1,
                                    cand_has_silicon_2 = has_silicon_2,
                                    cand_intersection = intersection_i,
                                    cand_PCA1 = PCA1 res, cand_PCA2 = PCA2 res,
                                    cand_pair_dca = pair_dca, cand_path = dv_norm path\<rparr>]
                                else []))"

text \<open>The body of the inner loop over the second track (lines 176-334).\<close>

definition pair_body ::
  "finder_env \<Rightarrow> track \<Rightarrow> vertex \<Rightarrow> dbl \<times> dbl \<Rightarrow> int \<Rightarrow> track \<Rightarrow> candidate list" where
  "pair_body env tr1 vertex1 dcas1 has_silicon_1 tr2 =
     (if require_mvtx env \<and> \<not> hasSiliconSeed tr2 then []
      else
        let has_silicon_2 = (if hasSiliconSeed tr2 then 1 else 0)
        in if trk_charge tr2 = trk_charge tr1 then []
           else if trk_quality tr2 > qual_cut env then []
           else
             let ntpc2 = int (length (trk_tpc_seed tr2))
             in if ntpc2 < 20 then []
                else
                  let dcas2 = get_dca env tr2 (stale_dca env tr2);
                      dca3dxy2 = fst dcas2;
                      dca3dz2 = snd dcas2
                  in if dbl_eq dca3dxy2 0 then []
                     else if dbl_lt (dbl_fabs dca3dxy2) (track_dcaxy_cut env) then []
                     else if dbl_lt (dbl_fabs dca3dz2) (track_dcaz_cut env) then []
                     else
                       case findTwoTrackIntersection env tr1 tr2
                              (fst (stale_intersection env tr1 tr2))
                              (snd (stale_intersection env tr1 tr2)) of
                         (False, intersection0, intersection1) \<Rightarrow> []
                       | (True, intersection0, intersection1) \<Rightarrow>
                           concat (map (intersection_body env tr1 vertex1 dcas1 has_silicon_1
                                          tr2 dcas2 has_silicon_2)
                                       [intersection0, intersection1]))"

text \<open>
  The body of the outer loop (lines 136-335) for the first track \<open>tr1\<close> and the tracks
  \<open>rest\<close> after it in the map. \<open>None\<close>: the vertex of \<open>tr1\<close> is not in the map, and
  \<open>svtxVertex->size_tracks()\<close> dereferences a null pointer.
\<close>

definition track1_body :: "finder_env \<Rightarrow> track \<Rightarrow> track list \<Rightarrow> candidate list option" where
  "track1_body env tr1 rest =
     (case vertex_map env (trk_vertex_id tr1) of
        None \<Rightarrow> None
      | Some svtxVertex \<Rightarrow>
          Some
            (if vtx_size_tracks svtxVertex = 0 then []
             else if require_mvtx env \<and> \<not> hasSiliconSeed tr1 then []
             else
               let has_silicon_1 = (if hasSiliconSeed tr1 then 1 else 0)
               in if trk_quality tr1 > qual_cut env then []
                  else
                    let ntpc1 = int (length (trk_tpc_seed tr1))
                    in if ntpc1 < 20 then []
                       else
                         let dcas1 = get_dca env tr1 (stale_dca env tr1);
                             dca3dxy1 = fst dcas1;
                             dca3dz1 = snd dcas1
                         in if dbl_eq dca3dxy1 0 then []
                            else if dbl_lt (dbl_fabs dca3dxy1) (track_dcaxy_cut env) then []
                            else if dbl_lt (dbl_fabs dca3dz1) (track_dcaz_cut env) then []
                            else concat (map (pair_body env tr1 svtxVertex dcas1 has_silicon_1)
                                             rest)))"

text \<open>
  \<open>process_event\<close> (lines 128-339) over the tracks of the map in the order of their
  ids: the candidates emitted, in order, and whether the run ended in the null
  dereference (then the candidates are those emitted before it).
\<close>

fun process_event :: "finder_env \<Rightarrow> track list \<Rightarrow> candidate list \<times> bool" where
  "process_event env [] = ([], False)"
| "process_event env (tr1 # rest) =
     (case track1_body env tr1 rest of
        None \<Rightarrow> ([], True)
      | Some emitted \<Rightarrow>
          (case process_event env rest of
             (later, crashed) \<Rightarrow> (emitted @ later, crashed)))"

section \<open>An event of three tracks\<close>

text \<open>
  Data on which the functions are evaluated below: a vertex at (0, 0, 1/2) with two
  tracks, a circle fit that returns radius 5 about the mean x of the clusters, and a
  propagation that puts track 1 at (0,4,0) with momentum (1,0,0) and the other tracks at
  (0,4,1) with momentum (3,4,0).
\<close>

definition example_env :: finder_env where
  "example_env =
     \<lparr>Verbosity = 0,
      vertex_map = (\<lambda>vid. if vid = 0 then Some \<lparr>vtx_size_tracks = 2, vtx_pos = Vec3 0 0 (1 / 2)\<rparr>
                           else None),
      require_mvtx = False,
      qual_cut = 10,
      track_dcaxy_cut = 1 / 10,
      track_dcaz_cut = 1 / 10,
      max_intersection_radius = 10,
      projected_track_z_cut = 2,
      two_track_dcacut = 3 / 2,
      min_path_cut = 1,
      circle_fit_by_taubin = (\<lambda>gs. (5, sum_list (map vx gs) / real (length gs), 0)),
      line_fit = (\<lambda>gs. (0, 0)),
      propagate_to_cylinder = (\<lambda>tr R. if trk_id tr = 1 then Some (Vec3 0 4 0, Vec3 1 0 0)
                                      else Some (Vec3 0 4 1, Vec3 3 4 0)),
      stale_dca = (\<lambda>tr. (NaN, NaN)),
      stale_intersection = (\<lambda>tr1 tr2. ((NaN, NaN), (NaN, NaN)))\<rparr>"

definition example_track1 :: track where
  "example_track1 =
     \<lparr>trk_id = 1, trk_vertex_id = 0, trk_quality = 1, trk_charge = 1,
      trk_pos = Vec3 1 0 1, trk_mom = Vec3 0 1 0, trk_silicon_seed = True,
      trk_tpc_seed = replicate 20 (tpcId, Some (Vec3 (- 3) 0 0))\<rparr>"



definition example_track3 :: track where
  "example_track3 =
     \<lparr>trk_id = 3, trk_vertex_id = 0, trk_quality = 2, trk_charge = - 1,
      trk_pos = Vec3 (- 1) 0 0, trk_mom = Vec3 0 1 0, trk_silicon_seed = False,
      trk_tpc_seed = replicate 20 (tpcId, Some (Vec3 7.1 0 0))\<rparr>"




section \<open>SecondaryVertexFinder: the two line routines in double precision\<close>

text \<open>
  Whether \<open>dcaTwoLines\<close> and \<open>findPcaTwoLines\<close> take the branch of the sentinel depends on
  a test for equality with zero of a value computed in \<open>double\<close>. For that the two routines
  are embedded a second time, operation by operation in double precision, with the values
  a division by zero creates. A \<open>double\<close> is a finite real, an infinity or the
  not-a-number; the result of an operation on finite operands is the exact result rounded
  by \<open>to_double\<close>. Not modelled: overflow and underflow, the sign of a zero (it only decides
  the sign of an infinite quotient, in runs whose results are not-a-number whichever the
  sign), and a compiler that fuses a product and a sum into one rounding.
\<close>

datatype ieee = Number real | PlusInf | MinusInf | NotANumber

fun d_neg :: "ieee \<Rightarrow> ieee" where
  "d_neg (Number a) = Number (- a)"
| "d_neg PlusInf = MinusInf"
| "d_neg MinusInf = PlusInf"
| "d_neg NotANumber = NotANumber"

fun d_add :: "ieee \<Rightarrow> ieee \<Rightarrow> ieee" where
  "d_add (Number a) (Number b) = Number (to_double (a + b))"
| "d_add NotANumber y = NotANumber"
| "d_add x NotANumber = NotANumber"
| "d_add PlusInf MinusInf = NotANumber"
| "d_add MinusInf PlusInf = NotANumber"
| "d_add PlusInf y = PlusInf"
| "d_add MinusInf y = MinusInf"
| "d_add x PlusInf = PlusInf"
| "d_add x MinusInf = MinusInf"

definition d_sub :: "ieee \<Rightarrow> ieee \<Rightarrow> ieee" where
  "d_sub x y = d_add x (d_neg y)"

text \<open>The product of an infinity, negative or not, with a second factor.\<close>

fun inf_times :: "bool \<Rightarrow> ieee \<Rightarrow> ieee" where
  "inf_times neg (Number b) =
     (if b = 0 then NotANumber else if neg = (b < 0) then PlusInf else MinusInf)"
| "inf_times neg PlusInf = (if neg then MinusInf else PlusInf)"
| "inf_times neg MinusInf = (if neg then PlusInf else MinusInf)"
| "inf_times neg NotANumber = NotANumber"

fun d_mul :: "ieee \<Rightarrow> ieee \<Rightarrow> ieee" where
  "d_mul (Number a) (Number b) = Number (to_double (a * b))"
| "d_mul PlusInf y = inf_times False y"
| "d_mul MinusInf y = inf_times True y"
| "d_mul NotANumber y = NotANumber"
| "d_mul x PlusInf = inf_times False x"
| "d_mul x MinusInf = inf_times True x"
| "d_mul x NotANumber = NotANumber"

fun d_divide :: "ieee \<Rightarrow> ieee \<Rightarrow> ieee" where
  "d_divide (Number a) (Number b) =
     (if b \<noteq> 0 then Number (to_double (a / b))
      else if a = 0 then NotANumber else if 0 < a then PlusInf else MinusInf)"
| "d_divide (Number a) PlusInf = Number 0"
| "d_divide (Number a) MinusInf = Number 0"
| "d_divide PlusInf (Number b) = (if b < 0 then MinusInf else PlusInf)"
| "d_divide MinusInf (Number b) = (if b < 0 then PlusInf else MinusInf)"
| "d_divide x y = NotANumber"

fun d_sqrt :: "ieee \<Rightarrow> ieee" where
  "d_sqrt (Number a) = (if 0 \<le> a then Number (to_double (sqrt a)) else NotANumber)"
| "d_sqrt PlusInf = PlusInf"
| "d_sqrt x = NotANumber"

fun d_nonzero :: "ieee \<Rightarrow> bool" where
  "d_nonzero (Number a) = (a \<noteq> 0)"
| "d_nonzero x = True"

text \<open>
  \<open>Eigen::Vector3d\<close> with components of this kind, and the operations of Eigen the two
  routines use. Eigen is not among the sources: the cross product is taken as the three
  differences of two products, and the sum of three terms of a dot product and of a
  squared norm as added from left to right.
\<close>

datatype ivec3 = IVec3 (ix: ieee) (iy: ieee) (iz: ieee)

definition of_vec3 :: "vec3 \<Rightarrow> ivec3" where
  "of_vec3 v = IVec3 (Number (vx v)) (Number (vy v)) (Number (vz v))"

definition i_dot :: "ivec3 \<Rightarrow> ivec3 \<Rightarrow> ieee" where
  "i_dot a b = d_add (d_add (d_mul (ix a) (ix b)) (d_mul (iy a) (iy b))) (d_mul (iz a) (iz b))"

definition i_norm :: "ivec3 \<Rightarrow> ieee" where
  "i_norm a = d_sqrt (i_dot a a)"

definition i_cross :: "ivec3 \<Rightarrow> ivec3 \<Rightarrow> ivec3" where
  "i_cross a b = IVec3 (d_sub (d_mul (iy a) (iz b)) (d_mul (iz a) (iy b)))
                       (d_sub (d_mul (iz a) (ix b)) (d_mul (ix a) (iz b)))
                       (d_sub (d_mul (ix a) (iy b)) (d_mul (iy a) (ix b)))"

definition i_vsub :: "ivec3 \<Rightarrow> ivec3 \<Rightarrow> ivec3" where
  "i_vsub a b = IVec3 (d_sub (ix a) (ix b)) (d_sub (iy a) (iy b)) (d_sub (iz a) (iz b))"

definition i_vadd :: "ivec3 \<Rightarrow> ivec3 \<Rightarrow> ivec3" where
  "i_vadd a b = IVec3 (d_add (ix a) (ix b)) (d_add (iy a) (iy b)) (d_add (iz a) (iz b))"

definition i_smul :: "ieee \<Rightarrow> ivec3 \<Rightarrow> ivec3" where
  "i_smul c a = IVec3 (d_mul c (ix a)) (d_mul c (iy a)) (d_mul c (iz a))"

text \<open>
  The result of a call, and the divisions the call has performed: every division of the two
  routines is made by \<open>divide_by\<close>, which appends the name of its divisor to the list it is
  handed.
\<close>

record lines_result_double =
  dca_d :: ieee
  PCA1_d :: ivec3
  PCA2_d :: ivec3
  divisions_d :: "division list"

definition divide_by :: "division \<Rightarrow> ieee \<Rightarrow> ieee \<Rightarrow> division list \<Rightarrow> ieee \<times> division list" where
  "divide_by divisor x y performed = (d_divide x y, performed @ [divisor])"

text \<open>\<open>dcaTwoLines\<close> (lines 997-1027).\<close>

definition dcaTwoLines_double ::
  "ivec3 \<Rightarrow> ivec3 \<Rightarrow> ivec3 \<Rightarrow> ivec3 \<Rightarrow> ivec3 \<Rightarrow> ivec3 \<Rightarrow> lines_result_double" where
  "dcaTwoLines_double a1 b1 a2 b2 PCA1_in PCA2_in =
     (let bcrossb = i_cross b1 b2;
          mag_bcrossb = i_norm bcrossb;
          aminusa = i_vsub a2 a1
      in if d_nonzero mag_bcrossb then
           (let (dca_v, performed) =
                  divide_by By_mag_bcrossb (i_dot bcrossb aminusa) mag_bcrossb [];
                (X_quotient, performed) =
                  divide_by By_b2_dot_b1 (d_mul (i_dot b1 b1) (i_dot b2 b2)) (i_dot b2 b1) performed;
                X = d_sub (i_dot b1 b2) X_quotient;
                (Y_quotient, performed) =
                  divide_by By_b2_dot_b1
                    (d_mul (d_sub (i_dot a2 b1) (i_dot a1 b1)) (i_dot b2 b2)) (i_dot b2 b1) performed;
                Y = d_sub (d_sub (i_dot a2 b2) (i_dot a1 b2)) Y_quotient;
                (c, performed) = divide_by By_X Y X performed;
                (F, performed) = divide_by By_b2_dot_b1 (i_dot b1 b1) (i_dot b2 b1) performed;
                (G, performed) =
                  divide_by By_b2_dot_b1 (d_neg (d_sub (i_dot a2 b1) (i_dot a1 b1))) (i_dot b2 b1)
                    performed;
                d = d_add (d_mul c F) G
            in \<lparr>dca_d = dca_v,
                PCA1_d = i_vadd a1 (i_smul c b1),
                PCA2_d = i_vadd a2 (i_smul d b2),
                divisions_d = performed\<rparr>)
         else \<lparr>dca_d = Number 999, PCA1_d = PCA1_in, PCA2_d = PCA2_in, divisions_d = []\<rparr>)"

text \<open>\<open>findPcaTwoLines\<close> (lines 662-707).\<close>

definition findPcaTwoLines_double ::
  "ivec3 \<Rightarrow> ivec3 \<Rightarrow> ivec3 \<Rightarrow> ivec3 \<Rightarrow> ivec3 \<Rightarrow> ivec3 \<Rightarrow> lines_result_double" where
  "findPcaTwoLines_double pos1 mom1 pos2 mom2 PCA1_in PCA2_in =
     (let a1 = IVec3 (ix pos1) (iy pos1) (iz pos1);
          (b1x, performed) = divide_by By_mom1_norm (ix mom1) (i_norm mom1) [];
          (b1y, performed) = divide_by By_mom1_norm (iy mom1) (i_norm mom1) performed;
          (b1z, performed) = divide_by By_mom1_norm (iz mom1) (i_norm mom1) performed;
          b1 = IVec3 b1x b1y b1z;
          a2 = IVec3 (ix pos2) (iy pos2) (iz pos2);
          (b2x, performed) = divide_by By_mom2_norm (ix mom2) (i_norm mom2) performed;
          (b2y, performed) = divide_by By_mom2_norm (iy mom2) (i_norm mom2) performed;
          (b2z, performed) = divide_by By_mom2_norm (iz mom2) (i_norm mom2) performed;
          b2 = IVec3 b2x b2y b2z;
          bcrossb = i_cross b1 b2;
          mag_bcrossb = i_norm bcrossb;
          aminusa = i_vsub a2 a1
      in if d_nonzero mag_bcrossb then
           (let (dca_v, performed) =
                  divide_by By_mag_bcrossb (i_dot bcrossb aminusa) mag_bcrossb performed;
                (X_quotient, performed) =
                  divide_by By_b2_dot_b1 (d_mul (i_dot b1 b1) (i_dot b2 b2)) (i_dot b2 b1) performed;
                X = d_sub (i_dot b1 b2) X_quotient;
                (Y_quotient, performed) =
                  divide_by By_b2_dot_b1
                    (d_mul (d_sub (i_dot a2 b1) (i_dot a1 b1)) (i_dot b2 b2)) (i_dot b2 b1) performed;
                Y = d_sub (d_sub (i_dot a2 b2) (i_dot a1 b2)) Y_quotient;
                (c, performed) = divide_by By_X Y X performed;
                (F, performed) = divide_by By_b2_dot_b1 (i_dot b1 b1) (i_dot b2 b1) performed;
                (G, performed) =
                  divide_by By_b2_dot_b1 (d_neg (d_sub (i_dot a2 b1) (i_dot a1 b1))) (i_dot b2 b1)
                    performed;
                d = d_add (d_mul c F) G
            in \<lparr>dca_d = dca_v,
                PCA1_d = i_vadd a1 (i_smul c b1),
                PCA2_d = i_vadd a2 (i_smul d b2),
                divisions_d = performed\<rparr>)
         else \<lparr>dca_d = Number 999, PCA1_d = PCA1_in, PCA2_d = PCA2_in,
               divisions_d = performed\<rparr>)"

text \<open>The direction \<open>findPcaTwoLines\<close> computes from a momentum.\<close>

definition double_unit :: "ivec3 \<Rightarrow> ivec3" where
  "double_unit mom = IVec3 (d_divide (ix mom) (i_norm mom)) (d_divide (iy mom) (i_norm mom))
                           (d_divide (iz mom) (i_norm mom))"

section \<open>Properties of the rounding\<close>

lemma round_even_spec:
  "\<bar>y - of_int (round_even y)\<bar> < 1 / 2 \<or>
   (\<bar>y - of_int (round_even y)\<bar> = 1 / 2 \<and> even (round_even y))"
proof -
  define f where "f = \<lfloor>y\<rfloor>"
  define d where "d = y - of_int f"
  have b: "0 \<le> d" "d < 1"
    unfolding d_def f_def by linarith+
  have r: "round_even y = (if d < 1 / 2 then f else if d > 1 / 2 then f + 1
                           else if even f then f else f + 1)"
    unfolding round_even_def d_def f_def by simp
  have yd: "y - of_int f = d" "y - of_int (f + 1) = d - 1"
    unfolding d_def by simp_all
  consider "d < 1 / 2" | "d > 1 / 2" | "d = 1 / 2" "even f" | "d = 1 / 2" "odd f"
    by fastforce
  then show ?thesis
  proof cases
    case 1
    then have "round_even y = f" using r by simp
    then show ?thesis using yd b 1 by simp
  next
    case 2
    then have "round_even y = f + 1" using r by simp
    then show ?thesis using yd(2) b 2 by (simp only: abs_if) simp
  next
    case 3
    then have "round_even y = f" using r by simp
    then show ?thesis using yd b 3 by simp
  next
    case 4
    then have "round_even y = f + 1" using r by simp
    then show ?thesis using yd(2) b 4 by (simp only: abs_if) simp
  qed
qed

lemma round_even_unique:
  assumes "\<bar>y - of_int m\<bar> < 1 / 2 \<or> (\<bar>y - of_int m\<bar> = 1 / 2 \<and> even m)"
  shows "round_even y = m"
proof -
  let ?R = "round_even y"
  note s = round_even_spec [of y]
  have "\<bar>real_of_int ?R - real_of_int m\<bar> \<le> 1"
    using s assms by linarith
  then have d: "\<bar>?R - m\<bar> \<le> 1"
    by linarith
  show ?thesis
  proof (rule ccontr)
    assume ne: "?R \<noteq> m"
    with d have c: "?R = m + 1 \<or> ?R = m - 1"
      by linarith
    then have par: "even ?R \<longleftrightarrow> odd m"
      by auto
    from c s assms have "\<bar>y - of_int m\<bar> = 1 / 2 \<and> \<bar>y - of_int ?R\<bar> = 1 / 2"
      by (auto simp: abs_if split: if_splits)
    with s assms par show False
      by auto
  qed
qed

lemma round_even_of_int [simp]: "round_even (of_int n) = n"
  by (rule round_even_unique) simp

lemma round_even_minus: "round_even (- y) = - round_even y"
proof (rule round_even_unique)
  have "\<bar>- y - real_of_int (- round_even y)\<bar> = \<bar>y - real_of_int (round_even y)\<bar>"
    by simp
  then show "\<bar>- y - real_of_int (- round_even y)\<bar> < 1 / 2 \<or>
        \<bar>- y - real_of_int (- round_even y)\<bar> = 1 / 2 \<and> even (- round_even y)"
    using round_even_spec [of y] by auto
qed

lemma round_even_mono:
  assumes "y1 \<le> y2"
  shows "round_even y1 \<le> round_even y2"
proof (rule ccontr)
  assume "\<not> round_even y1 \<le> round_even y2"
  then have g: "round_even y2 + 1 \<le> round_even y1"
    by simp
  then have gr: "real_of_int (round_even y2) + 1 \<le> real_of_int (round_even y1)"
    by linarith
  note s1 = round_even_spec [of y1] and s2 = round_even_spec [of y2]
  have e1: "\<bar>y1 - of_int (round_even y1)\<bar> = 1 / 2" and e2: "\<bar>y2 - of_int (round_even y2)\<bar> = 1 / 2"
    and eq: "real_of_int (round_even y1) = real_of_int (round_even y2) + 1"
    using s1 s2 gr assms by linarith+
  from eq have "round_even y1 = round_even y2 + 1"
    by linarith
  moreover have "even (round_even y1)" "even (round_even y2)"
    using s1 s2 e1 e2 by auto
  ultimately show False
    by auto
qed

lemma exponent_bounds:
  assumes "x \<noteq> 0"
  shows "2 powi \<lfloor>log 2 \<bar>x\<bar>\<rfloor> \<le> \<bar>x\<bar>" and "\<bar>x\<bar> < 2 powi (\<lfloor>log 2 \<bar>x\<bar>\<rfloor> + 1)"
proof -
  have p: "0 < \<bar>x\<bar>" using assms by simp
  have "(2::real) powr real_of_int \<lfloor>log 2 \<bar>x\<bar>\<rfloor> \<le> \<bar>x\<bar> \<and>
        \<bar>x\<bar> < 2 powr (real_of_int \<lfloor>log 2 \<bar>x\<bar>\<rfloor> + 1)"
    using floor_log_eq_powr_iff [OF p, of 2 "\<lfloor>log 2 \<bar>x\<bar>\<rfloor>"] by simp
  moreover have "real_of_int \<lfloor>log 2 \<bar>x\<bar>\<rfloor> + 1 = real_of_int (\<lfloor>log 2 \<bar>x\<bar>\<rfloor> + 1)"
    by simp
  ultimately show "2 powi \<lfloor>log 2 \<bar>x\<bar>\<rfloor> \<le> \<bar>x\<bar>" and "\<bar>x\<bar> < 2 powi (\<lfloor>log 2 \<bar>x\<bar>\<rfloor> + 1)"
    by (simp_all only: powr_real_of_int' [of 2, simplified])
qed

lemma exponent_unique:
  assumes "2 powi k \<le> \<bar>x\<bar>" and "\<bar>x\<bar> < 2 powi (k + 1)"
  shows "\<lfloor>log 2 \<bar>x\<bar>\<rfloor> = k"
proof -
  have p: "0 < \<bar>x\<bar>"
    using assms(1) zero_less_power_int [of "2::real" k] by linarith
  have "(2::real) powr real_of_int k \<le> \<bar>x\<bar> \<and> \<bar>x\<bar> < 2 powr (real_of_int k + 1)"
    using assms powr_real_of_int' [of "2::real" k] powr_real_of_int' [of "2::real" "k + 1"]
    by simp
  then show ?thesis
    using floor_log_eq_powr_iff [OF p, of 2 k] by simp
qed

lemma ulp_exp_eq:
  assumes "2 powi (k + int p - 1) \<le> \<bar>x\<bar>" and "\<bar>x\<bar> < 2 powi (k + int p)"
  shows "ulp_exp p x = k"
proof -
  have "\<lfloor>log 2 \<bar>x\<bar>\<rfloor> = k + int p - 1"
    using assms by (intro exponent_unique) simp_all
  then show ?thesis
    by (simp add: ulp_exp_def)
qed

lemma fl_cert:
  assumes "2 powi (k + int p - 1) \<le> \<bar>x\<bar>" and "\<bar>x\<bar> < 2 powi (k + int p)"
    and "\<bar>x / 2 powi k - of_int m\<bar> < 1 / 2"
  shows "fl p x = of_int m * 2 powi k"
proof -
  have "(0::real) < 2 powi (k + int p - 1)"
    by simp
  with assms(1) have nz: "x \<noteq> 0"
    by linarith
  have "round_even (x / 2 powi k) = m"
    using assms(3) by (intro round_even_unique) simp
  then show ?thesis
    using nz by (simp add: fl_def ulp_exp_eq [OF assms(1,2)])
qed

lemma fl_zero [simp]: "fl p 0 = 0"
  by (simp add: fl_def)

lemma ulp_exp_minus [simp]: "ulp_exp p (- x) = ulp_exp p x"
  by (simp add: ulp_exp_def)

lemma fl_minus: "fl p (- x) = - fl p x"
  by (simp add: fl_def round_even_minus)

lemma scaled_bounds:
  assumes "0 < x" and "1 \<le> p"
  shows "2 ^ (p - 1) \<le> x / 2 powi ulp_exp p x" and "x / 2 powi ulp_exp p x < 2 ^ p"
proof -
  define e where "e = \<lfloor>log 2 \<bar>x\<bar>\<rfloor>"
  define k where "k = ulp_exp p x"
  have k: "k = e - int p + 1"
    by (simp add: k_def e_def ulp_exp_def)
  have u: "(0::real) < 2 powi k"
    by simp
  have b: "2 powi e \<le> x" "x < 2 powi (e + 1)"
    using exponent_bounds [of x] assms(1) by (simp_all add: e_def)
  have "e = int (p - 1) + k"
    using k assms(2) by simp
  then have "(2::real) powi e = 2 powi int (p - 1) * 2 powi k"
    by (simp only: power_int_add [of "2::real", simplified])
  then have lo: "(2::real) powi e = 2 ^ (p - 1) * 2 powi k"
    by simp
  have "e + 1 = int p + k"
    using k by simp
  then have "(2::real) powi (e + 1) = 2 powi int p * 2 powi k"
    by (simp only: power_int_add [of "2::real", simplified])
  then have hi: "(2::real) powi (e + 1) = 2 ^ p * 2 powi k"
    by simp
  show "2 ^ (p - 1) \<le> x / 2 powi ulp_exp p x"
    using b(1) u unfolding lo k_def [symmetric] by (simp add: pos_le_divide_eq)
  show "x / 2 powi ulp_exp p x < 2 ^ p"
    using b(2) u unfolding hi k_def [symmetric] by (simp add: pos_divide_less_eq)
qed

lemma fl_bounds_pos:
  assumes "0 < x" and "1 \<le> p"
  shows "2 powi \<lfloor>log 2 \<bar>x\<bar>\<rfloor> \<le> fl p x" and "fl p x \<le> 2 powi (\<lfloor>log 2 \<bar>x\<bar>\<rfloor> + 1)"
proof -
  define e where "e = \<lfloor>log 2 \<bar>x\<bar>\<rfloor>"
  define k where "k = ulp_exp p x"
  define M where "M = round_even (x / 2 powi k)"
  have k: "k = e - int p + 1"
    by (simp add: k_def e_def ulp_exp_def)
  have u: "(0::real) < 2 powi k"
    by simp
  have f: "fl p x = of_int M * 2 powi k"
    using assms(1) by (simp add: fl_def M_def k_def)
  have sb: "real_of_int (2 ^ (p - 1)) \<le> x / 2 powi k" "x / 2 powi k \<le> real_of_int (2 ^ p)"
    using scaled_bounds [OF assms] by (simp_all add: k_def)
  have "round_even (real_of_int (2 ^ (p - 1))) \<le> M" "M \<le> round_even (real_of_int (2 ^ p))"
    unfolding M_def by (rule round_even_mono, rule sb)+
  then have m: "2 ^ (p - 1) \<le> M" "M \<le> 2 ^ p"
    by (simp_all only: round_even_of_int)
  then have mr: "(2::real) ^ (p - 1) \<le> of_int M" "real_of_int M \<le> 2 ^ p"
    by (metis of_int_le_iff of_int_numeral of_int_power)+
  have "e = int (p - 1) + k"
    using k assms(2) by simp
  then have "(2::real) powi e = 2 powi int (p - 1) * 2 powi k"
    by (simp only: power_int_add [of "2::real", simplified])
  then have lo: "(2::real) powi e = 2 ^ (p - 1) * 2 powi k"
    by simp
  have "e + 1 = int p + k"
    using k by simp
  then have "(2::real) powi (e + 1) = 2 powi int p * 2 powi k"
    by (simp only: power_int_add [of "2::real", simplified])
  then have hi: "(2::real) powi (e + 1) = 2 ^ p * 2 powi k"
    by simp
  show "2 powi \<lfloor>log 2 \<bar>x\<bar>\<rfloor> \<le> fl p x"
    unfolding e_def [symmetric] lo f using mr(1) u by (simp add: mult_right_mono)
  show "fl p x \<le> 2 powi (\<lfloor>log 2 \<bar>x\<bar>\<rfloor> + 1)"
    unfolding e_def [symmetric] hi f using mr(2) u by (simp add: mult_right_mono)
qed

lemma fl_pos:
  assumes "0 < x" and "1 \<le> p"
  shows "0 < fl p x"
proof -
  have "(0::real) < 2 powi \<lfloor>log 2 \<bar>x\<bar>\<rfloor>"
    by simp
  with fl_bounds_pos(1) [OF assms] show ?thesis
    by linarith
qed

lemma fl_mono_pos:
  assumes "0 < x" and "x \<le> y" and "1 \<le> p"
  shows "fl p x \<le> fl p y"
proof -
  have y: "0 < y" using assms by linarith
  define ex where "ex = \<lfloor>log 2 \<bar>x\<bar>\<rfloor>"
  define ey where "ey = \<lfloor>log 2 \<bar>y\<bar>\<rfloor>"
  have "log 2 x \<le> log 2 y"
    using assms(1,2) by simp
  then have le: "ex \<le> ey"
    unfolding ex_def ey_def using assms(1) y by (simp add: floor_mono)
  show ?thesis
  proof (cases "ex = ey")
    case True
    then have k: "ulp_exp p x = ulp_exp p y"
      by (simp add: ulp_exp_def ex_def ey_def)
    have "x / 2 powi ulp_exp p y \<le> y / 2 powi ulp_exp p y"
      using assms(2) by (simp add: divide_right_mono)
    then have "round_even (x / 2 powi ulp_exp p y) \<le> round_even (y / 2 powi ulp_exp p y)"
      by (rule round_even_mono)
    then have "real_of_int (round_even (x / 2 powi ulp_exp p y)) * 2 powi ulp_exp p y
                 \<le> real_of_int (round_even (y / 2 powi ulp_exp p y)) * 2 powi ulp_exp p y"
      by (simp add: mult_right_mono)
    then show ?thesis
      using assms(1) y by (simp add: fl_def k)
  next
    case False
    with le have "ex + 1 \<le> ey" by simp
    then have "(2::real) powi (ex + 1) \<le> 2 powi ey"
      by (intro power_int_increasing) simp_all
    moreover have "fl p x \<le> 2 powi (ex + 1)"
      using fl_bounds_pos(2) [OF assms(1,3)] by (simp add: ex_def)
    moreover have "2 powi ey \<le> fl p y"
      using fl_bounds_pos(1) [OF y assms(3)] by (simp add: ey_def)
    ultimately show ?thesis by linarith
  qed
qed

lemma fl_mono:
  assumes "x \<le> y" and "1 \<le> p"
  shows "fl p x \<le> fl p y"
proof -
  consider "0 < x" | "x = 0" "y = 0" | "x = 0" "0 < y" | "x < 0" "0 \<le> y" | "x < 0" "y < 0"
    using assms(1) by linarith
  then show ?thesis
  proof cases
    case 1
    then show ?thesis using fl_mono_pos assms by simp
  next
    case 2
    then show ?thesis by simp
  next
    case 3
    then show ?thesis using fl_pos [of y p] assms(2) by simp
  next
    case 4
    have "0 < fl p (- x)"
      using 4(1) assms(2) by (intro fl_pos) simp_all
    then have a: "fl p x < 0"
      by (simp add: fl_minus)
    have "0 \<le> fl p y"
      using 4(2) fl_pos [of y p] assms(2) by (cases "y = 0") (simp_all add: less_eq_real_def)
    with a show ?thesis by linarith
  next
    case 5
    then have "fl p (- y) \<le> fl p (- x)"
      using assms by (intro fl_mono_pos) simp_all
    then show ?thesis
      by (simp add: fl_minus)
  qed
qed

lemma fl_exact:
  assumes "x = of_int m * 2 powi k" and "\<bar>m\<bar> < 2 ^ p"
  shows "fl p x = x"
proof (cases "x = 0")
  case True
  then show ?thesis by simp
next
  case False
  define e where "e = \<lfloor>log 2 \<bar>x\<bar>\<rfloor>"
  define k' where "k' = ulp_exp p x"
  have k': "k' = e - int p + 1"
    by (simp add: k'_def e_def ulp_exp_def)
  have "\<bar>real_of_int m\<bar> < 2 ^ p"
    using assms(2) by (metis of_int_abs of_int_less_iff of_int_numeral of_int_power)
  then have "\<bar>x\<bar> < 2 ^ p * 2 powi k"
    unfolding assms(1) by (simp add: abs_mult)
  also have "\<dots> = 2 powi (int p + k)"
    by (simp add: power_int_add)
  finally have "2 powi e < (2::real) powi (int p + k)"
    using exponent_bounds(1) [OF False] unfolding e_def by linarith
  have "e < int p + k"
  proof (rule ccontr)
    assume "\<not> e < int p + k"
    then have "(2::real) powi (int p + k) \<le> 2 powi e"
      by (intro power_int_increasing) simp_all
    with \<open>2 powi e < (2::real) powi (int p + k)\<close> show False
      by linarith
  qed
  then have le: "k' \<le> k"
    using k' by simp
  define n where "n = nat (k - k')"
  have kk: "k = int n + k'"
    using le by (simp add: n_def)
  have "(2::real) powi k = 2 powi int n * 2 powi k'"
    unfolding kk by (simp only: power_int_add [of "2::real", simplified])
  then have s: "(2::real) powi k = 2 ^ n * 2 powi k'"
    by simp
  have "x / 2 powi k' = of_int (m * 2 ^ n)"
    unfolding assms(1) s by simp
  then have "round_even (x / 2 powi k') = m * 2 ^ n"
    by (simp only: round_even_of_int)
  then have "fl p x = of_int (m * 2 ^ n) * 2 powi k'"
    using False by (simp add: fl_def k'_def)
  also have "\<dots> = x"
    unfolding assms(1) s by simp
  finally show ?thesis .
qed

subsection \<open>Bounds on \<open>pi\<close>\<close>

lemma arctan_series_bounds:
  assumes "0 \<le> x" and "x \<le> 1"
  shows "(\<Sum>i<2 * n. (- 1) ^ i * (1 / real (i * 2 + 1) * x ^ (i * 2 + 1))) \<le> arctan x"
    and "arctan x \<le> (\<Sum>i<2 * n + 1. (- 1) ^ i * (1 / real (i * 2 + 1) * x ^ (i * 2 + 1)))"
proof -
  define a where "a = (\<lambda>i. 1 / real (i * 2 + 1) * x ^ (i * 2 + 1))"
  have ax: "\<bar>x\<bar> \<le> 1"
    using assms by simp
  have z: "a \<longlonglongrightarrow> 0"
    unfolding a_def by (rule zeroseq_arctan_series [OF ax])
  have pos: "\<And>i. 0 \<le> a i"
    unfolding a_def using assms(1) by simp
  have mono: "\<And>i. a (Suc i) \<le> a i"
  proof -
    fix i
    have p: "x ^ (Suc i * 2 + 1) \<le> x ^ (i * 2 + 1)"
      using assms by (intro power_decreasing) simp_all
    have q: "1 / real (Suc i * 2 + 1) \<le> 1 / real (i * 2 + 1)"
      by (simp add: field_simps)
    show "a (Suc i) \<le> a i"
      unfolding a_def using p q assms(1) by (intro mult_mono) simp_all
  qed
  have s: "arctan x = (\<Sum>i. (- 1) ^ i * a i)"
    unfolding a_def by (rule arctan_series [OF ax])
  show "(\<Sum>i<2 * n. (- 1) ^ i * (1 / real (i * 2 + 1) * x ^ (i * 2 + 1))) \<le> arctan x"
    using summable_Leibniz'(2) [OF z pos mono, of n] unfolding s a_def .
  show "arctan x \<le> (\<Sum>i<2 * n + 1. (- 1) ^ i * (1 / real (i * 2 + 1) * x ^ (i * 2 + 1)))"
    using summable_Leibniz'(4) [OF z pos mono, of n] unfolding s a_def .
qed

lemma arctan_fifth_bounds:
  "(1973955597 / 10000000000 :: real) \<le> arctan (1 / 5)"
  "arctan (1 / 5) \<le> (1973955599 / 10000000000 :: real)"
proof -
  have "(\<Sum>i<2 * 3. (- 1) ^ i * (1 / real (i * 2 + 1) * (1 / 5 :: real) ^ (i * 2 + 1)))
          \<le> arctan (1 / 5)"
    by (rule arctan_series_bounds) simp_all
  then show "(1973955597 / 10000000000 :: real) \<le> arctan (1 / 5)"
    by (simp add: eval_nat_numeral)
  have "arctan (1 / 5)
          \<le> (\<Sum>i<2 * 3 + 1. (- 1) ^ i * (1 / real (i * 2 + 1) * (1 / 5 :: real) ^ (i * 2 + 1)))"
    by (rule arctan_series_bounds) simp_all
  then show "arctan (1 / 5) \<le> (1973955599 / 10000000000 :: real)"
    by (simp add: eval_nat_numeral)
qed

lemma arctan_239th_bounds:
  "(41840760 / 10000000000 :: real) \<le> arctan (1 / 239)"
  "arctan (1 / 239) \<le> (41840761 / 10000000000 :: real)"
proof -
  have "(\<Sum>i<2 * 1. (- 1) ^ i * (1 / real (i * 2 + 1) * (1 / 239 :: real) ^ (i * 2 + 1)))
          \<le> arctan (1 / 239)"
    by (rule arctan_series_bounds) simp_all
  then show "(41840760 / 10000000000 :: real) \<le> arctan (1 / 239)"
    by (simp add: eval_nat_numeral)
  have "arctan (1 / 239)
          \<le> (\<Sum>i<2 * 1 + 1. (- 1) ^ i * (1 / real (i * 2 + 1) * (1 / 239 :: real) ^ (i * 2 + 1)))"
    by (rule arctan_series_bounds) simp_all
  then show "arctan (1 / 239) \<le> (41840761 / 10000000000 :: real)"
    by (simp add: eval_nat_numeral)
qed

lemma pi_bounds: "314159265 / 100000000 < pi" "pi < 314159266 / 100000000"
proof -
  have "pi = 16 * arctan (1 / 5) - 4 * arctan (1 / 239)"
    using machin by simp
  then show "314159265 / 100000000 < pi" "pi < 314159266 / 100000000"
    using arctan_fifth_bounds arctan_239th_bounds by linarith+
qed

subsection \<open>Conversion to float\<close>

lemma to_float_mono: "x \<le> y \<Longrightarrow> to_float x \<le> to_float y"
  by (simp add: to_float_def fl_mono)

lemma to_float_zero [simp]: "to_float 0 = 0"
  by (simp add: to_float_def)

lemma to_float_minus: "to_float (- x) = - to_float x"
  by (simp add: to_float_def fl_minus)

lemma to_float_exact:
  assumes "x = of_int m * 2 powi k" and "\<bar>m\<bar> < 16777216"
  shows "to_float x = x"
  unfolding to_float_def using assms by (intro fl_exact [of x m k]) simp_all

lemma to_float_cert:
  assumes "2 powi (k + 23) \<le> \<bar>x\<bar>" and "\<bar>x\<bar> < 2 powi (k + 24)"
    and "\<bar>x / 2 powi k - of_int m\<bar> < 1 / 2"
  shows "to_float x = of_int m * 2 powi k"
proof -
  have a: "2 powi (k + int 24 - 1) \<le> \<bar>x\<bar>" "\<bar>x\<bar> < 2 powi (k + int 24)"
    using assms(1,2) by (simp_all add: add.commute)
  show ?thesis
    unfolding to_float_def by (rule fl_cert [OF a assms(3)])
qed

lemma to_float_cert_tie:
  assumes "2 powi (k + 23) \<le> \<bar>x\<bar>" and "\<bar>x\<bar> < 2 powi (k + 24)"
    and "\<bar>x / 2 powi k - of_int m\<bar> = 1 / 2" and "even m"
  shows "to_float x = of_int m * 2 powi k"
proof -
  have "(0::real) < 2 powi (k + 23)"
    by simp
  with assms(1) have nz: "x \<noteq> 0"
    by linarith
  have "round_even (x / 2 powi k) = m"
    using assms(3,4) by (intro round_even_unique) simp
  moreover have a: "2 powi (k + int 24 - 1) \<le> \<bar>x\<bar>" "\<bar>x\<bar> < 2 powi (k + int 24)"
    using assms(1,2) by (simp_all add: add.commute)
  have "ulp_exp 24 x = k"
    by (rule ulp_exp_eq [OF a])
  ultimately show ?thesis
    using nz by (simp add: to_float_def fl_def)
qed

lemma to_float_numerals [simp]:
  "to_float 20 = 20" "to_float 78 = 78" "to_float 58 = 58" "to_float 211 = 211"
  "to_float (211 / 2) = 211 / 2" "to_float 4 = 4" "to_float 8 = 8" "to_float 40 = 40"
  "to_float 1 = 1"
  by (rule to_float_exact [of _ 20 0], simp, simp)
     (rule to_float_exact [of _ 78 0], simp, simp,
      rule to_float_exact [of _ 58 0], simp, simp,
      rule to_float_exact [of _ 211 0], simp, simp,
      rule to_float_exact [of _ 211 "- 1"], simp, simp,
      rule to_float_exact [of _ 4 0], simp, simp,
      rule to_float_exact [of _ 8 0], simp, simp,
      rule to_float_exact [of _ 40 0], simp, simp,
      rule to_float_exact [of _ 1 0], simp, simp)

lemma to_float_2pi: "to_float (2 * pi) = 13176795 / 2097152"
proof -
  have "to_float (2 * pi) = of_int 13176795 * 2 powi (- 21)"
    using pi_bounds by (intro to_float_cert) (simp_all add: abs_if field_simps)
  then show ?thesis
    by simp
qed

lemma two_pi_below_float: "2 * pi < to_float (2 * pi)"
  unfolding to_float_2pi using pi_bounds by simp

section \<open>Properties\<close>

lemma square_eq_power2: "square x = x\<^sup>2"
  by (simp add: square_def power2_eq_square)


subsection \<open>delta_phi\<close>

lemma delta_phi_shift:
  "\<exists>k::int. delta_phi phi = phi + 2 * pi * real_of_int k"
proof (cases "phi \<ge> pi")
  case True
  then have "delta_phi phi = phi + 2 * pi * real_of_int (- 1)"
    by (simp add: delta_phi_def)
  then show ?thesis by blast
next
  case False
  show ?thesis
  proof (cases "phi < - pi")
    case True
    with False have "delta_phi phi = phi + 2 * pi * real_of_int 1"
      by (simp add: delta_phi_def)
    then show ?thesis by blast
  next
    case below: False
    with False have "delta_phi phi = phi + 2 * pi * real_of_int 0"
      by (simp add: delta_phi_def)
    then show ?thesis by blast
  qed
qed

text \<open>
  Claim C7, as stated: for every angle \<open>phi\<close> the value \<open>delta_phi phi\<close> lies in
  \<open>[-pi, pi)\<close>. The function shifts its argument by one turn at most, so the range
  fails for an angle of 13 radians: the result is \<open>13 - 2*pi\<close>, which is above \<open>pi\<close>.
\<close>

theorem delta_phi_counterexample:
  "\<not> (- pi \<le> delta_phi 13 \<and> delta_phi 13 < pi)"
  using pi_less_4 by (simp add: delta_phi_def)

text \<open>
  Claim C7, amended: \<open>delta_phi phi\<close> differs from \<open>phi\<close> by an integer multiple of
  \<open>2*pi\<close> for every \<open>phi\<close>, and lies in \<open>[-pi, pi)\<close> for every \<open>phi\<close> in
  \<open>[-3*pi, 3*pi)\<close>, which holds the difference of any two values of \<open>atan2\<close>.
\<close>

theorem delta_phi_range:
  "(\<exists>k::int. delta_phi phi = phi + 2 * pi * real_of_int k) \<and>
   (- 3 * pi \<le> phi \<and> phi < 3 * pi \<longrightarrow> - pi \<le> delta_phi phi \<and> delta_phi phi < pi)"
proof
  show "\<exists>k::int. delta_phi phi = phi + 2 * pi * real_of_int k"
    by (rule delta_phi_shift)
next
  show "- 3 * pi \<le> phi \<and> phi < 3 * pi \<longrightarrow> - pi \<le> delta_phi phi \<and> delta_phi phi < pi"
    by (auto simp: delta_phi_def)
qed

theorem delta_phi_range_witness:
  "- 3 * pi \<le> 4 \<and> (4::real) < 3 * pi \<and> - pi \<le> delta_phi 4 \<and> delta_phi 4 < pi \<and>
   delta_phi 4 = 4 - 2 * pi"
  using delta_phi_range [of 4] pi_ge_two pi_less_4 by (simp add: delta_phi_def)

subsection \<open>line_circle_intersection\<close>

lemma lci_negative_discriminant:
  fixes p d :: vec3 and radius :: real
  defines "A \<equiv> (vx d)\<^sup>2 + (vy d)\<^sup>2"
      and "B \<equiv> 2 * vx p * vx d + 2 * vy p * vy d"
      and "C \<equiv> (vx p)\<^sup>2 + (vy p)\<^sup>2 - radius\<^sup>2"
  assumes "B\<^sup>2 - 4 * A * C < 0"
  shows "line_circle_intersection p d radius = (Finite (- 1), Finite (- 1))"
  using assms by (simp add: line_circle_intersection_def square_eq_power2 Let_def)

lemma quad_root:
  fixes A B C :: real
  assumes "A \<noteq> 0" "0 \<le> B\<^sup>2 - 4 * A * C"
    and "s = sqrt (B\<^sup>2 - 4 * A * C) \<or> s = - sqrt (B\<^sup>2 - 4 * A * C)"
  shows "A * ((- B + s) / (2 * A))\<^sup>2 + B * ((- B + s) / (2 * A)) + C = 0"
proof -
  have s2: "s\<^sup>2 = B\<^sup>2 - 4 * A * C"
    using assms(2,3) by auto
  have "A * ((- B + s) / (2 * A))\<^sup>2 + B * ((- B + s) / (2 * A)) + C
        = ((- B + s)\<^sup>2 + 2 * B * (- B + s) + 4 * A * C) / (4 * A)"
    using assms(1) by (simp add: field_simps power2_eq_square)
  also have "(- B + s)\<^sup>2 + 2 * B * (- B + s) + 4 * A * C = s\<^sup>2 - (B\<^sup>2 - 4 * A * C)"
    by (simp add: power2_eq_square algebra_simps)
  finally show ?thesis
    using s2 by simp
qed

lemma on_circle_quadratic:
  fixes p d :: vec3 and radius t :: real
  shows "(vx p + t * vx d)\<^sup>2 + (vy p + t * vy d)\<^sup>2 - radius\<^sup>2
         = ((vx d)\<^sup>2 + (vy d)\<^sup>2) * t\<^sup>2 + (2 * vx p * vx d + 2 * vy p * vy d) * t
           + ((vx p)\<^sup>2 + (vy p)\<^sup>2 - radius\<^sup>2)"
  by (simp add: power2_eq_square algebra_simps)

lemma get_r_of_root:
  assumes "((vx d)\<^sup>2 + (vy d)\<^sup>2) * t\<^sup>2 + (2 * vx p * vx d + 2 * vy p * vy d) * t
           + ((vx p)\<^sup>2 + (vy p)\<^sup>2 - radius\<^sup>2) = 0"
  shows "get_r (vx p + t * vx d) (vy p + t * vy d) = \<bar>radius\<bar>"
proof -
  have "(vx p + t * vx d)\<^sup>2 + (vy p + t * vy d)\<^sup>2 = radius\<^sup>2"
    using on_circle_quadratic [of p t d radius] assms by simp
  then show ?thesis
    by (simp add: get_r_def square_eq_power2)
qed

text \<open>
  Claim C6, as stated: whenever the discriminant is not negative the function returns the
  two parameters at which the transverse point is at distance \<open>radius\<close> from the origin.
  For a line along the z axis through the origin and radius 1 the discriminant is 0, the
  function returns a pair of NaN, and no parameter at all puts the point on the circle.
\<close>

theorem line_circle_intersection_counterexample:
  "0 \<le> (2 * 0 * 0 + 2 * 0 * 0)\<^sup>2 - 4 * (0\<^sup>2 + 0\<^sup>2) * (0\<^sup>2 + 0\<^sup>2 - (1::real)\<^sup>2) \<and>
   line_circle_intersection (Vec3 0 0 0) (Vec3 0 0 1) 1 = (NaN, NaN) \<and>
   \<not> (\<exists>t::real. get_r (0 + t * 0) (0 + t * 0) = 1)"
  by (simp add: line_circle_intersection_def square_def get_r_def)

text \<open>
  Claim C6, amended: with \<open>A = d.x\<^sup>2 + d.y\<^sup>2\<close>, \<open>B = 2 p.x d.x + 2 p.y d.y\<close> and
  \<open>C = p.x\<^sup>2 + p.y\<^sup>2 - radius\<^sup>2\<close>, the function returns the pair (-1,-1) when
  \<open>B\<^sup>2 - 4 A C < 0\<close>; when the discriminant is not negative and the direction has a
  transverse component (\<open>A \<noteq> 0\<close>), it returns the two roots of \<open>A t\<^sup>2 + B t + C = 0\<close>,
  and at each of them the transverse point \<open>(p.x + t d.x, p.y + t d.y)\<close> is at distance
  \<open>|radius|\<close> from the origin.
\<close>

theorem line_circle_intersection_roots:
  fixes p d :: vec3 and radius :: real
  defines "A \<equiv> (vx d)\<^sup>2 + (vy d)\<^sup>2"
      and "B \<equiv> 2 * vx p * vx d + 2 * vy p * vy d"
      and "C \<equiv> (vx p)\<^sup>2 + (vy p)\<^sup>2 - radius\<^sup>2"
  shows "(B\<^sup>2 - 4 * A * C < 0 \<longrightarrow>
            line_circle_intersection p d radius = (Finite (- 1), Finite (- 1))) \<and>
         (0 \<le> B\<^sup>2 - 4 * A * C \<and> A \<noteq> 0 \<longrightarrow>
            (\<exists>tup tdn. line_circle_intersection p d radius = (Finite tup, Finite tdn) \<and>
               tup = (- B + sqrt (B\<^sup>2 - 4 * A * C)) / (2 * A) \<and>
               tdn = (- B - sqrt (B\<^sup>2 - 4 * A * C)) / (2 * A) \<and>
               A * tup\<^sup>2 + B * tup + C = 0 \<and> A * tdn\<^sup>2 + B * tdn + C = 0 \<and>
               get_r (vx p + tup * vx d) (vy p + tup * vy d) = \<bar>radius\<bar> \<and>
               get_r (vx p + tdn * vx d) (vy p + tdn * vy d) = \<bar>radius\<bar>))"
proof (intro conjI impI)
  assume "B\<^sup>2 - 4 * A * C < 0"
  then show "line_circle_intersection p d radius = (Finite (- 1), Finite (- 1))"
    unfolding A_def B_def C_def by (rule lci_negative_discriminant)
next
  assume h: "0 \<le> B\<^sup>2 - 4 * A * C \<and> A \<noteq> 0"
  define tup where "tup = (- B + sqrt (B\<^sup>2 - 4 * A * C)) / (2 * A)"
  define tdn where "tdn = (- B - sqrt (B\<^sup>2 - 4 * A * C)) / (2 * A)"
  have nz: "2 * A \<noteq> 0" and nn: "\<not> B\<^sup>2 - 4 * A * C < 0"
    using h by simp_all
  have res: "line_circle_intersection p d radius = (Finite tup, Finite tdn)"
    using nz nn unfolding tup_def tdn_def A_def B_def C_def
    by (simp only: line_circle_intersection_def square_eq_power2 Let_def if_False)
  have rup: "A * tup\<^sup>2 + B * tup + C = 0"
    unfolding tup_def using quad_root [of A B C "sqrt (B\<^sup>2 - 4 * A * C)"] h by simp
  have rdn: "A * tdn\<^sup>2 + B * tdn + C = 0"
    unfolding tdn_def using quad_root [of A B C "- sqrt (B\<^sup>2 - 4 * A * C)"] h by simp
  have gup: "get_r (vx p + tup * vx d) (vy p + tup * vy d) = \<bar>radius\<bar>"
    using rup unfolding A_def B_def C_def by (rule get_r_of_root)
  have gdn: "get_r (vx p + tdn * vx d) (vy p + tdn * vy d) = \<bar>radius\<bar>"
    using rdn unfolding A_def B_def C_def by (rule get_r_of_root)
  show "\<exists>tup tdn. line_circle_intersection p d radius = (Finite tup, Finite tdn) \<and>
               tup = (- B + sqrt (B\<^sup>2 - 4 * A * C)) / (2 * A) \<and>
               tdn = (- B - sqrt (B\<^sup>2 - 4 * A * C)) / (2 * A) \<and>
               A * tup\<^sup>2 + B * tup + C = 0 \<and> A * tdn\<^sup>2 + B * tdn + C = 0 \<and>
               get_r (vx p + tup * vx d) (vy p + tup * vy d) = \<bar>radius\<bar> \<and>
               get_r (vx p + tdn * vx d) (vy p + tdn * vy d) = \<bar>radius\<bar>"
    using res rup rdn gup gdn tup_def tdn_def by blast
qed

text \<open>
  At the line \<open>y = 0\<close> from the origin along x and radius 5 the discriminant is 100 and
  the roots are 5 and -5.
\<close>

theorem line_circle_intersection_roots_witness:
  "line_circle_intersection (Vec3 0 0 0) (Vec3 1 0 0) 5 = (Finite 5, Finite (- 5)) \<and>
   get_r (0 + 5 * 1) (0 + 5 * 0) = 5 \<and> get_r (0 + (- 5) * 1) (0 + (- 5) * 0) = 5"
proof -
  have s: "sqrt 100 = 10"
    by (rule real_sqrt_unique) simp_all
  have h: "0 \<le> (2 * vx (Vec3 0 0 0) * vx (Vec3 1 0 0) + 2 * vy (Vec3 0 0 0) * vy (Vec3 1 0 0))\<^sup>2
             - 4 * ((vx (Vec3 1 0 0))\<^sup>2 + (vy (Vec3 1 0 0))\<^sup>2)
                 * ((vx (Vec3 0 0 0))\<^sup>2 + (vy (Vec3 0 0 0))\<^sup>2 - 5\<^sup>2)
           \<and> (vx (Vec3 1 0 0))\<^sup>2 + (vy (Vec3 1 0 0))\<^sup>2 \<noteq> 0"
    by simp
  from line_circle_intersection_roots [of "Vec3 0 0 0" "Vec3 1 0 0" 5] h
  show ?thesis
    by (auto simp: s)
qed

subsection \<open>get_cell_index\<close>

lemma atan2_bounds: "- pi < atan2 y x \<and> atan2 y x \<le> pi"
proof -
  have b: "- (pi / 2) < arctan (y / x)" "arctan (y / x) < pi / 2"
    using arctan_bounded [of "y / x"] by auto
  show ?thesis
  proof (cases "0 < x")
    case True
    then show ?thesis using b by (simp add: atan2_def)
  next
    case nx: False
    show ?thesis
    proof (cases "x < 0")
      case True
      show ?thesis
      proof (cases "0 \<le> y")
        case y: True
        then have "y / x \<le> 0" using True by (simp add: divide_nonneg_neg)
        then have "arctan (y / x) \<le> 0" by (simp add: arctan_le_zero_iff)
        then show ?thesis using True y b by (simp add: atan2_def)
      next
        case y: False
        then have "0 < y / x" using True by (simp add: divide_neg_neg)
        then have "0 < arctan (y / x)" by (simp add: zero_less_arctan_iff)
        then show ?thesis using True y b by (simp add: atan2_def)
      qed
    next
      case False
      with nx have "x = 0" by simp
      then show ?thesis using pi_gt_zero by (auto simp: atan2_def intro: less_imp_le order_trans [of _ 0])
    qed
  qed
qed

lemma phi_raise_nonneg: "0 \<le> phi_raise phi"
proof (induction phi rule: phi_raise.induct)
  case (1 phi)
  show ?case
  proof (cases "phi < m_phimin")
    case True
    with 1 show ?thesis by (simp add: phi_raise.simps [of phi])
  next
    case False
    then show ?thesis by (simp add: phi_raise.simps [of phi] m_phimin_def)
  qed
qed

lemma phi_raise_shift: "\<exists>k::int. phi_raise phi = phi + 2 * pi * real_of_int k"
proof (induction phi rule: phi_raise.induct)
  case (1 phi)
  show ?case
  proof (cases "phi < m_phimin")
    case True
    with 1 obtain k :: int where "phi_raise (phi + 2 * pi) = phi + 2 * pi + 2 * pi * real_of_int k"
      by blast
    with True have "phi_raise phi = phi + 2 * pi * real_of_int (k + 1)"
      by (simp add: phi_raise.simps [of phi] algebra_simps)
    then show ?thesis by blast
  next
    case False
    then have "phi_raise phi = phi + 2 * pi * real_of_int 0"
      by (simp add: phi_raise.simps [of phi])
    then show ?thesis by blast
  qed
qed

lemma phi_lower_less: "phi_lower phi < 2 * pi"
proof (induction phi rule: phi_lower.induct)
  case (1 phi)
  show ?case
  proof (cases "phi \<ge> m_phimax")
    case True
    with 1 show ?thesis by (simp add: phi_lower.simps [of phi])
  next
    case False
    then show ?thesis by (simp add: phi_lower.simps [of phi] m_phimax_def)
  qed
qed

lemma phi_lower_nonneg: "0 \<le> phi \<Longrightarrow> 0 \<le> phi_lower phi"
proof (induction phi rule: phi_lower.induct)
  case (1 phi)
  show ?case
  proof (cases "phi \<ge> m_phimax")
    case True
    then have "0 \<le> phi - 2 * pi" by (simp add: m_phimax_def)
    with 1 True show ?thesis by (simp add: phi_lower.simps [of phi])
  next
    case False
    with 1 show ?thesis by (simp add: phi_lower.simps [of phi])
  qed
qed

lemma phi_lower_shift: "\<exists>k::int. phi_lower phi = phi + 2 * pi * real_of_int k"
proof (induction phi rule: phi_lower.induct)
  case (1 phi)
  show ?case
  proof (cases "phi \<ge> m_phimax")
    case True
    with 1 obtain k :: int where "phi_lower (phi - 2 * pi) = phi - 2 * pi + 2 * pi * real_of_int k"
      by blast
    with True have "phi_lower phi = phi + 2 * pi * real_of_int (k - 1)"
      by (simp add: phi_lower.simps [of phi] algebra_simps)
    then show ?thesis by blast
  next
    case False
    then have "phi_lower phi = phi + 2 * pi * real_of_int 0"
      by (simp add: phi_lower.simps [of phi])
    then show ?thesis by blast
  qed
qed

lemma wrapped_phi:
  "0 \<le> phi_lower (phi_raise phi) \<and> phi_lower (phi_raise phi) < 2 * pi \<and>
   (\<exists>k::int. phi_lower (phi_raise phi) = phi + 2 * pi * real_of_int k)"
proof -
  obtain k :: int where k: "phi_raise phi = phi + 2 * pi * real_of_int k"
    using phi_raise_shift by blast
  obtain j :: int where j: "phi_lower (phi_raise phi) = phi_raise phi + 2 * pi * real_of_int j"
    using phi_lower_shift by blast
  have "phi_lower (phi_raise phi) = phi + 2 * pi * real_of_int (k + j)"
    using k j by (simp add: algebra_simps)
  then have "\<exists>k::int. phi_lower (phi_raise phi) = phi + 2 * pi * real_of_int k"
    by blast
  then show ?thesis
    using phi_lower_nonneg [OF phi_raise_nonneg] phi_lower_less by blast
qed

lemma to_int_zero: "to_int 0 = 0"
  by (simp add: to_int_def)

lemma get_r_axis: "get_r x 0 = \<bar>x\<bar>"
  by (simp add: get_r_def square_eq_power2)

lemma wrap_zero: "phi_lower (phi_raise 0) = 0"
proof -
  have np: "\<not> pi \<le> 0"
    using pi_gt_zero by linarith
  show ?thesis
    by (simp add: np phi_raise.simps [of 0] phi_lower.simps [of 0] m_phimin_def m_phimax_def)
qed

subsection \<open>The cell of a position, in single precision\<close>

lemma float_bounds [simp]:
  "to_float m_phimin = 0" "to_float m_phimax = 13176795 / 2097152"
  "to_float m_rmin = 20" "to_float m_rmax = 78"
  "to_float m_zmin = - (211 / 2)" "to_float m_zmax = 211 / 2"
  by (simp_all add: m_phimin_def m_phimax_def m_rmin_def m_rmax_def m_zmin_def m_zmax_def
      to_float_2pi to_float_minus)

lemma atan2_abs_le_pi: "\<bar>atan2 y x\<bar> \<le> pi"
  using atan2_bounds [of y x] by (auto simp: abs_if)

lemma to_float_atan2_bounds:
  "- 4 \<le> to_float (atan2 y x)" "to_float (atan2 y x) \<le> 4"
proof -
  have "- 4 \<le> atan2 y x" "atan2 y x \<le> 4"
    using atan2_abs_le_pi [of y x] pi_less_4 by (simp_all add: abs_if split: if_splits)
  then show "- 4 \<le> to_float (atan2 y x)" "to_float (atan2 y x) \<le> 4"
    using to_float_mono [of "atan2 y x" 4] to_float_mono [of "- 4" "atan2 y x"]
    by (simp_all add: to_float_minus)
qed

lemma wrap_float:
  assumes "- 4 \<le> a" and "a \<le> 4"
  shows "\<exists>phi_raised phi. phi_raise_float a = Some phi_raised \<and>
           phi_lower_float phi_raised = Some phi \<and> 0 \<le> phi \<and> phi < to_float m_phimax"
proof (cases "a < 0")
  case False
  have r: "phi_raise_float a = Some a"
    using False by (subst phi_raise_float.simps) simp
  have l: "phi_lower_float a = Some a"
    using assms(2) by (subst phi_lower_float.simps) simp
  show ?thesis
    using r l False assms(2) by simp
next
  case True
  define a1 where "a1 = to_float (a + 2 * pi)"
  have "2 \<le> a + 2 * pi" "a + 2 * pi \<le> 2 * pi"
    using assms(1) True pi_bounds by linarith+
  then have "to_float 2 \<le> a1" "a1 \<le> to_float (2 * pi)"
    unfolding a1_def by (simp_all only: to_float_mono)
  moreover have "to_float 2 = 2"
    by (rule to_float_exact [of _ 2 0]) simp_all
  ultimately have b: "2 \<le> a1" "a1 \<le> 13176795 / 2097152"
    by (simp_all add: to_float_2pi)
  have r: "phi_raise_float a = Some a1"
    using True b(1)
    by (subst phi_raise_float.simps, simp add: a1_def [symmetric])
       (subst phi_raise_float.simps, simp)
  show ?thesis
  proof (cases "a1 < 13176795 / 2097152")
    case True
    have l: "phi_lower_float a1 = Some a1"
      using True by (subst phi_lower_float.simps) simp
    show ?thesis
      using r l True b(1) by simp
  next
    case False
    with b(2) have e: "a1 = 13176795 / 2097152"
      by simp
    define a2 where "a2 = to_float (a1 - 2 * pi)"
    have "0 \<le> a1 - 2 * pi" "a1 - 2 * pi \<le> 1"
      unfolding e using pi_bounds by simp_all
    then have "to_float 0 \<le> a2" "a2 \<le> to_float 1"
      unfolding a2_def by (simp_all only: to_float_mono)
    then have c: "0 \<le> a2" "a2 \<le> 1"
      by simp_all
    have l: "phi_lower_float a1 = Some a2"
      using e c(2)
      by (subst phi_lower_float.simps, simp add: a2_def [symmetric])
         (subst phi_lower_float.simps, simp)
    show ?thesis
      using r l c by simp
  qed
qed

lemma float_bin_lower: "float_bin bins v v vmax = 0"
  by (simp add: float_bin_def to_int_def)

lemma to_float_below_20: "x \<le> 20 - 1 / 2 ^ 19 \<Longrightarrow> to_float x < 20"
proof -
  assume a: "x \<le> 20 - 1 / 2 ^ 19"
  have "to_float (20 - 1 / 2 ^ 19) = 20 - 1 / 2 ^ 19"
    by (rule to_float_exact [of _ 10485759 "- 19"]) simp_all
  with to_float_mono [OF a] show ?thesis
    by simp
qed

lemma to_float_below_zmin: "x \<le> - 105.5 - 1 / 2 ^ 17 \<Longrightarrow> to_float x < - 105.5"
proof -
  assume a: "x \<le> - 105.5 - 1 / 2 ^ 17"
  have "to_float (- 105.5 - 1 / 2 ^ 17) = - 105.5 - 1 / 2 ^ 17"
    by (rule to_float_exact [of _ "- 13828097" "- 17"]) simp_all
  with to_float_mono [OF a] show ?thesis
    by simp
qed

lemma to_float_above: "78 \<le> x \<Longrightarrow> 78 \<le> to_float x" "105.5 \<le> x \<Longrightarrow> 105.5 \<le> to_float x"
  using to_float_mono [of 78 x] to_float_mono [of "211 / 2" x] by simp_all

lemma get_cell_index_returns: "\<exists>i. get_cell_index mc global = Some i"
proof -
  obtain phi_raised phi where
    "phi_raise_float (to_float (atan2 (vy global) (vx global))) = Some phi_raised"
    "phi_lower_float phi_raised = Some phi"
    using wrap_float [OF to_float_atan2_bounds] by blast
  then show ?thesis
    by (simp add: get_cell_index_def Let_def)
qed

text \<open>
  Claim C3, as amended. For every position \<open>get_cell_index\<close> returns. The azimuth that is
  binned is the \<open>float\<close> the two loops leave, which lies in \<open>[0, m_phimax)\<close> with \<open>m_phimax\<close>
  the \<open>float\<close> nearest \<open>2*pi\<close>. With \<open>r\<close> and \<open>z\<close> the radius \<open>sqrt(x\<^sup>2+y\<^sup>2)\<close> and the third
  coordinate narrowed to \<open>float\<close>, the result is -1 when \<open>r\<close> is below 20 or at or above
  78, or \<open>z\<close> is below -105.5 or at or above 105.5, and otherwise it is the container's
  index of the three bins, each computed in single precision. The bin is 0 at \<open>r = 20\<close>
  and at \<open>z = -105.5\<close>, which are what the exact lower bounds narrow to. In terms of the
  exact radius and third coordinate: the result is -1 when the radius is at or above 78 or
  at or below \<open>20 - 1 / 2 ^ 19\<close>, the \<open>float\<close> below 20, and when the third coordinate is at or
  above 105.5 or at or below \<open>-105.5 - 1 / 2 ^ 17\<close>, the \<open>float\<close> below -105.5.
\<close>

theorem get_cell_index_range:
  fixes mc :: matrix_container and global :: vec3
  defines "r \<equiv> to_float (get_r (vx global) (vy global))" and "z \<equiv> to_float (vz global)"
  shows
    "\<exists>phi_raised phi.
       phi_raise_float (to_float (atan2 (vy global) (vx global))) = Some phi_raised \<and>
       phi_lower_float phi_raised = Some phi \<and>
       0 \<le> phi \<and> phi < to_float (2 * pi) \<and>
       get_cell_index mc global
         = Some (if r < 20 \<or> 78 \<le> r \<or> z < - 105.5 \<or> 105.5 \<le> z then - 1
                 else mc_cell_index mc (float_bin (mc_phibins mc) phi 0 (to_float (2 * pi)))
                        (float_bin (mc_rbins mc) r 20 78)
                        (float_bin (mc_zbins mc) z (- 105.5) 105.5)) \<and>
       float_bin (mc_rbins mc) 20 20 78 = 0 \<and>
       float_bin (mc_zbins mc) (- 105.5) (- 105.5) 105.5 = 0 \<and>
       (get_r (vx global) (vy global) = 20 \<longrightarrow> r = 20) \<and>
       (vz global = - 105.5 \<longrightarrow> z = - 105.5) \<and>
       (get_r (vx global) (vy global) \<le> 20 - 1 / 2 ^ 19 \<or> 78 \<le> get_r (vx global) (vy global) \<or>
        vz global \<le> - 105.5 - 1 / 2 ^ 17 \<or> 105.5 \<le> vz global
          \<longrightarrow> get_cell_index mc global = Some (- 1))"
proof -
  obtain phi_raised phi where w:
    "phi_raise_float (to_float (atan2 (vy global) (vx global))) = Some phi_raised"
    "phi_lower_float phi_raised = Some phi" "0 \<le> phi" "phi < to_float m_phimax"
    using wrap_float [OF to_float_atan2_bounds] by blast
  have g: "get_cell_index mc global
         = Some (if r < 20 \<or> 78 \<le> r \<or> z < - 105.5 \<or> 105.5 \<le> z then - 1
                 else mc_cell_index mc (float_bin (mc_phibins mc) phi 0 (to_float (2 * pi)))
                        (float_bin (mc_rbins mc) r 20 78)
                        (float_bin (mc_zbins mc) z (- 105.5) 105.5))"
    unfolding get_cell_index_def r_def z_def
    by (simp add: w Let_def to_float_2pi)
  have out: "get_r (vx global) (vy global) \<le> 20 - 1 / 2 ^ 19 \<or> 78 \<le> get_r (vx global) (vy global) \<or>
        vz global \<le> - 105.5 - 1 / 2 ^ 17 \<or> 105.5 \<le> vz global
          \<longrightarrow> r < 20 \<or> 78 \<le> r \<or> z < - 105.5 \<or> 105.5 \<le> z"
    unfolding r_def z_def
    using to_float_below_20 to_float_below_zmin to_float_above by blast
  have lo: "get_r (vx global) (vy global) = 20 \<longrightarrow> r = 20" "vz global = - 105.5 \<longrightarrow> z = - 105.5"
    unfolding r_def z_def by (simp_all add: to_float_minus)
  show ?thesis
    apply (rule exI [of _ phi_raised], rule exI [of _ phi])
    using w g out lo by (simp add: float_bin_lower m_phimax_def)
qed

lemma wrap_float_zero: "phi_raise_float 0 = Some 0" "phi_lower_float 0 = Some 0"
  by (subst phi_raise_float.simps, simp) (subst phi_lower_float.simps, simp)

lemma float_bin_z_zero: "float_bin 80 0 (- (211 / 2)) (211 / 2) = 40"
proof -
  have "to_float 80 = 80"
    by (rule to_float_exact [of _ 80 0]) simp_all
  moreover have "to_float 8440 = 8440"
    by (rule to_float_exact [of _ 8440 0]) simp_all
  ultimately show ?thesis
    by (simp add: float_bin_def to_int_def)
qed

lemma to_float_near_20: "to_float (199999999 / 10000000) = 20"
proof -
  have "to_float (199999999 / 10000000) = of_int 10485760 * 2 powi (- 19)"
    by (rule to_float_cert) (simp_all add: abs_if)
  then show ?thesis by simp
qed

lemma ex_cell_below_rmin:
  "get_cell_index (example_container 36 16 80) (Vec3 19.9999999 0 0) = Some 40"
  by (simp add: get_cell_index_def example_container_def get_r_axis atan2_def wrap_float_zero
      to_float_near_20 float_bin_lower float_bin_z_zero Let_def)

lemma to_float_near_zmin: "to_float (- (1055000001 / 10000000)) = - (211 / 2)"
proof -
  have "to_float (- (1055000001 / 10000000)) = of_int (- 13828096) * 2 powi (- 17)"
    by (rule to_float_cert) (simp_all add: abs_if)
  then show ?thesis by simp
qed

lemma to_float_320_58: "to_float (160 / 29) = 5785247 / 1048576"
proof -
  have "to_float (160 / 29) = of_int 11570494 * 2 powi (- 21)"
    by (rule to_float_cert) (simp_all add: abs_if)
  then show ?thesis by simp
qed

lemma float_bin_r_40: "float_bin 16 40 20 78 = 5"
proof -
  have "to_float 16 = 16"
    by (rule to_float_exact [of _ 16 0]) simp_all
  moreover have "to_float 320 = 320"
    by (rule to_float_exact [of _ 320 0]) simp_all
  moreover have "\<lfloor>(5785247 / 1048576 :: real)\<rfloor> = 5"
    by (simp add: floor_eq_iff)
  ultimately show ?thesis
    by (simp add: float_bin_def to_int_def to_float_320_58)
qed

lemma ex_cell_below_zmin:
  "get_cell_index (example_container 36 16 80) (Vec3 40 0 (- 105.5000001)) = Some 400"
  by (simp add: get_cell_index_def example_container_def get_r_axis atan2_def wrap_float_zero
      to_float_near_zmin float_bin_lower float_bin_r_40 Let_def)

lemma arctan_small_bounds:
  "1 / 4194304 - 1 / 221360928884514619392 \<le> arctan (1 / 4194304)"
  "arctan (1 / 4194304) < 1 / 4194304"
proof -
  have "(\<Sum>i<2 * 1. (- 1) ^ i * (1 / real (i * 2 + 1) * (1 / 4194304 :: real) ^ (i * 2 + 1)))
          \<le> arctan (1 / 4194304)"
    by (rule arctan_series_bounds) simp_all
  then show "1 / 4194304 - 1 / 221360928884514619392 \<le> arctan (1 / 4194304)"
    by (simp add: eval_nat_numeral)
  have "arctan (1 / 4194304)
          \<le> (\<Sum>i<2 * 1 + 1. (- 1) ^ i * (1 / real (i * 2 + 1) * (1 / 4194304 :: real) ^ (i * 2 + 1)))"
    by (rule arctan_series_bounds) simp_all
  then show "arctan (1 / 4194304) < 1 / 4194304"
    by (simp add: eval_nat_numeral)
qed

lemma to_float_arctan_small: "to_float (arctan (1 / 4194304)) = 1 / 4194304"
proof -
  have "to_float (arctan (1 / 4194304)) = of_int 16777216 * 2 powi (- 46)"
    using arctan_small_bounds by (intro to_float_cert) (simp_all add: abs_if field_simps)
  then show ?thesis by simp
qed

lemma to_float_below_2pi: "to_float (2 * pi - 1 / 4194304) = 6588397 / 1048576"
proof -
  have "to_float (2 * pi - 1 / 4194304) = of_int 13176794 * 2 powi (- 21)"
    using pi_bounds by (intro to_float_cert) (simp_all add: abs_if field_simps)
  then show ?thesis by simp
qed

lemma wrap_float_small_negative:
  "phi_raise_float (- (1 / 4194304)) = Some (6588397 / 1048576)"
  "phi_lower_float (6588397 / 1048576) = Some (6588397 / 1048576)"
proof -
  have e: "- (1 / 4194304) + 2 * pi = 2 * pi - 1 / 4194304"
    by simp
  show "phi_raise_float (- (1 / 4194304)) = Some (6588397 / 1048576)"
    by (subst phi_raise_float.simps, simp add: e to_float_below_2pi)
       (subst phi_raise_float.simps, simp)
  show "phi_lower_float (6588397 / 1048576) = Some (6588397 / 1048576)"
    by (subst phi_lower_float.simps) simp
qed

lemma float_bin_phi_12: "float_bin 12 (6588397 / 1048576) 0 (13176795 / 2097152) = 12"
proof -
  have a: "to_float 12 = 12"
    by (rule to_float_exact [of _ 12 0]) simp_all
  have b: "to_float (6588397 / 1048576) = 6588397 / 1048576"
    by (rule to_float_exact [of _ 6588397 "- 20"]) simp_all
  have c: "to_float (13176795 / 2097152) = 13176795 / 2097152"
    by (rule to_float_exact [of _ 13176795 "- 21"]) simp_all
  have "to_float (19765191 / 262144) = of_int 9882596 * 2 powi (- 17)"
    by (rule to_float_cert_tie) (simp_all add: abs_if)
  then have d: "to_float (19765191 / 262144) = 2470649 / 32768"
    by simp
  have "to_float (158121536 / 13176795) = of_int 12582912 * 2 powi (- 20)"
    by (rule to_float_cert) (simp_all add: abs_if)
  then have e: "to_float (158121536 / 13176795) = 12"
    by simp
  show ?thesis
    by (simp add: float_bin_def a b c d e to_int_def)
qed

lemma to_float_r_64: "to_float (get_r 64 (- (1 / 65536))) = 64"
proof -
  define x where "x = get_r 64 (- (1 / 65536))"
  have x: "x = sqrt (4096 + 1 / 4294967296)"
    by (simp add: x_def get_r_def square_def)
  have lo: "64 \<le> x"
    unfolding x by (rule real_le_rsqrt) simp
  have hi: "x \<le> 64 + 1 / 1048576"
    unfolding x by (rule real_le_lsqrt) (simp_all add: power2_eq_square)
  have "to_float x = of_int 8388608 * 2 powi (- 17)"
    using lo hi by (intro to_float_cert) (simp_all add: abs_if)
  then show ?thesis
    by (simp add: x_def)
qed

lemma ex_cell_phi_bin:
  "get_cell_index (example_container 12 16 80) (Vec3 64 (- (1 / 65536)) 0) = Some (- 1)"
proof -
  have a: "atan2 (- (1 / 65536)) 64 = - arctan (1 / 4194304)"
    by (simp add: atan2_def arctan_minus [symmetric])
  show ?thesis
    by (simp add: get_cell_index_def example_container_def a to_float_minus
        to_float_arctan_small wrap_float_small_negative float_bin_phi_12 to_float_r_64 Let_def)
qed

lemma to_float_352_29: "to_float (352 / 29) = 12727543 / 1048576"
proof -
  have "to_float (352 / 29) = of_int 12727543 * 2 powi (- 20)"
    by (rule to_float_cert) (simp_all add: abs_if)
  then show ?thesis by simp
qed

lemma float_bin_r_64: "float_bin 16 64 20 78 = 12"
proof -
  have "to_float 16 = 16"
    by (rule to_float_exact [of _ 16 0]) simp_all
  moreover have "to_float 44 = 44"
    by (rule to_float_exact [of _ 44 0]) simp_all
  moreover have "to_float 704 = 704"
    by (rule to_float_exact [of _ 704 0]) simp_all
  moreover have "\<lfloor>(12727543 / 1048576 :: real)\<rfloor> = 12"
    by (simp add: floor_eq_iff)
  ultimately show ?thesis
    by (simp add: float_bin_def to_int_def to_float_352_29)
qed

lemma to_float_64: "to_float 64 = 64"
  by (rule to_float_exact [of _ 64 0]) simp_all

lemma ex_cell_phi_zero:
  "get_cell_index (example_container 12 16 80) (Vec3 64 0 0) = Some 1000"
  by (simp add: get_cell_index_def example_container_def get_r_axis atan2_def wrap_float_zero
      to_float_64 float_bin_lower float_bin_r_64 float_bin_z_zero Let_def)

text \<open>
  With 36 x 16 x 80 bins: the point at radius 78 has no cell, and the point at the lower
  bounds of \<open>r\<close> and \<open>z\<close> and azimuth 0 has cell 0.
\<close>

theorem get_cell_index_range_witness:
  "get_cell_index (example_container 36 16 80) (Vec3 78 0 0) = Some (- 1) \<and>
   get_cell_index (example_container 36 16 80) (Vec3 20 0 (- 105.5)) = Some 0"
proof -
  let ?mc = "example_container 36 16 80"
  have a: "get_cell_index ?mc (Vec3 78 0 0) = Some (- 1)"
    using get_cell_index_range [of "Vec3 78 0 0" ?mc] by (auto simp: get_r_axis)
  have b: "get_cell_index ?mc (Vec3 20 0 (- 105.5)) = Some 0"
    using get_cell_index_range [of "Vec3 20 0 (- 105.5)" ?mc]
    by (auto simp: get_r_axis atan2_def wrap_float_zero float_bin_lower example_container_def
        to_float_minus)
  from a b show ?thesis by simp
qed

text \<open>
  Claim C3 as written fails in single precision. The radius 19.9999999 is below 20 and
  narrows to 20: the point has cell 40, not -1; likewise \<open>z = -105.5000001\<close> narrows to
  -105.5 and the point has cell 400. And an azimuth alone makes the result -1: with 12
  azimuth bins the points (64, 0, 0) and (64, -1/65536, 0) have the same narrowed radius 64 and
  the same \<open>z\<close>; the first has cell 1000, while the azimuth of the second is raised to the
  \<open>float\<close> below \<open>m_phimax\<close>, its bin is 12, outside of the bins 0 to 11, and the container
  gives -1.
\<close>

theorem get_cell_index_counterexample:
  "get_r 19.9999999 0 < 20 \<and>
   get_cell_index (example_container 36 16 80) (Vec3 19.9999999 0 0) = Some 40 \<and>
   (- 105.5000001 :: real) < - 105.5 \<and>
   get_cell_index (example_container 36 16 80) (Vec3 40 0 (- 105.5000001)) = Some 400 \<and>
   to_float (get_r 64 0) = 64 \<and>
   get_cell_index (example_container 12 16 80) (Vec3 64 0 0) = Some 1000 \<and>
   to_float (get_r 64 (- (1 / 65536))) = 64 \<and>
   get_cell_index (example_container 12 16 80) (Vec3 64 (- (1 / 65536)) 0) = Some (- 1) \<and>
   phi_raise_float (to_float (atan2 (- (1 / 65536)) 64)) = Some (6588397 / 1048576) \<and>
   phi_lower_float (6588397 / 1048576) = Some (6588397 / 1048576) \<and>
   float_bin 12 (6588397 / 1048576) (to_float m_phimin) (to_float m_phimax) = 12"
proof -
  have a: "atan2 (- (1 / 65536)) 64 = - arctan (1 / 4194304)"
    by (simp add: atan2_def arctan_minus [symmetric])
  have "phi_raise_float (to_float (atan2 (- (1 / 65536)) 64)) = Some (6588397 / 1048576)"
    by (simp add: a to_float_minus to_float_arctan_small wrap_float_small_negative)
  moreover have "get_r 19.9999999 0 < 20" "to_float (get_r 64 0) = 64"
    by (simp_all add: get_r_axis to_float_64)
  moreover have "float_bin 12 (6588397 / 1048576) (to_float m_phimin) (to_float m_phimax) = 12"
    by (simp add: float_bin_phi_12)
  ultimately show ?thesis
    using ex_cell_below_rmin ex_cell_below_zmin ex_cell_phi_zero ex_cell_phi_bin to_float_r_64
      wrap_float_small_negative(2)
    by simp
qed

section \<open>Properties of the laser track loop\<close>

lemma foldl_invariant:
  assumes "P a" and "\<And>acc x. P acc \<Longrightarrow> P (f acc x)"
  shows "P (foldl f a xs)"
  using assms(1)
proof (induction xs arbitrary: a)
  case Nil
  then show ?case by simp
next
  case (Cons x xs)
  then show ?case using assms(2) by simp
qed

text \<open>A hit is always counted in \<open>m_total_hits\<close>; it is counted as matched exactly when
  it is also recorded in the per-track cluster map and layer set.\<close>

lemma hit_step_cases:
  obtains
    (skipped) "hit_step env track layer side sl h
                 = ((fst sl)\<lparr>m_total_hits := m_total_hits (fst sl) + 1\<rparr>, snd sl)"
  | (matched) adc global arr oob where
      "hit_step env track layer side sl h
         = ((fst sl)\<lparr>m_total_hits := m_total_hits (fst sl) + 1,
                      m_matched_hits := m_matched_hits (fst sl) + 1,
                      gem_out_of_bounds := (gem_out_of_bounds (fst sl) \<or> oob)\<rparr>,
            \<lparr>cluspos_map = cluspos_map (snd sl) @ [(layer, adc, global)],
             layer_bin_set = insert layer (layer_bin_set (snd sl)),
             GEM_Mod_Arr = arr\<rparr>)"
proof -
  obtain phi global where g: "hit_global env layer side h = (phi, global)"
    by (cases "hit_global env layer side h") blast
  show ?thesis
  proof (cases "dca_too_large env (lt_origin track) (lt_direction track) global")
    case True
    then have "hit_step env track layer side sl h
                 = ((fst sl)\<lparr>m_total_hits := m_total_hits (fst sl) + 1\<rparr>, snd sl)"
      using g by (simp add: hit_step_def Let_def)
    then show ?thesis by (rule skipped)
  next
    case False
    let ?z2 = "vz global"
    let ?loc = "Locate (sqrt (vx global * vx global + vy global * vy global))
                  (phi_lower (phi_raise phi)) ?z2"
    obtain arr oob where a: "(if ?z2 > m_zmin \<or> ?z2 < m_zmax
                             then gem_increment ?loc (GEM_Mod_Arr (snd sl))
                             else (GEM_Mod_Arr (snd sl), False)) = (arr, oob)"
      by (cases "(if ?z2 > m_zmin \<or> ?z2 < m_zmax
                             then gem_increment ?loc (GEM_Mod_Arr (snd sl))
                             else (GEM_Mod_Arr (snd sl), False))") blast
    have "hit_step env track layer side sl h
         = ((fst sl)\<lparr>m_total_hits := m_total_hits (fst sl) + 1,
                      m_matched_hits := m_matched_hits (fst sl) + 1,
                      gem_out_of_bounds := (gem_out_of_bounds (fst sl) \<or> oob)\<rparr>,
            \<lparr>cluspos_map = cluspos_map (snd sl) @ [(layer, hit_adc h - m_pedestal env, global)],
             layer_bin_set = insert layer (layer_bin_set (snd sl)),
             GEM_Mod_Arr = arr\<rparr>)"
      using g False a by (simp add: hit_step_def Let_def)
    then show ?thesis by (rule matched)
  qed
qed

lemma hit_step_total:
  "m_total_hits (fst (hit_step env track layer side sl h)) = m_total_hits (fst sl) + 1"
  by (rule hit_step_cases [of env track layer side sl h]) simp_all

lemma hits_total:
  "m_total_hits (fst (foldl (hit_step env track layer side) sl hs))
     = m_total_hits (fst sl) + int (length hs)"
  by (induction hs arbitrary: sl) (simp_all add: hit_step_total)

lemma hitsets_total:
  "m_total_hits (fst (foldl (hitset_step env track) sl hitsets))
     = m_total_hits (fst sl) + int (length (concat (map hs_hits hitsets)))"
  by (induction hitsets arbitrary: sl) (simp_all add: hitset_step_def hits_total)

lemma hit_step_inv:
  assumes "m_matched_hits (fst sl) = m0 + int (length (cluspos_map (snd sl))) \<and>
           layer_bin_set (snd sl) = fst ` set (cluspos_map (snd sl)) \<and>
           m_accepted_clusters (fst sl) = a0 \<and> cells_entered (fst sl) = c0 \<and>
           m_matched_hits (fst sl) - m0 \<le> m_total_hits (fst sl) - t0"
  shows "m_matched_hits (fst (hit_step env track layer side sl h))
           = m0 + int (length (cluspos_map (snd (hit_step env track layer side sl h)))) \<and>
         layer_bin_set (snd (hit_step env track layer side sl h))
           = fst ` set (cluspos_map (snd (hit_step env track layer side sl h))) \<and>
         m_accepted_clusters (fst (hit_step env track layer side sl h)) = a0 \<and>
         cells_entered (fst (hit_step env track layer side sl h)) = c0 \<and>
         m_matched_hits (fst (hit_step env track layer side sl h)) - m0
           \<le> m_total_hits (fst (hit_step env track layer side sl h)) - t0"
  using assms by - (rule hit_step_cases [of env track layer side sl h], auto)

lemma hit_loop_inv:
  fixes s :: laser_state and env :: laser_env and track :: laser_track and hitsets :: "hitset list"
  defines "sl \<equiv> hit_loop env track hitsets s"
  shows "m_matched_hits (fst sl) = m_matched_hits s + int (length (cluspos_map (snd sl))) \<and>
         layer_bin_set (snd sl) = fst ` set (cluspos_map (snd sl)) \<and>
         m_accepted_clusters (fst sl) = m_accepted_clusters s \<and>
         cells_entered (fst sl) = cells_entered s \<and>
         m_matched_hits (fst sl) - m_matched_hits s \<le> m_total_hits (fst sl) - m_total_hits s"
  unfolding sl_def hit_loop_def
proof (rule foldl_invariant)
  show "m_matched_hits (fst (s, \<lparr>cluspos_map = [], layer_bin_set = {}, GEM_Mod_Arr = replicate 72 0\<rparr>))
          = m_matched_hits s + int (length (cluspos_map (snd (s, \<lparr>cluspos_map = [], layer_bin_set = {}, GEM_Mod_Arr = replicate 72 0\<rparr>)))) \<and>
        layer_bin_set (snd (s, \<lparr>cluspos_map = [], layer_bin_set = {}, GEM_Mod_Arr = replicate 72 0\<rparr>))
          = fst ` set (cluspos_map (snd (s, \<lparr>cluspos_map = [], layer_bin_set = {}, GEM_Mod_Arr = replicate 72 0\<rparr>))) \<and>
        m_accepted_clusters (fst (s, \<lparr>cluspos_map = [], layer_bin_set = {}, GEM_Mod_Arr = replicate 72 0\<rparr>)) = m_accepted_clusters s \<and>
        cells_entered (fst (s, \<lparr>cluspos_map = [], layer_bin_set = {}, GEM_Mod_Arr = replicate 72 0\<rparr>)) = cells_entered s \<and>
        m_matched_hits (fst (s, \<lparr>cluspos_map = [], layer_bin_set = {}, GEM_Mod_Arr = replicate 72 0\<rparr>)) - m_matched_hits s
          \<le> m_total_hits (fst (s, \<lparr>cluspos_map = [], layer_bin_set = {}, GEM_Mod_Arr = replicate 72 0\<rparr>)) - m_total_hits s"
    by simp
next
  fix acc :: "laser_state \<times> track_locals" and hs :: hitset
  assume "m_matched_hits (fst acc) = m_matched_hits s + int (length (cluspos_map (snd acc))) \<and>
         layer_bin_set (snd acc) = fst ` set (cluspos_map (snd acc)) \<and>
         m_accepted_clusters (fst acc) = m_accepted_clusters s \<and>
         cells_entered (fst acc) = cells_entered s \<and>
         m_matched_hits (fst acc) - m_matched_hits s \<le> m_total_hits (fst acc) - m_total_hits s"
  then show "m_matched_hits (fst (hitset_step env track acc hs))
           = m_matched_hits s + int (length (cluspos_map (snd (hitset_step env track acc hs)))) \<and>
         layer_bin_set (snd (hitset_step env track acc hs))
           = fst ` set (cluspos_map (snd (hitset_step env track acc hs))) \<and>
         m_accepted_clusters (fst (hitset_step env track acc hs)) = m_accepted_clusters s \<and>
         cells_entered (fst (hitset_step env track acc hs)) = cells_entered s \<and>
         m_matched_hits (fst (hitset_step env track acc hs)) - m_matched_hits s
           \<le> m_total_hits (fst (hitset_step env track acc hs)) - m_total_hits s"
    unfolding hitset_step_def
    by (rule foldl_invariant) (rule hit_step_inv)
qed

lemma hit_loop_total:
  "m_total_hits (fst (hit_loop env track hitsets s))
     = m_total_hits s + int (length (concat (map hs_hits hitsets)))"
  by (simp add: hit_loop_def hitsets_total)

lemma layer_loop_counts:
  "m_total_hits (foldl (layer_iteration env track cluspos) s layers) = m_total_hits s \<and>
   m_matched_hits (foldl (layer_iteration env track cluspos) s layers) = m_matched_hits s \<and>
   m_accepted_clusters (foldl (layer_iteration env track cluspos) s layers)
     = m_accepted_clusters s
       + int (length (filter (\<lambda>layer. layer_step env track cluspos layer \<noteq> None) layers))"
proof (induction layers arbitrary: s)
  case Nil
  then show ?case by simp
next
  case (Cons layer layers)
  show ?case
  proof (cases "layer_step env track cluspos layer")
    case None
    then have "layer_iteration env track cluspos s layer = s"
      by (simp add: layer_iteration_def)
    with None Cons.IH [of s] show ?thesis by simp
  next
    case (Some i)
    then have e: "layer_iteration env track cluspos s layer
                = s\<lparr>cells_entered := cells_entered s @ [i],
                    m_accepted_clusters := m_accepted_clusters s + 1\<rparr>"
      by (simp add: layer_iteration_def)
    show ?thesis
      using Some Cons.IH [of "s\<lparr>cells_entered := cells_entered s @ [i],
                               m_accepted_clusters := m_accepted_clusters s + 1\<rparr>"]
      by (simp add: e)
  qed
qed

lemma process_track_counts:
  fixes env :: laser_env and hitsets :: "hitset list" and s :: laser_state and track :: laser_track
  defines "matched_layers \<equiv> map fst (cluspos_map (snd (hit_loop env track hitsets s)))"
  defines "accepted_layers \<equiv>
             filter (\<lambda>layer. layer_step env track (cluspos_map (snd (hit_loop env track hitsets s)))
                               layer \<noteq> None)
                    (sorted_list_of_set (set matched_layers))"
  defines "s' \<equiv> process_track env hitsets s track"
  shows "m_total_hits s' = m_total_hits s + int (length (concat (map hs_hits hitsets)))"
    and "m_matched_hits s' = m_matched_hits s + int (length matched_layers)"
    and "length matched_layers \<le> length (concat (map hs_hits hitsets))"
    and "m_accepted_clusters s' = m_accepted_clusters s + int (length accepted_layers)"
    and "distinct accepted_layers"
    and "set accepted_layers \<subseteq> set matched_layers"
    and "length accepted_layers \<le> length matched_layers"
proof -
  obtain s1 loc where hl: "hit_loop env track hitsets s = (s1, loc)"
    by (cases "hit_loop env track hitsets s") blast
  note inv = hit_loop_inv [of env track hitsets s, unfolded hl, simplified]
  note tot = hit_loop_total [of env track hitsets s, unfolded hl, simplified]
  have ml: "matched_layers = map fst (cluspos_map loc)"
    by (simp add: matched_layers_def hl)
  have lbs: "layer_bin_set loc = set matched_layers"
    using inv by (simp add: ml)
  have s': "s' = foldl (layer_iteration env track (cluspos_map loc)) s1
                   (sorted_list_of_set (set matched_layers))"
    by (simp add: s'_def process_track_def hl lbs)
  have al: "accepted_layers = filter (\<lambda>layer. layer_step env track (cluspos_map loc) layer \<noteq> None)
                                (sorted_list_of_set (set matched_layers))"
    by (simp add: accepted_layers_def hl)
  note ll = layer_loop_counts [of env track "cluspos_map loc" s1
      "sorted_list_of_set (set matched_layers)", folded s' al]
  show "m_total_hits s' = m_total_hits s + int (length (concat (map hs_hits hitsets)))"
    using ll tot by simp
  show "m_matched_hits s' = m_matched_hits s + int (length matched_layers)"
    using ll inv by (simp add: ml)
  show "length matched_layers \<le> length (concat (map hs_hits hitsets))"
    using inv tot by (simp add: ml)
  show "m_accepted_clusters s' = m_accepted_clusters s + int (length accepted_layers)"
    using ll inv by simp
  show "distinct accepted_layers"
    unfolding al by simp
  show "set accepted_layers \<subseteq> set matched_layers"
    unfolding al by auto
  have "length accepted_layers \<le> length (sorted_list_of_set (set matched_layers))"
    unfolding al by (rule length_filter_le)
  also have "\<dots> = card (set matched_layers)"
    by simp
  also have "\<dots> \<le> length matched_layers"
    by (rule card_length)
  finally show "length accepted_layers \<le> length matched_layers" .
qed

lemma process_track_invariant:
  assumes "m_accepted_clusters s \<le> m_matched_hits s \<and> m_matched_hits s \<le> m_total_hits s"
  shows "m_accepted_clusters (process_track env hitsets s track)
           \<le> m_matched_hits (process_track env hitsets s track) \<and>
         m_matched_hits (process_track env hitsets s track)
           \<le> m_total_hits (process_track env hitsets s track)"
  using assms process_track_counts [where env = env and hitsets = hitsets and s = s and track = track]
  by simp

lemma process_tracks_invariant:
  assumes "m_accepted_clusters s \<le> m_matched_hits s \<and> m_matched_hits s \<le> m_total_hits s"
  shows "m_accepted_clusters (process_tracks env s ev) \<le> m_matched_hits (process_tracks env s ev) \<and>
         m_matched_hits (process_tracks env s ev) \<le> m_total_hits (process_tracks env s ev)"
  unfolding process_tracks_def
  by (rule foldl_invariant) (rule assms, rule process_track_invariant)

text \<open>Claim C4. Starting from the counters set by \<open>Init\<close>, after any sequence of events (each
  any sequence of tracks over any hits) the running counters satisfy
  \<open>m_accepted_clusters \<le> m_matched_hits \<le> m_total_hits\<close>. For one call of \<open>process_track\<close>
  from any state: \<open>m_total_hits\<close> grows by the number of hits visited, \<open>m_matched_hits\<close> grows by
  the number of hits recorded in the cluster map of that track, which is at most the number of
  hits visited (every matched hit was first counted as a total hit), and
  \<open>m_accepted_clusters\<close> grows by the length of a duplicate-free list of layers, each of which
  is the layer of a matched hit of that track. The counters are unbounded integers here.\<close>

theorem counters_invariant:
  fixes env :: laser_env and events :: "laser_event list"
    and hitsets :: "hitset list" and s :: laser_state and track :: laser_track
  defines "s_end \<equiv> foldl (process_tracks env) Init events"
  defines "matched_layers \<equiv> map fst (cluspos_map (snd (hit_loop env track hitsets s)))"
  defines "accepted_layers \<equiv>
             filter (\<lambda>layer. layer_step env track (cluspos_map (snd (hit_loop env track hitsets s)))
                               layer \<noteq> None)
                    (sorted_list_of_set (set matched_layers))"
  defines "s' \<equiv> process_track env hitsets s track"
  shows "m_accepted_clusters s_end \<le> m_matched_hits s_end \<and>
         m_matched_hits s_end \<le> m_total_hits s_end \<and>
         m_total_hits s' = m_total_hits s + int (length (concat (map hs_hits hitsets))) \<and>
         m_matched_hits s' = m_matched_hits s + int (length matched_layers) \<and>
         length matched_layers \<le> length (concat (map hs_hits hitsets)) \<and>
         m_accepted_clusters s' = m_accepted_clusters s + int (length accepted_layers) \<and>
         distinct accepted_layers \<and> set accepted_layers \<subseteq> set matched_layers"
proof -
  have "m_accepted_clusters s_end \<le> m_matched_hits s_end \<and> m_matched_hits s_end \<le> m_total_hits s_end"
    unfolding s_end_def
    by (rule foldl_invariant) (simp add: Init_def, rule process_tracks_invariant)
  then show ?thesis
    using process_track_counts [where env = env and hitsets = hitsets and s = s and track = track]
    unfolding s'_def matched_layers_def accepted_layers_def by simp
qed

lemma lci_along_x:
  assumes "0 \<le> R"
  shows "line_circle_intersection (Vec3 0 0 0) (Vec3 1 0 0) R = (Finite R, Finite (- R))"
proof -
  have "sqrt (4 * (R * R)) = 2 * R"
    using assms by (simp add: real_sqrt_mult)
  then show ?thesis
    by (simp add: line_circle_intersection_def square_def Let_def)
qed

lemma ex_hit_global0:
  "hit_global example_laser_env 7 1 \<lparr>hit_pad = 0, hit_tbin = 0, hit_adc = 100\<rparr> = (0, Vec3 40 0 0)"
  by (simp add: hit_global_def example_laser_env_def Let_def)

lemma ex_hit_global1:
  "hit_global example_laser_env 7 1 \<lparr>hit_pad = 5, hit_tbin = 0, hit_adc = 100\<rparr> = (pi / 2, Vec3 0 40 0)"
  by (simp add: hit_global_def example_laser_env_def Let_def)

lemma ex_laser_dca_near: "\<not> dca_too_large example_laser_env (Vec3 0 0 0) (Vec3 1 0 0) (Vec3 40 0 0)"
  by (simp add: dca_too_large_def example_laser_env_def Let_def square_def Mag_def dot_def
      smul_def vsub_def)

lemma ex_laser_dca_far: "dca_too_large example_laser_env (Vec3 0 0 0) (Vec3 1 0 0) (Vec3 0 40 0)"
proof -
  have "sqrt 1600 = 40" by (rule real_sqrt_unique) simp_all
  then show ?thesis
    by (simp add: dca_too_large_def example_laser_env_def Let_def square_def Mag_def dot_def
        smul_def vsub_def)
qed

lemma ex_locate: "Locate 40 0 0 = 1"
  by (simp add: Locate_def r_bins_def Angle_Bins_def)

lemma ex_hit_loop:
  "hit_loop example_laser_env example_laser_track (ev_hitsets example_laser_event) Init
     = (\<lparr>m_total_hits = 2, m_matched_hits = 1, m_accepted_clusters = 0, cells_entered = [],
         gem_out_of_bounds = False\<rparr>,
        \<lparr>cluspos_map = [(7, 40, Vec3 40 0 0)], layer_bin_set = {7},
         GEM_Mod_Arr = (replicate 72 0) [0 := 1]\<rparr>)"
proof -
  have s40: "sqrt 1600 = 40" by (rule real_sqrt_unique) simp_all
  have z: "(0::real) > m_zmin \<or> (0::real) < m_zmax" by (simp add: m_zmin_def m_zmax_def)
  have g: "gem_increment 1 (replicate 72 0) = ((replicate 72 0) [0 := 1], False)"
    by (simp add: gem_increment_def)
  show ?thesis
    by (simp add: hit_loop_def hitset_step_def hit_step_def example_laser_event_def
        example_laser_track_def ex_hit_global0 ex_hit_global1 ex_laser_dca_near ex_laser_dca_far Init_def Let_def
        s40 wrap_zero ex_locate z g example_laser_env_def [THEN arg_cong, of m_pedestal])
qed

lemma ex_cell: "get_cell_index (m_matrix_container example_laser_env) (Vec3 40 0 0) = Some 440"
  by (simp add: get_cell_index_def example_laser_env_def get_r_axis atan2_def wrap_float_zero
      float_bin_lower float_bin_r_40 float_bin_z_zero Let_def)

lemma ex_layer_step:
  "layer_step example_laser_env example_laser_track [(7, 40, Vec3 40 0 0)] 7 = Some 440"
proof -
  have g: "GetLayerCellGeom example_laser_env 7
             = \<lparr>lg_radius = 40, lg_thickness = 2, lg_zbins = 2,
                lg_phicenter = (\<lambda>pad. if pad = 0 then 0 else pi / 2),
                lg_zcenter = (\<lambda>tbin. 53)\<rparr>"
    by (simp add: example_laser_env_def)
  have cfg: "m_max_zrange example_laser_env = 5" "drift_velocity example_laser_env = 0"
    by (simp_all add: example_laser_env_def)
  have s40: "sqrt 1600 = 40" by (rule real_sqrt_unique) simp_all
  have l1: "line_circle_intersection (Vec3 0 0 0) (Vec3 1 0 0) 41 = (Finite 41, Finite (- 41))"
    using lci_along_x [of 41] by simp
  have l2: "line_circle_intersection (Vec3 0 0 0) (Vec3 1 0 0) 39 = (Finite 39, Finite (- 39))"
    using lci_along_x [of 39] by simp
  have l3: "line_circle_intersection (Vec3 0 0 0) (Vec3 1 0 0) 40 = (Finite 40, Finite (- 40))"
    using lci_along_x [of 40] by simp
  show ?thesis
    by (simp add: layer_step_def example_laser_track_def g cfg l1 l2 l3 Let_def smul_def vadd_def
        centroid_step_def Mag_def dot_def s40 atan2_def ex_cell)
qed

lemma ex_process_track:
  "process_track example_laser_env (ev_hitsets example_laser_event) Init example_laser_track
     = \<lparr>m_total_hits = 2, m_matched_hits = 1, m_accepted_clusters = 1, cells_entered = [440],
        gem_out_of_bounds = False\<rparr>"
  by (simp add: process_track_def ex_hit_loop layer_iteration_def ex_layer_step)

theorem counters_invariant_witness:
  "foldl (process_tracks example_laser_env) Init [example_laser_event]
     = \<lparr>m_total_hits = 2, m_matched_hits = 1, m_accepted_clusters = 1, cells_entered = [440],
        gem_out_of_bounds = False\<rparr> \<and>
   m_accepted_clusters (foldl (process_tracks example_laser_env) Init [example_laser_event])
     \<le> m_matched_hits (foldl (process_tracks example_laser_env) Init [example_laser_event]) \<and>
   m_matched_hits (foldl (process_tracks example_laser_env) Init [example_laser_event])
     \<le> m_total_hits (foldl (process_tracks example_laser_env) Init [example_laser_event])"
proof -
  have e: "foldl (process_tracks example_laser_env) Init [example_laser_event]
     = \<lparr>m_total_hits = 2, m_matched_hits = 1, m_accepted_clusters = 1, cells_entered = [440],
        gem_out_of_bounds = False\<rparr>"
    by (simp add: process_tracks_def ex_process_track
        example_laser_event_def [THEN arg_cong, of ev_tracks])
  note t = counters_invariant [of example_laser_env "[example_laser_event]"]
  from e t show ?thesis
    by blast
qed

lemma sqrt_2116: "sqrt 2116 = 46"
  by (rule real_sqrt_unique) simp_all

text \<open>Claim C9 does not hold of the code. \<open>Locate\<close> tests the radius with strict inequalities
  (\<open>r > 30\<close>, \<open>r > 46\<close>, \<open>r > 62\<close>), so a radius in \<open>[20, 30]\<close>, or exactly 46 or 62, leaves
  the radial id at 0. With an azimuth in the first angular bin and \<open>z \<ge> 0\<close> the module id is
  then 0, not a value from 1 to 72, and the increment of \<open>GEM_Mod_Arr[locateid - 1]\<close> addresses
  index \<open>-1\<close>: for a hit at radius 46, azimuth 0, z = 0 that passes the distance cut,
  \<open>hit_step\<close> reports the out-of-bounds access and leaves the 72 entries unchanged.\<close>

theorem Locate_module_zero:
  "(20::real) \<le> 46 \<and> (46::real) < 78 \<and> (0::real) \<le> 0 \<and> (0::real) < 2 * pi \<and>
   Locate 46 0 0 = 0 \<and> Locate 25 0 0 = 0 \<and>
   gem_increment (Locate 46 0 0) (replicate 72 0) = (replicate 72 0, True) \<and>
   hit_step
     (example_laser_env\<lparr>GetLayerCellGeom :=
        (\<lambda>layer. \<lparr>lg_radius = 46, lg_thickness = 2, lg_zbins = 2,
                    lg_phicenter = (\<lambda>pad. 0), lg_zcenter = (\<lambda>tbin. 53)\<rparr>)\<rparr>)
     example_laser_track 7 1
     (Init, \<lparr>cluspos_map = [], layer_bin_set = {}, GEM_Mod_Arr = replicate 72 0\<rparr>)
     \<lparr>hit_pad = 0, hit_tbin = 0, hit_adc = 100\<rparr>
   = (\<lparr>m_total_hits = 1, m_matched_hits = 1, m_accepted_clusters = 0, cells_entered = [],
       gem_out_of_bounds = True\<rparr>,
      \<lparr>cluspos_map = [(7, 40, Vec3 46 0 0)], layer_bin_set = {7},
       GEM_Mod_Arr = replicate 72 0\<rparr>)"
proof -
  have l: "Locate 46 0 0 = 0" "Locate 25 0 0 = 0"
    by (simp_all add: Locate_def r_bins_def Angle_Bins_def)
  have g: "gem_increment 0 (replicate 72 0) = (replicate 72 0, True)"
    by (simp add: gem_increment_def)
  have z: "(0::real) > m_zmin \<or> (0::real) < m_zmax"
    by (simp add: m_zmin_def m_zmax_def)
  have d: "\<not> dca_too_large
             (example_laser_env\<lparr>GetLayerCellGeom :=
                (\<lambda>layer. \<lparr>lg_radius = 46, lg_thickness = 2, lg_zbins = 2,
                            lg_phicenter = (\<lambda>pad. 0), lg_zcenter = (\<lambda>tbin. 53)\<rparr>)\<rparr>)
             (Vec3 0 0 0) (Vec3 1 0 0) (Vec3 46 0 0)"
    by (simp add: dca_too_large_def example_laser_env_def Let_def square_def Mag_def dot_def
        smul_def vsub_def)
  have h: "hit_global
             (example_laser_env\<lparr>GetLayerCellGeom :=
                (\<lambda>layer. \<lparr>lg_radius = 46, lg_thickness = 2, lg_zbins = 2,
                            lg_phicenter = (\<lambda>pad. 0), lg_zcenter = (\<lambda>tbin. 53)\<rparr>)\<rparr>)
             7 1 \<lparr>hit_pad = 0, hit_tbin = 0, hit_adc = 100\<rparr> = (0, Vec3 46 0 0)"
    by (simp add: hit_global_def example_laser_env_def Let_def)
  have p: "m_pedestal
             (example_laser_env\<lparr>GetLayerCellGeom :=
                (\<lambda>layer. \<lparr>lg_radius = 46, lg_thickness = 2, lg_zbins = 2,
                            lg_phicenter = (\<lambda>pad. 0), lg_zcenter = (\<lambda>tbin. 53)\<rparr>)\<rparr>) = 60"
    by (simp add: example_laser_env_def)
  have hs: "hit_step
     (example_laser_env\<lparr>GetLayerCellGeom :=
        (\<lambda>layer. \<lparr>lg_radius = 46, lg_thickness = 2, lg_zbins = 2,
                    lg_phicenter = (\<lambda>pad. 0), lg_zcenter = (\<lambda>tbin. 53)\<rparr>)\<rparr>)
     example_laser_track 7 1
     (Init, \<lparr>cluspos_map = [], layer_bin_set = {}, GEM_Mod_Arr = replicate 72 0\<rparr>)
     \<lparr>hit_pad = 0, hit_tbin = 0, hit_adc = 100\<rparr>
   = (\<lparr>m_total_hits = 1, m_matched_hits = 1, m_accepted_clusters = 0, cells_entered = [],
       gem_out_of_bounds = True\<rparr>,
      \<lparr>cluspos_map = [(7, 40, Vec3 46 0 0)], layer_bin_set = {7},
       GEM_Mod_Arr = replicate 72 0\<rparr>)"
    by (simp add: hit_step_def h d p example_laser_track_def Init_def Let_def sqrt_2116
        wrap_zero l g z)
  show ?thesis
    using l g hs by simp
qed

section \<open>Properties of the SecondaryVertexFinder geometry\<close>

subsection \<open>circle_circle_intersection\<close>

lemma norm2_nonneg: "0 \<le> norm2 x y"
  by (simp add: norm2_def)

lemma norm2_sq: "norm2 x y * norm2 x y = x * x + y * y"
  by (simp add: norm2_def)

lemma norm2_flip: "norm2 (x1 - x0) (y1 - y0) = norm2 (x0 - x1) (y0 - y1)"
proof -
  have "(x1 - x0) * (x1 - x0) + (y1 - y0) * (y1 - y0) = (x0 - x1) * (x0 - x1) + (y0 - y1) * (y0 - y1)"
    by (simp add: algebra_simps)
  then show ?thesis by (simp add: norm2_def)
qed

lemma norm2_axis: "norm2 x 0 = \<bar>x\<bar>"
  by (simp add: norm2_def)

lemma norm2_eq:
  assumes "x * x + y * y = r * r" "0 \<le> r"
  shows "norm2 x y = r"
  using assms by (simp add: norm2_def)

lemma norm2_eq_abs:
  assumes "x * x + y * y = r * r"
  shows "norm2 x y = \<bar>r\<bar>"
  using assms by (simp add: norm2_def)

text \<open>
  The radicand of \<open>h\<close>: four times \<open>d\<^sup>2 (r0\<^sup>2 - a\<^sup>2)\<close> is the product of
  Heron's formula for the triangle of the two centres and an intersection point.
\<close>

lemma cci_radicand_nonneg:
  fixes r0 r1 d :: real
  assumes lo: "\<bar>r1 - r0\<bar> \<le> d" and hi: "d \<le> r0 + r1" and d0: "d \<noteq> 0"
  defines "a \<equiv> (r0 * r0 - r1 * r1 + d * d) / (2 * d)"
  shows "0 \<le> r0 * r0 - a * a"
proof -
  have dpos: "0 < d" using lo d0 by linarith
  have f1: "0 \<le> r0 + r1 - d" using hi by simp
  have f2: "0 \<le> r1 + d - r0" using lo by linarith
  have f3: "0 \<le> r0 + d - r1" using lo by linarith
  have f4: "0 \<le> r0 + d + r1" using hi dpos by linarith
  have m: "r0 - a = (r0 + r1 - d) * (r1 + d - r0) / (2 * d)"
    unfolding a_def using dpos by (simp add: field_simps)
  have p: "r0 + a = (r0 + d - r1) * (r0 + d + r1) / (2 * d)"
    unfolding a_def using dpos by (simp add: field_simps)
  have "0 \<le> r0 - a" unfolding m using f1 f2 dpos by simp
  moreover have "0 \<le> r0 + a" unfolding p using f3 f4 dpos by simp
  ultimately have "0 \<le> (r0 - a) * (r0 + a)" by (rule mult_nonneg_nonneg)
  then show ?thesis by (simp add: algebra_simps)
qed

lemma rotated_sum_squares:
  fixes a h ux uy :: real
  assumes "ux * ux + uy * uy = 1"
  shows "(a * ux + h * uy) * (a * ux + h * uy) + (a * uy - h * ux) * (a * uy - h * ux) = a * a + h * h"
    and "(a * ux - h * uy) * (a * ux - h * uy) + (a * uy + h * ux) * (a * uy + h * ux) = a * a + h * h"
proof -
  have "(a * ux + h * uy) * (a * ux + h * uy) + (a * uy - h * ux) * (a * uy - h * ux)
          = (a * a + h * h) * (ux * ux + uy * uy)"
    by (simp add: algebra_simps)
  then show "(a * ux + h * uy) * (a * ux + h * uy) + (a * uy - h * ux) * (a * uy - h * ux) = a * a + h * h"
    using assms by simp
  have "(a * ux - h * uy) * (a * ux - h * uy) + (a * uy + h * ux) * (a * uy + h * ux)
          = (a * a + h * h) * (ux * ux + uy * uy)"
    by (simp add: algebra_simps)
  then show "(a * ux - h * uy) * (a * ux - h * uy) + (a * uy + h * ux) * (a * uy + h * ux) = a * a + h * h"
    using assms by simp
qed

lemma unit_direction:
  fixes x0 y0 x1 y1 :: real
  defines "d \<equiv> norm2 (x0 - x1) (y0 - y1)"
  assumes "d \<noteq> 0"
  shows "(x1 - x0) / d * ((x1 - x0) / d) + (y1 - y0) / d * ((y1 - y0) / d) = 1"
proof -
  have dd: "d * d = (x1 - x0) * (x1 - x0) + (y1 - y0) * (y1 - y0)"
    unfolding d_def by (simp add: norm2_sq algebra_simps)
  have "(x1 - x0) / d * ((x1 - x0) / d) + (y1 - y0) / d * ((y1 - y0) / d)
          = ((x1 - x0) * (x1 - x0) + (y1 - y0) * (y1 - y0)) / (d * d)"
    by (simp add: add_divide_distrib)
  also have "\<dots> = d * d / (d * d)" by (simp only: dd)
  also have "\<dots> = 1" using assms(2) by simp
  finally show ?thesis .
qed

lemma cci_fails:
  fixes r0 x0 y0 r1 x1 y1 :: real
  defines "d \<equiv> norm2 (x0 - x1) (y0 - y1)"
  assumes "d < \<bar>r0 - r1\<bar> \<or> r0 + r1 + 0.2 \<le> d"
  shows "circle_circle_intersection r0 x0 y0 r1 x1 y1 xy = (False, xy)"
proof (cases "d < \<bar>r1 - r0\<bar>")
  case True
  then show ?thesis
    unfolding d_def by (simp add: circle_circle_intersection_def Let_def)
next
  case False
  with assms(2) have far: "r0 + r1 + 0.2 \<le> d"
    by (simp add: abs_minus_commute)
  then have "d > r0 + r1" and "\<not> \<bar>d - (r0 + r1)\<bar> < 0.2"
    by simp_all
  with False show ?thesis
    unfolding d_def by (simp add: circle_circle_intersection_def Let_def)
qed

lemma cci_near:
  fixes r0 x0 y0 r1 x1 y1 :: real
  defines "d \<equiv> norm2 (x0 - x1) (y0 - y1)"
  assumes "\<bar>r0 - r1\<bar> \<le> d" "r0 + r1 < d" "d < r0 + r1 + 0.2" "d \<noteq> 0"
  shows "circle_circle_intersection r0 x0 y0 r1 x1 y1 xy =
           (True, xy @ [Finite (((x0 + r0 * ((x1 - x0) / d)) + (x1 + r1 * ((x0 - x1) / d))) / 2),
                        Finite (((y0 + r0 * ((y1 - y0) / d)) + (y1 + r1 * ((y0 - y1) / d))) / 2)])"
proof -
  have a: "\<not> d < \<bar>r1 - r0\<bar>" using assms(2) by (simp add: abs_minus_commute)
  have b: "\<bar>d - (r0 + r1)\<bar> < 0.2" using assms(3,4) by simp
  have fl: "norm2 (x1 - x0) (y1 - y0) = d" unfolding d_def by (rule norm2_flip)
  show ?thesis
    using a b assms(3,5) fl unfolding d_def
    by (simp add: circle_circle_intersection_def Let_def mult.commute)
qed

lemma cci_near_any:
  fixes r0 x0 y0 r1 x1 y1 :: real
  defines "d \<equiv> norm2 (x0 - x1) (y0 - y1)"
  assumes "\<bar>r0 - r1\<bar> \<le> d" "r0 + r1 < d" "d < r0 + r1 + 0.2"
  shows "\<exists>px py. circle_circle_intersection r0 x0 y0 r1 x1 y1 xy = (True, xy @ [px, py])"
proof -
  have a: "\<not> d < \<bar>r1 - r0\<bar>" using assms(2) by (simp add: abs_minus_commute)
  have b: "\<bar>d - (r0 + r1)\<bar> < 0.2" using assms(3,4) by simp
  show ?thesis
    using a b assms(3) unfolding d_def
    by (simp add: circle_circle_intersection_def Let_def)
qed

lemma cci_two_any:
  fixes r0 x0 y0 r1 x1 y1 :: real
  defines "d \<equiv> norm2 (x0 - x1) (y0 - y1)"
  assumes "\<bar>r0 - r1\<bar> \<le> d" "d \<le> r0 + r1"
  shows "\<exists>xa ya xb yb. circle_circle_intersection r0 x0 y0 r1 x1 y1 xy = (True, xy @ [xa, ya, xb, yb])"
proof -
  have a: "\<not> d < \<bar>r1 - r0\<bar>" using assms(2) by (simp add: abs_minus_commute)
  have b: "\<not> d > r0 + r1" using assms(3) by simp
  show ?thesis
    using a b unfolding d_def
    by (simp add: circle_circle_intersection_def Let_def)
qed

lemma cci_two:
  fixes r0 x0 y0 r1 x1 y1 :: real
  defines "d \<equiv> norm2 (x0 - x1) (y0 - y1)"
  defines "a \<equiv> (r0 * r0 - r1 * r1 + d * d) / (2 * d)"
  defines "h \<equiv> sqrt (r0 * r0 - a * a)"
  assumes "\<bar>r0 - r1\<bar> \<le> d" "d \<le> r0 + r1" "d \<noteq> 0"
  shows "circle_circle_intersection r0 x0 y0 r1 x1 y1 xy =
           (True, xy @ [Finite (x0 + a * (x1 - x0) / d + h * (y1 - y0) / d),
                        Finite (y0 + a * (y1 - y0) / d - h * (x1 - x0) / d),
                        Finite (x0 + a * (x1 - x0) / d - h * (y1 - y0) / d),
                        Finite (y0 + a * (y1 - y0) / d + h * (x1 - x0) / d)])"
proof -
  have n: "\<not> d < \<bar>r1 - r0\<bar>" using assms(4) by (simp add: abs_minus_commute)
  have b: "\<not> d > r0 + r1" using assms(5) by simp
  have c: "2 * d \<noteq> 0" using assms(6) by simp
  show ?thesis
    using n b c unfolding h_def a_def d_def
    by (simp only: circle_circle_intersection_def Let_def if_False)
qed

lemma cci_points_on_circles:
  fixes r0 x0 y0 r1 x1 y1 :: real
  defines "d \<equiv> norm2 (x0 - x1) (y0 - y1)"
  defines "a \<equiv> (r0 * r0 - r1 * r1 + d * d) / (2 * d)"
  defines "h \<equiv> sqrt (r0 * r0 - a * a)"
  defines "xa \<equiv> x0 + a * (x1 - x0) / d + h * (y1 - y0) / d"
  defines "ya \<equiv> y0 + a * (y1 - y0) / d - h * (x1 - x0) / d"
  defines "xb \<equiv> x0 + a * (x1 - x0) / d - h * (y1 - y0) / d"
  defines "yb \<equiv> y0 + a * (y1 - y0) / d + h * (x1 - x0) / d"
  assumes lo: "\<bar>r0 - r1\<bar> \<le> d" and hi: "d \<le> r0 + r1" and d0: "d \<noteq> 0"
  shows "norm2 (xa - x0) (ya - y0) = r0" "norm2 (xa - x1) (ya - y1) = r1"
        "norm2 (xb - x0) (yb - y0) = r0" "norm2 (xb - x1) (yb - y1) = r1"
proof -
  define ux where "ux = (x1 - x0) / d"
  define uy where "uy = (y1 - y0) / d"
  have u: "ux * ux + uy * uy = 1"
    unfolding ux_def uy_def d_def using d0 [unfolded d_def] by (rule unit_direction)
  have r0n: "0 \<le> r0" and r1n: "0 \<le> r1"
    using lo hi by linarith+
  have rad: "0 \<le> r0 * r0 - a * a"
    unfolding a_def using lo hi d0 by (intro cci_radicand_nonneg) (simp_all add: abs_minus_commute)
  have h2: "h * h = r0 * r0 - a * a"
    unfolding h_def using rad by simp
  have ad: "2 * a * d = r0 * r0 - r1 * r1 + d * d"
    unfolding a_def using d0 by simp
  have dx: "x0 - x1 = - d * ux" and dy: "y0 - y1 = - d * uy"
    unfolding ux_def uy_def using d0 by simp_all
  have ea0: "xa - x0 = a * ux + h * uy" "ya - y0 = a * uy - h * ux"
    unfolding xa_def ya_def ux_def uy_def by simp_all
  have eb0: "xb - x0 = a * ux - h * uy" "yb - y0 = a * uy + h * ux"
    unfolding xb_def yb_def ux_def uy_def by simp_all
  have ea1: "xa - x1 = (a - d) * ux + h * uy" "ya - y1 = (a - d) * uy - h * ux"
    using ea0 dx dy by (simp_all add: algebra_simps)
  have eb1: "xb - x1 = (a - d) * ux - h * uy" "yb - y1 = (a - d) * uy + h * ux"
    using eb0 dx dy by (simp_all add: algebra_simps)
  have s1: "(a - d) * (a - d) + h * h = r1 * r1"
    using h2 ad by (simp add: algebra_simps)
  have s0: "a * a + h * h = r0 * r0"
    using h2 by simp
  show "norm2 (xa - x0) (ya - y0) = r0"
    unfolding ea0 using rotated_sum_squares(1) [OF u, of a h] s0 r0n by (intro norm2_eq) simp_all
  show "norm2 (xb - x0) (yb - y0) = r0"
    unfolding eb0 using rotated_sum_squares(2) [OF u, of a h] s0 r0n by (intro norm2_eq) simp_all
  show "norm2 (xa - x1) (ya - y1) = r1"
    unfolding ea1 using rotated_sum_squares(1) [OF u, of "a - d" h] s1 r1n by (intro norm2_eq) simp_all
  show "norm2 (xb - x1) (yb - y1) = r1"
    unfolding eb1 using rotated_sum_squares(2) [OF u, of "a - d" h] s1 r1n by (intro norm2_eq) simp_all
qed

lemma cci_nearest_points:
  fixes r0 x0 y0 r1 x1 y1 :: real
  defines "d \<equiv> norm2 (x0 - x1) (y0 - y1)"
  defines "q0x \<equiv> x0 + r0 * ((x1 - x0) / d)" and "q0y \<equiv> y0 + r0 * ((y1 - y0) / d)"
  defines "q1x \<equiv> x1 + r1 * ((x0 - x1) / d)" and "q1y \<equiv> y1 + r1 * ((y0 - y1) / d)"
  assumes far: "r0 + r1 < d" and d0: "d \<noteq> 0"
  shows "norm2 (q0x - x0) (q0y - y0) = \<bar>r0\<bar>" "norm2 (q1x - x1) (q1y - y1) = \<bar>r1\<bar>"
        "norm2 (q1x - q0x) (q1y - q0y) = d - (r0 + r1)"
proof -
  define ux where "ux = (x1 - x0) / d"
  define uy where "uy = (y1 - y0) / d"
  have u: "ux * ux + uy * uy = 1"
    unfolding ux_def uy_def d_def using d0 [unfolded d_def] by (rule unit_direction)
  have dx: "x1 - x0 = d * ux" and dy: "y1 - y0 = d * uy"
    unfolding ux_def uy_def using d0 by simp_all
  have m: "(x0 - x1) / d = - ux" "(y0 - y1) / d = - uy"
    unfolding ux_def uy_def using d0 by (simp_all add: field_simps)
  have e0: "q0x - x0 = r0 * ux" "q0y - y0 = r0 * uy"
    unfolding q0x_def q0y_def ux_def uy_def by simp_all
  have e1: "q1x - x1 = r1 * (- ux)" "q1y - y1 = r1 * (- uy)"
    unfolding q1x_def q1y_def m by simp_all
  have g: "q1x - q0x = (d - (r0 + r1)) * ux" "q1y - q0y = (d - (r0 + r1)) * uy"
    using e0 e1 dx dy by (simp_all add: algebra_simps)
  have sq: "\<And>k. (k * ux) * (k * ux) + (k * uy) * (k * uy) = k * k"
  proof -
    fix k :: real
    have "(k * ux) * (k * ux) + (k * uy) * (k * uy) = k * k * (ux * ux + uy * uy)"
      by (simp add: algebra_simps)
    then show "(k * ux) * (k * ux) + (k * uy) * (k * uy) = k * k"
      using u by simp
  qed
  show "norm2 (q0x - x0) (q0y - y0) = \<bar>r0\<bar>"
    unfolding e0 by (rule norm2_eq_abs) (rule sq)
  have "(r1 * (- ux)) * (r1 * (- ux)) + (r1 * (- uy)) * (r1 * (- uy)) = r1 * r1"
    using sq [of r1] by simp
  then show "norm2 (q1x - x1) (q1y - y1) = \<bar>r1\<bar>"
    unfolding e1 by (rule norm2_eq_abs)
  show "norm2 (q1x - q0x) (q1y - q0y) = d - (r0 + r1)"
    unfolding g using far by (intro norm2_eq sq) simp
qed

text \<open>
  Claim C1, as stated: when the distance \<open>d\<close> of the centres is within 0.2 of
  \<open>r0 + r1\<close> the call succeeds with exactly one point, and it fails only when \<open>d\<close>
  is below \<open>|r0 - r1|\<close> or exceeds \<open>r0 + r1\<close> by more than 0.2. Two unit circles whose
  centres are 2 apart touch (\<open>d = r0 + r1\<close>): the call returns four coordinates, twice the
  point (1, 0). With the centres 2.2 apart \<open>d\<close> exceeds \<open>r0 + r1\<close> by 0.2 and no more:
  the call fails.
\<close>

theorem circle_circle_intersection_counterexample:
  "\<bar>norm2 (0 - 2) (0 - 0) - (1 + 1)\<bar> \<le> 0.2 \<and>
   circle_circle_intersection 1 0 0 1 2 0 [] = (True, [Finite 1, Finite 0, Finite 1, Finite 0]) \<and>
   \<bar>norm2 (0 - 2.2) (0 - 0) - (1 + 1)\<bar> \<le> 0.2 \<and>
   circle_circle_intersection 1 0 0 1 2.2 0 [] = (False, [])"
  by (simp add: circle_circle_intersection_def norm2_axis)

text \<open>
  Claim C1, amended. With \<open>d\<close> the distance of the centres:
  \<^item> when \<open>d < |r0 - r1|\<close> or \<open>d \<ge> r0 + r1 + 0.2\<close> the call returns false and appends
    nothing;
  \<^item> when \<open>d\<close> exceeds \<open>r0 + r1\<close> by less than 0.2 (and is not below \<open>|r0 - r1|\<close>) it
    returns true and appends one point, which for distinct centres is the midpoint of
    \<open>q0\<close> and \<open>q1\<close>, the points at distance \<open>|r0|\<close> and \<open>|r1|\<close> from their
    centres along the line of the centres, which are \<open>d - (r0 + r1)\<close> apart;
  \<^item> when \<open>|r0 - r1| \<le> d \<le> r0 + r1\<close> it returns true and appends two points, which
    for distinct centres lie on both circles (at \<open>d = r0 + r1\<close> the two coincide).
\<close>

theorem circle_circle_intersection_cases:
  fixes r0 x0 y0 r1 x1 y1 :: real and xy :: "dbl list"
  defines "d \<equiv> norm2 (x0 - x1) (y0 - y1)"
  shows
    "(d < \<bar>r0 - r1\<bar> \<or> r0 + r1 + 0.2 \<le> d \<longrightarrow>
        circle_circle_intersection r0 x0 y0 r1 x1 y1 xy = (False, xy)) \<and>
     (\<bar>r0 - r1\<bar> \<le> d \<and> r0 + r1 < d \<and> d < r0 + r1 + 0.2 \<longrightarrow>
        (\<exists>px py. circle_circle_intersection r0 x0 y0 r1 x1 y1 xy = (True, xy @ [px, py]) \<and>
           (d \<noteq> 0 \<longrightarrow>
              (\<exists>q0x q0y q1x q1y.
                 px = Finite ((q0x + q1x) / 2) \<and> py = Finite ((q0y + q1y) / 2) \<and>
                 q0x = x0 + r0 * ((x1 - x0) / d) \<and> q0y = y0 + r0 * ((y1 - y0) / d) \<and>
                 q1x = x1 + r1 * ((x0 - x1) / d) \<and> q1y = y1 + r1 * ((y0 - y1) / d) \<and>
                 norm2 (q0x - x0) (q0y - y0) = \<bar>r0\<bar> \<and> norm2 (q1x - x1) (q1y - y1) = \<bar>r1\<bar> \<and>
                 norm2 (q1x - q0x) (q1y - q0y) = d - (r0 + r1))))) \<and>
     (\<bar>r0 - r1\<bar> \<le> d \<and> d \<le> r0 + r1 \<longrightarrow>
        (\<exists>xa ya xb yb.
           circle_circle_intersection r0 x0 y0 r1 x1 y1 xy = (True, xy @ [xa, ya, xb, yb]) \<and>
           (d \<noteq> 0 \<longrightarrow>
              (\<exists>ax ay bx by.
                 xa = Finite ax \<and> ya = Finite ay \<and> xb = Finite bx \<and> yb = Finite by \<and>
                 norm2 (ax - x0) (ay - y0) = r0 \<and> norm2 (ax - x1) (ay - y1) = r1 \<and>
                 norm2 (bx - x0) (by - y0) = r0 \<and> norm2 (bx - x1) (by - y1) = r1))))"
proof (intro conjI impI)
  assume "d < \<bar>r0 - r1\<bar> \<or> r0 + r1 + 0.2 \<le> d"
  then show "circle_circle_intersection r0 x0 y0 r1 x1 y1 xy = (False, xy)"
    unfolding d_def by (rule cci_fails)
next
  assume h: "\<bar>r0 - r1\<bar> \<le> d \<and> r0 + r1 < d \<and> d < r0 + r1 + 0.2"
  then have h1: "\<bar>r0 - r1\<bar> \<le> d" and h2: "r0 + r1 < d" and h3: "d < r0 + r1 + 0.2"
    by simp_all
  show "\<exists>px py. circle_circle_intersection r0 x0 y0 r1 x1 y1 xy = (True, xy @ [px, py]) \<and>
           (d \<noteq> 0 \<longrightarrow>
              (\<exists>q0x q0y q1x q1y.
                 px = Finite ((q0x + q1x) / 2) \<and> py = Finite ((q0y + q1y) / 2) \<and>
                 q0x = x0 + r0 * ((x1 - x0) / d) \<and> q0y = y0 + r0 * ((y1 - y0) / d) \<and>
                 q1x = x1 + r1 * ((x0 - x1) / d) \<and> q1y = y1 + r1 * ((y0 - y1) / d) \<and>
                 norm2 (q0x - x0) (q0y - y0) = \<bar>r0\<bar> \<and> norm2 (q1x - x1) (q1y - y1) = \<bar>r1\<bar> \<and>
                 norm2 (q1x - q0x) (q1y - q0y) = d - (r0 + r1)))"
  proof (cases "d = 0")
    case True
    then show ?thesis
      using cci_near_any [OF h1 [unfolded d_def] h2 [unfolded d_def] h3 [unfolded d_def], of xy]
      by simp
  next
    case False
    note near = cci_near [OF h1 [unfolded d_def] h2 [unfolded d_def] h3 [unfolded d_def]
        False [unfolded d_def], of xy, folded d_def]
    note pts = cci_nearest_points [OF h2 [unfolded d_def] False [unfolded d_def], folded d_def]
    show ?thesis
      using near pts by blast
  qed
next
  assume h: "\<bar>r0 - r1\<bar> \<le> d \<and> d \<le> r0 + r1"
  then have h1: "\<bar>r0 - r1\<bar> \<le> d" and h2: "d \<le> r0 + r1"
    by simp_all
  show "\<exists>xa ya xb yb.
           circle_circle_intersection r0 x0 y0 r1 x1 y1 xy = (True, xy @ [xa, ya, xb, yb]) \<and>
           (d \<noteq> 0 \<longrightarrow>
              (\<exists>ax ay bx by.
                 xa = Finite ax \<and> ya = Finite ay \<and> xb = Finite bx \<and> yb = Finite by \<and>
                 norm2 (ax - x0) (ay - y0) = r0 \<and> norm2 (ax - x1) (ay - y1) = r1 \<and>
                 norm2 (bx - x0) (by - y0) = r0 \<and> norm2 (bx - x1) (by - y1) = r1))"
  proof (cases "d = 0")
    case True
    then show ?thesis
      using cci_two_any [OF h1 [unfolded d_def] h2 [unfolded d_def], of xy] by simp
  next
    case False
    note two = cci_two [OF h1 [unfolded d_def] h2 [unfolded d_def] False [unfolded d_def], of xy,
        folded d_def]
    note pts = cci_points_on_circles [OF h1 [unfolded d_def] h2 [unfolded d_def]
        False [unfolded d_def], folded d_def]
    show ?thesis
      using two pts by blast
  qed
qed

text \<open>
  Unit circles 5 apart: no point. Unit circles 2.1 apart: the one point (1.05, 0).
  Circles of radius 10 centred at (0,0) and (15,0): two points, each at distance 10 from
  both centres.
\<close>

theorem circle_circle_intersection_cases_witness:
  "circle_circle_intersection 1 0 0 1 5 0 [] = (False, []) \<and>
   circle_circle_intersection 1 0 0 1 2.1 0 [] = (True, [Finite 1.05, Finite 0]) \<and>
   (\<exists>ax ay bx by.
      circle_circle_intersection 10 0 0 10 15 0 [] = (True, [Finite ax, Finite ay, Finite bx, Finite by]) \<and>
      norm2 (ax - 0) (ay - 0) = 10 \<and> norm2 (ax - 15) (ay - 0) = 10 \<and>
      norm2 (bx - 0) (by - 0) = 10 \<and> norm2 (bx - 15) (by - 0) = 10)"
proof -
  have a: "circle_circle_intersection 1 0 0 1 5 0 [] = (False, [])"
    using circle_circle_intersection_cases [where ?r0.0 = 1 and ?x0.0 = 0 and ?y0.0 = 0 and ?r1.0 = 1 and ?x1.0 = 5 and ?y1.0 = 0 and xy = "[]"] by (simp add: norm2_axis)
  have b: "circle_circle_intersection 1 0 0 1 2.1 0 [] = (True, [Finite 1.05, Finite 0])"
    using circle_circle_intersection_cases [where ?r0.0 = 1 and ?x0.0 = 0 and ?y0.0 = 0 and ?r1.0 = 1 and ?x1.0 = "2.1" and ?y1.0 = 0 and xy = "[]"] by (auto simp: norm2_axis)
  have c: "\<exists>ax ay bx by.
      circle_circle_intersection 10 0 0 10 15 0 [] = (True, [Finite ax, Finite ay, Finite bx, Finite by]) \<and>
      norm2 (ax - 0) (ay - 0) = 10 \<and> norm2 (ax - 15) (ay - 0) = 10 \<and>
      norm2 (bx - 0) (by - 0) = 10 \<and> norm2 (bx - 15) (by - 0) = 10"
    using circle_circle_intersection_cases [where ?r0.0 = 10 and ?x0.0 = 0 and ?y0.0 = 0 and ?r1.0 = 10 and ?x1.0 = 15 and ?y1.0 = 0 and xy = "[]"] by (auto simp: norm2_axis)
  from a b c show ?thesis by blast
qed

subsection \<open>The closest approach of two lines\<close>

lemma dot_self_nonneg: "0 \<le> dot a a"
  by (simp add: dot_def)

lemma Mag_zero_iff: "Mag a = 0 \<longleftrightarrow> dot a a = 0"
  by (simp add: Mag_def)

lemma lagrange_identity:
  "dot (cross a b) (cross a b) = dot a a * dot b b - dot a b * dot a b"
  by (simp add: dot_def cross_def algebra_simps)

lemma dot_commute: "dot a b = dot b a"
  by (simp add: dot_def mult.commute)

lemma lines_X_nonzero:
  assumes "Mag (cross b1 b2) \<noteq> 0" "dot b2 b1 \<noteq> 0"
  shows "dot b1 b2 - dot b1 b1 * dot b2 b2 / dot b2 b1 \<noteq> 0"
proof
  assume z: "dot b1 b2 - dot b1 b1 * dot b2 b2 / dot b2 b1 = 0"
  have "dot b1 b2 * dot b2 b1 - dot b1 b1 * dot b2 b2 = 0"
    using z assms(2) by (simp add: field_simps)
  then have "dot (cross b1 b2) (cross b1 b2) = 0"
    by (simp add: lagrange_identity dot_commute [of b2 b1])
  then show False
    using assms(1) by (simp add: Mag_zero_iff)
qed

text \<open>
  Claim C8: for momenta that are not zero, \<open>findPcaTwoLines\<close> on the positions and
  momenta gives the same \<open>dca\<close>, \<open>PCA1\<close> and \<open>PCA2\<close> as \<open>dcaTwoLines\<close> on the
  positions and the momenta divided by their norms.
\<close>

theorem findPcaTwoLines_eq_dcaTwoLines:
  "Mag mom1 \<noteq> 0 \<and> Mag mom2 \<noteq> 0 \<longrightarrow>
     dca (findPcaTwoLines pos1 mom1 pos2 mom2 P1 P2)
       = dca (dcaTwoLines pos1 (Vec3 (vx mom1 / Mag mom1) (vy mom1 / Mag mom1) (vz mom1 / Mag mom1))
                         pos2 (Vec3 (vx mom2 / Mag mom2) (vy mom2 / Mag mom2) (vz mom2 / Mag mom2))
                         P1 P2) \<and>
     PCA1 (findPcaTwoLines pos1 mom1 pos2 mom2 P1 P2)
       = PCA1 (dcaTwoLines pos1 (Vec3 (vx mom1 / Mag mom1) (vy mom1 / Mag mom1) (vz mom1 / Mag mom1))
                          pos2 (Vec3 (vx mom2 / Mag mom2) (vy mom2 / Mag mom2) (vz mom2 / Mag mom2))
                          P1 P2) \<and>
     PCA2 (findPcaTwoLines pos1 mom1 pos2 mom2 P1 P2)
       = PCA2 (dcaTwoLines pos1 (Vec3 (vx mom1 / Mag mom1) (vy mom1 / Mag mom1) (vz mom1 / Mag mom1))
                          pos2 (Vec3 (vx mom2 / Mag mom2) (vy mom2 / Mag mom2) (vz mom2 / Mag mom2))
                          P1 P2)"
  by (simp add: findPcaTwoLines_def dcaTwoLines_def Let_def)

lemma sqrt_25: "sqrt 25 = 5"
  by (rule real_sqrt_unique) simp_all

lemma Mag_3_4: "Mag (Vec3 3 4 0) = 5"
  by (simp add: Mag_def dot_def sqrt_25)

lemma Mag_1_0: "Mag (Vec3 1 0 0) = 1"
  by (simp add: Mag_def dot_def)

lemma sqrt_16_25: "sqrt (16 / 25) = 4 / 5"
  by (rule real_sqrt_unique) (simp_all add: power2_eq_square)

text \<open>
  The x axis and the line through (0,0,1) with momentum (3,4,0): the lines are 1 apart,
  closest at (0,0,0) and (0,0,1).
\<close>

theorem findPcaTwoLines_eq_dcaTwoLines_witness:
  "Mag (Vec3 1 0 0) \<noteq> 0 \<and> Mag (Vec3 3 4 0) \<noteq> 0 \<and>
   findPcaTwoLines (Vec3 0 0 0) (Vec3 1 0 0) (Vec3 0 0 1) (Vec3 3 4 0) nan3 nan3
     = \<lparr>dca = Finite 1, PCA1 = DVec3 (Finite 0) (Finite 0) (Finite 0),
        PCA2 = DVec3 (Finite 0) (Finite 0) (Finite 1),
        divisions = [By_mom1_norm, By_mom1_norm, By_mom1_norm,
                     By_mom2_norm, By_mom2_norm, By_mom2_norm,
                     By_mag_bcrossb, By_b2_dot_b1, By_b2_dot_b1, By_X,
                     By_b2_dot_b1, By_b2_dot_b1]\<rparr> \<and>
   dca (dcaTwoLines (Vec3 0 0 0) (Vec3 1 0 0) (Vec3 0 0 1) (Vec3 (3 / 5) (4 / 5) 0) nan3 nan3)
     = Finite 1 \<and>
   PCA1 (dcaTwoLines (Vec3 0 0 0) (Vec3 1 0 0) (Vec3 0 0 1) (Vec3 (3 / 5) (4 / 5) 0) nan3 nan3)
     = DVec3 (Finite 0) (Finite 0) (Finite 0) \<and>
   PCA2 (dcaTwoLines (Vec3 0 0 0) (Vec3 1 0 0) (Vec3 0 0 1) (Vec3 (3 / 5) (4 / 5) 0) nan3 nan3)
     = DVec3 (Finite 0) (Finite 0) (Finite 1)"
proof -
  have n: "Mag (Vec3 1 0 0) \<noteq> 0 \<and> Mag (Vec3 3 4 0) \<noteq> 0"
    by (simp add: Mag_3_4 Mag_1_0)
  have f: "findPcaTwoLines (Vec3 0 0 0) (Vec3 1 0 0) (Vec3 0 0 1) (Vec3 3 4 0) nan3 nan3
     = \<lparr>dca = Finite 1, PCA1 = DVec3 (Finite 0) (Finite 0) (Finite 0),
        PCA2 = DVec3 (Finite 0) (Finite 0) (Finite 1),
        divisions = [By_mom1_norm, By_mom1_norm, By_mom1_norm,
                     By_mom2_norm, By_mom2_norm, By_mom2_norm,
                     By_mag_bcrossb, By_b2_dot_b1, By_b2_dot_b1, By_X,
                     By_b2_dot_b1, By_b2_dot_b1]\<rparr>"
    by (simp add: findPcaTwoLines_def Mag_3_4 Mag_1_0 Let_def cross_def dot_def vsub_def vadd_def
        smul_def fin3_def Mag_def [of "Vec3 0 0 (4 / 5)"] sqrt_16_25)
  have t: "dca (dcaTwoLines (Vec3 0 0 0) (Vec3 1 0 0) (Vec3 0 0 1) (Vec3 (3 / 5) (4 / 5) 0) nan3 nan3)
             = dca (findPcaTwoLines (Vec3 0 0 0) (Vec3 1 0 0) (Vec3 0 0 1) (Vec3 3 4 0) nan3 nan3) \<and>
           PCA1 (dcaTwoLines (Vec3 0 0 0) (Vec3 1 0 0) (Vec3 0 0 1) (Vec3 (3 / 5) (4 / 5) 0) nan3 nan3)
             = PCA1 (findPcaTwoLines (Vec3 0 0 0) (Vec3 1 0 0) (Vec3 0 0 1) (Vec3 3 4 0) nan3 nan3) \<and>
           PCA2 (dcaTwoLines (Vec3 0 0 0) (Vec3 1 0 0) (Vec3 0 0 1) (Vec3 (3 / 5) (4 / 5) 0) nan3 nan3)
             = PCA2 (findPcaTwoLines (Vec3 0 0 0) (Vec3 1 0 0) (Vec3 0 0 1) (Vec3 3 4 0) nan3 nan3)"
    using findPcaTwoLines_eq_dcaTwoLines [of "Vec3 1 0 0" "Vec3 3 4 0" "Vec3 0 0 0" "Vec3 0 0 1"
        nan3 nan3] n
    by (simp add: Mag_3_4 Mag_1_0)
  have t': "dca (dcaTwoLines (Vec3 0 0 0) (Vec3 1 0 0) (Vec3 0 0 1) (Vec3 (3 / 5) (4 / 5) 0) nan3 nan3)
             = Finite 1 \<and>
           PCA1 (dcaTwoLines (Vec3 0 0 0) (Vec3 1 0 0) (Vec3 0 0 1) (Vec3 (3 / 5) (4 / 5) 0) nan3 nan3)
             = DVec3 (Finite 0) (Finite 0) (Finite 0) \<and>
           PCA2 (dcaTwoLines (Vec3 0 0 0) (Vec3 1 0 0) (Vec3 0 0 1) (Vec3 (3 / 5) (4 / 5) 0) nan3 nan3)
             = DVec3 (Finite 0) (Finite 0) (Finite 1)"
    using t unfolding f by simp
  from n f t' show ?thesis
    by blast
qed

section \<open>Properties of the track pairs\<close>


lemma not_dbl_lt_fabs:
  "x = Finite v \<Longrightarrow> \<not> dbl_lt (dbl_fabs x) b \<Longrightarrow> b \<le> \<bar>v\<bar>"
  by simp













lemma process_event_completed_vertices:
  assumes "process_event env tracks = (emitted, False)" "t \<in> set tracks"
  shows "\<exists>v. vertex_map env (trk_vertex_id t) = Some v"
  using assms
proof (induction tracks arbitrary: emitted)
  case Nil
  then show ?case by simp
next
  case (Cons tr1 rest)
  obtain cs where cs: "track1_body env tr1 rest = Some cs"
    using Cons.prems(1) by (cases "track1_body env tr1 rest") simp_all
  obtain later cr where later: "process_event env rest = (later, cr)"
    by (cases "process_event env rest") blast
  with cs Cons.prems(1) have cr: "cr = False" by simp
  show ?case
  proof (cases "t = tr1")
    case True
    then show ?thesis
      using cs by (auto simp: track1_body_def split: option.splits)
  next
    case False
    with Cons.prems(2) have "t \<in> set rest" by simp
    then show ?thesis
      using Cons.IH later cr by blast
  qed
qed



subsection \<open>The example event\<close>

lemma getTrackletClusters_replicate:
  "getTrackletClusters (replicate n (t, Some g)) = replicate n (t, g)"
  by (induction n) (simp_all add: getTrackletClusters_def)


lemma ex_fit1: "fitClusters example_env (trk_tpc_seed example_track1) = [5, - 3, 0, 0, 0]"
  by (simp add: fitClusters_def example_env_def example_track1_def getTrackletClusters_replicate
      Let_def sum_list_replicate)















subsection \<open>findTwoTrackIntersection\<close>

text \<open>
  Claim C10: when the two fits succeed and \<open>circle_circle_intersection\<close> returns true
  with a single point \<open>(px, py)\<close>, \<open>findTwoTrackIntersection\<close> returns true, its
  \<open>intersect1\<close> is that point and its \<open>intersect2\<close> is the value the caller passed.
  The caller looks at both: for a second track that passes the track cuts, the candidates
  of the pair are those of the loop body at \<open>(px, py)\<close> followed by those of the loop
  body at the second element of the array \<open>intersection\<close> as it was before the call.
\<close>

theorem findTwoTrackIntersection_single_point:
  assumes "fitClusters env (trk_tpc_seed track1) = fitpars1" and "fitpars1 \<noteq> []"
    and "fitClusters env (trk_tpc_seed track2) = fitpars2" and "fitpars2 \<noteq> []"
    and "circle_circle_intersection (fitpars1 ! 0) (fitpars1 ! 1) (fitpars1 ! 2)
           (fitpars2 ! 0) (fitpars2 ! 1) (fitpars2 ! 2) [] = (True, [px, py])"
  shows "findTwoTrackIntersection env track1 track2 intersect1 intersect2
           = (True, (px, py), intersect2) \<and>
         (\<not> (require_mvtx env \<and> \<not> hasSiliconSeed track2) \<and>
          trk_charge track2 \<noteq> trk_charge track1 \<and>
          \<not> trk_quality track2 > qual_cut env \<and>
          \<not> int (length (trk_tpc_seed track2)) < 20 \<and>
          \<not> dbl_eq (fst (get_dca env track2 (stale_dca env track2))) 0 \<and>
          \<not> dbl_lt (dbl_fabs (fst (get_dca env track2 (stale_dca env track2)))) (track_dcaxy_cut env) \<and>
          \<not> dbl_lt (dbl_fabs (snd (get_dca env track2 (stale_dca env track2)))) (track_dcaz_cut env)
          \<longrightarrow>
          pair_body env track1 vertex1 dcas1 has_silicon_1 track2
            = intersection_body env track1 vertex1 dcas1 has_silicon_1 track2
                (get_dca env track2 (stale_dca env track2))
                (if hasSiliconSeed track2 then 1 else 0) (px, py)
              @ intersection_body env track1 vertex1 dcas1 has_silicon_1 track2
                  (get_dca env track2 (stale_dca env track2))
                  (if hasSiliconSeed track2 then 1 else 0)
                  (snd (stale_intersection env track1 track2)))"
proof -
  have r: "\<And>i1 i2. findTwoTrackIntersection env track1 track2 i1 i2 = (True, (px, py), i2)"
    using assms by (simp add: findTwoTrackIntersection_def Let_def)
  show ?thesis
  proof (intro conjI impI)
    show "findTwoTrackIntersection env track1 track2 intersect1 intersect2
            = (True, (px, py), intersect2)"
      by (rule r)
  next
    assume "\<not> (require_mvtx env \<and> \<not> hasSiliconSeed track2) \<and>
          trk_charge track2 \<noteq> trk_charge track1 \<and>
          \<not> trk_quality track2 > qual_cut env \<and>
          \<not> int (length (trk_tpc_seed track2)) < 20 \<and>
          \<not> dbl_eq (fst (get_dca env track2 (stale_dca env track2))) 0 \<and>
          \<not> dbl_lt (dbl_fabs (fst (get_dca env track2 (stale_dca env track2)))) (track_dcaxy_cut env) \<and>
          \<not> dbl_lt (dbl_fabs (snd (get_dca env track2 (stale_dca env track2)))) (track_dcaz_cut env)"
    then show "pair_body env track1 vertex1 dcas1 has_silicon_1 track2
            = intersection_body env track1 vertex1 dcas1 has_silicon_1 track2
                (get_dca env track2 (stale_dca env track2))
                (if hasSiliconSeed track2 then 1 else 0) (px, py)
              @ intersection_body env track1 vertex1 dcas1 has_silicon_1 track2
                  (get_dca env track2 (stale_dca env track2))
                  (if hasSiliconSeed track2 then 1 else 0)
                  (snd (stale_intersection env track1 track2))"
      by (auto simp: pair_body_def Let_def r)
  qed
qed

lemma ex_fit3: "fitClusters example_env (trk_tpc_seed example_track3) = [5, 7.1, 0, 0, 0]"
  by (simp add: fitClusters_def example_env_def example_track3_def getTrackletClusters_replicate
      Let_def sum_list_replicate)

lemma ex_cci_near:
  "circle_circle_intersection 5 (- 3) 0 5 7.1 0 [] = (True, [Finite 2.05, Finite 0])"
  by (simp add: circle_circle_intersection_def norm2_axis Let_def)

text \<open>
  Circles of radius 5 about (-3,0) and (7.1,0) miss each other by 0.1: the one point is
  (2.05, 0), and the second point keeps the value (7, 8) passed in.
\<close>

theorem findTwoTrackIntersection_single_point_witness:
  "fitClusters example_env (trk_tpc_seed example_track1) = [5, - 3, 0, 0, 0] \<and>
   fitClusters example_env (trk_tpc_seed example_track3) = [5, 7.1, 0, 0, 0] \<and>
   circle_circle_intersection 5 (- 3) 0 5 7.1 0 [] = (True, [Finite 2.05, Finite 0]) \<and>
   findTwoTrackIntersection example_env example_track1 example_track3 (NaN, NaN) (Finite 7, Finite 8)
     = (True, (Finite 2.05, Finite 0), (Finite 7, Finite 8))"
proof -
  have c: "circle_circle_intersection ([5, - 3, 0, 0, 0] ! 0) ([5, - 3, 0, 0, 0] ! 1)
             ([5, - 3, 0, 0, 0] ! 2) ([5, 7.1, 0, 0, 0] ! 0) ([5, 7.1, 0, 0, 0] ! 1)
             ([5, 7.1, 0, 0, 0] ! 2) [] = (True, [Finite 2.05, Finite 0])"
    using ex_cci_near by simp
  have "findTwoTrackIntersection example_env example_track1 example_track3 (NaN, NaN)
          (Finite 7, Finite 8) = (True, (Finite 2.05, Finite 0), (Finite 7, Finite 8))"
    using findTwoTrackIntersection_single_point [OF ex_fit1 _ ex_fit3 _ c] by simp
  with ex_fit1 ex_fit3 ex_cci_near show ?thesis
    by simp
qed

section \<open>Properties of the two line routines in double precision\<close>

lemma to_double_zero [simp]: "to_double 0 = 0"
  by (simp add: to_double_def)

lemma to_double_minus: "to_double (- x) = - to_double x"
  by (simp add: to_double_def fl_minus)

lemma to_double_mono: "x \<le> y \<Longrightarrow> to_double x \<le> to_double y"
  by (simp add: to_double_def fl_mono)

lemma to_double_pos: "0 < x \<Longrightarrow> 0 < to_double x"
  by (simp add: to_double_def fl_pos)

lemma to_double_eq_0_iff [simp]: "to_double x = 0 \<longleftrightarrow> x = 0"
proof
  assume z: "to_double x = 0"
  show "x = 0"
  proof (rule ccontr)
    assume "x \<noteq> 0"
    then consider "0 < x" | "0 < - x"
      by linarith
    then show False
    proof cases
      case 1
      then show False using to_double_pos [of x] z by simp
    next
      case 2
      then show False using to_double_pos [of "- x"] z by (simp add: to_double_minus)
    qed
  qed
qed simp

lemma to_double_nonneg: "0 \<le> x \<Longrightarrow> 0 \<le> to_double x"
  using to_double_mono [of 0 x] by simp

lemma to_double_exact:
  assumes "x = of_int m * 2 powi k" and "\<bar>m\<bar> < 9007199254740992"
  shows "to_double x = x"
  unfolding to_double_def using assms by (intro fl_exact [of x m k]) simp_all

lemma to_double_cert:
  assumes "2 powi (k + 52) \<le> \<bar>x\<bar>" and "\<bar>x\<bar> < 2 powi (k + 53)"
    and "\<bar>x / 2 powi k - of_int m\<bar> < 1 / 2"
  shows "to_double x = of_int m * 2 powi k"
proof -
  have a: "2 powi (k + int 53 - 1) \<le> \<bar>x\<bar>" "\<bar>x\<bar> < 2 powi (k + int 53)"
    using assms(1,2) by (simp_all add: add.commute)
  show ?thesis
    unfolding to_double_def by (rule fl_cert [OF a assms(3)])
qed

lemma to_double_cert_tie:
  assumes "2 powi (k + 52) \<le> \<bar>x\<bar>" and "\<bar>x\<bar> < 2 powi (k + 53)"
    and "\<bar>x / 2 powi k - of_int m\<bar> = 1 / 2" and "even m"
  shows "to_double x = of_int m * 2 powi k"
proof -
  have "(0::real) < 2 powi (k + 52)"
    by simp
  with assms(1) have nz: "x \<noteq> 0"
    by linarith
  have "round_even (x / 2 powi k) = m"
    using assms(3,4) by (intro round_even_unique) simp
  moreover have a: "2 powi (k + int 53 - 1) \<le> \<bar>x\<bar>" "\<bar>x\<bar> < 2 powi (k + int 53)"
    using assms(1,2) by (simp_all add: add.commute)
  have "ulp_exp 53 x = k"
    by (rule ulp_exp_eq [OF a])
  ultimately show ?thesis
    using nz by (simp add: to_double_def fl_def)
qed

subsection \<open>The cross product of parallel directions, in double precision\<close>

lemma i_dot_finite:
  "i_dot (of_vec3 a) (of_vec3 b)
     = Number (to_double (to_double (to_double (vx a * vx b) + to_double (vy a * vy b))
                          + to_double (vz a * vz b)))"
  by (simp add: i_dot_def of_vec3_def)

lemma i_norm_zero: "i_norm (IVec3 (Number 0) (Number 0) (Number 0)) = Number 0"
  by (simp add: i_norm_def i_dot_def)

lemma i_cross_parallel:
  assumes "Mag (cross b1 b2) = 0"
  shows "i_cross (of_vec3 b1) (of_vec3 b2) = IVec3 (Number 0) (Number 0) (Number 0)"
proof -
  have "dot (cross b1 b2) (cross b1 b2) = 0"
    using assms by (simp add: Mag_zero_iff)
  then have z: "vx (cross b1 b2) = 0" "vy (cross b1 b2) = 0" "vz (cross b1 b2) = 0"
    by (simp_all add: dot_def sum_squares_eq_zero_iff add_nonneg_eq_0_iff)
  then have e: "vy b1 * vz b2 = vz b1 * vy b2" "vz b1 * vx b2 = vx b1 * vz b2"
    "vx b1 * vy b2 = vy b1 * vx b2"
    by (simp_all add: cross_def)
  show ?thesis
    by (simp add: i_cross_def of_vec3_def d_sub_def e)
qed

lemma dcaTwoLines_double_parallel:
  assumes "Mag (cross b1 b2) = 0"
  shows "dcaTwoLines_double a1 (of_vec3 b1) a2 (of_vec3 b2) P1 P2
           = \<lparr>dca_d = Number 999, PCA1_d = P1, PCA2_d = P2, divisions_d = []\<rparr>"
  by (simp add: dcaTwoLines_double_def i_cross_parallel [OF assms] i_norm_zero Let_def)

lemma findPcaTwoLines_double_eq:
  "findPcaTwoLines_double pos1 mom1 pos2 mom2 P1 P2
     = (dcaTwoLines_double pos1 (double_unit mom1) pos2 (double_unit mom2) P1 P2)
         \<lparr>divisions_d :=
            [By_mom1_norm, By_mom1_norm, By_mom1_norm, By_mom2_norm, By_mom2_norm, By_mom2_norm]
            @ divisions_d (dcaTwoLines_double pos1 (double_unit mom1) pos2 (double_unit mom2) P1 P2)\<rparr>"
  by (cases pos1; cases pos2)
     (simp add: findPcaTwoLines_double_def dcaTwoLines_double_def double_unit_def divide_by_def
       Let_def)

lemma i_norm_finite:
  assumes "Mag m \<noteq> 0"
  shows "\<exists>n. 0 < n \<and> i_norm (of_vec3 m) = Number n \<and> i_norm (of_vec3 (smul (- 1) m)) = Number n"
proof -
  define s where "s = to_double (to_double (to_double (vx m * vx m) + to_double (vy m * vy m))
                                 + to_double (vz m * vz m))"
  have nn: "0 \<le> to_double (vx m * vx m)" "0 \<le> to_double (vy m * vy m)"
    "0 \<le> to_double (vz m * vz m)"
    by (simp_all add: to_double_nonneg)
  have "dot m m \<noteq> 0"
    using assms by (simp add: Mag_zero_iff)
  then have "vx m \<noteq> 0 \<or> vy m \<noteq> 0 \<or> vz m \<noteq> 0"
    by (auto simp: dot_def)
  moreover have sq: "\<And>x::real. x \<noteq> 0 \<Longrightarrow> 0 < to_double (x * x)"
  proof -
    fix x :: real
    assume "x \<noteq> 0"
    then have "0 < x * x"
      by (cases "0 < x") (simp_all add: zero_less_mult_iff)
    then show "0 < to_double (x * x)"
      by (rule to_double_pos)
  qed
  ultimately have one: "0 < to_double (vx m * vx m) \<or> 0 < to_double (vy m * vy m) \<or>
             0 < to_double (vz m * vz m)"
    by blast
  have xy: "0 \<le> to_double (to_double (vx m * vx m) + to_double (vy m * vy m))"
    using nn by (intro to_double_nonneg) simp
  have "0 < to_double (to_double (vx m * vx m) + to_double (vy m * vy m))
                   + to_double (vz m * vz m)"
  proof (cases "0 < to_double (vz m * vz m)")
    case True
    with xy show ?thesis by linarith
  next
    case False
    with one have "0 < to_double (vx m * vx m) + to_double (vy m * vy m)"
      using nn by linarith
    then have "0 < to_double (to_double (vx m * vx m) + to_double (vy m * vy m))"
      by (rule to_double_pos)
    with nn(3) show ?thesis by linarith
  qed
  then have s: "0 < s"
    unfolding s_def by (rule to_double_pos)
  then have n: "0 < to_double (sqrt s)"
    by (intro to_double_pos) simp
  have a: "i_norm (of_vec3 m) = Number (to_double (sqrt s))"
    using s by (simp add: i_norm_def i_dot_finite s_def)
  have b: "i_norm (of_vec3 (smul (- 1) m)) = Number (to_double (sqrt s))"
    using s by (simp add: i_norm_def i_dot_finite s_def smul_def)
  from n a b show ?thesis by blast
qed

lemma findPcaTwoLines_double_same:
  assumes "Mag mom \<noteq> 0" and "mom2 = mom \<or> mom2 = smul (- 1) mom"
  shows "findPcaTwoLines_double pos1 (of_vec3 mom) pos2 (of_vec3 mom2) P1 P2
           = \<lparr>dca_d = Number 999, PCA1_d = P1, PCA2_d = P2,
              divisions_d = [By_mom1_norm, By_mom1_norm, By_mom1_norm,
                             By_mom2_norm, By_mom2_norm, By_mom2_norm]\<rparr>"
proof -
  obtain n where n: "0 < n" "i_norm (of_vec3 mom) = Number n"
    "i_norm (of_vec3 (smul (- 1) mom)) = Number n"
    using i_norm_finite [OF assms(1)] by blast
  define u where "u = Vec3 (to_double (vx mom / n)) (to_double (vy mom / n)) (to_double (vz mom / n))"
  have u1: "double_unit (of_vec3 mom) = of_vec3 u"
    using n(1,2) by (simp add: double_unit_def u_def of_vec3_def)
  have u2: "double_unit (of_vec3 (smul (- 1) mom)) = of_vec3 (smul (- 1) u)"
    using n(1) by (simp add: double_unit_def n(3)) (simp add: of_vec3_def smul_def u_def to_double_minus)
  have p: "Mag (cross u u) = 0" "Mag (cross u (smul (- 1) u)) = 0"
    by (simp_all add: cross_def smul_def Mag_def dot_def)
  show ?thesis
    using assms(2)
  proof
    assume "mom2 = mom"
    then show ?thesis
      by (simp add: findPcaTwoLines_double_eq u1 dcaTwoLines_double_parallel [OF p(1)])
  next
    assume "mom2 = smul (- 1) mom"
    then show ?thesis
      by (simp add: findPcaTwoLines_double_eq u1 u2 dcaTwoLines_double_parallel [OF p(2)])
  qed
qed

text \<open>
  Claim C2, as amended. For two lines with finite, parallel directions (the cross product of
  the directions has norm 0) \<open>dcaTwoLines\<close> returns \<open>dca = 999\<close>, leaves the two PCA points
  as the caller passed them and performs no division. \<open>findPcaTwoLines\<close> first divides each
  momentum by its norm, in double precision; it returns \<open>dca = 999\<close>, leaves the two PCA
  points as passed and performs no division but the six by the norms of the momenta,
  whenever the two directions it has computed are finite and parallel. They are for two
  momenta that are equal or opposite and not zero.
\<close>

theorem parallel_lines_sentinel:
  "(Mag (cross b1 b2) = 0 \<longrightarrow>
      dcaTwoLines_double a1 (of_vec3 b1) a2 (of_vec3 b2) P1 P2
        = \<lparr>dca_d = Number 999, PCA1_d = P1, PCA2_d = P2, divisions_d = []\<rparr>) \<and>
   (double_unit mom1 = of_vec3 u1 \<and> double_unit mom2 = of_vec3 u2 \<and> Mag (cross u1 u2) = 0 \<longrightarrow>
      findPcaTwoLines_double pos1 mom1 pos2 mom2 P1 P2
        = \<lparr>dca_d = Number 999, PCA1_d = P1, PCA2_d = P2,
           divisions_d = [By_mom1_norm, By_mom1_norm, By_mom1_norm,
                          By_mom2_norm, By_mom2_norm, By_mom2_norm]\<rparr>) \<and>
   (Mag mom \<noteq> 0 \<and> (mom' = mom \<or> mom' = smul (- 1) mom) \<longrightarrow>
      findPcaTwoLines_double pos1 (of_vec3 mom) pos2 (of_vec3 mom') P1 P2
        = \<lparr>dca_d = Number 999, PCA1_d = P1, PCA2_d = P2,
           divisions_d = [By_mom1_norm, By_mom1_norm, By_mom1_norm,
                          By_mom2_norm, By_mom2_norm, By_mom2_norm]\<rparr> \<and>
      By_mag_bcrossb \<notin> set (divisions_d (findPcaTwoLines_double pos1 (of_vec3 mom) pos2
                                             (of_vec3 mom') P1 P2)) \<and>
      By_b2_dot_b1 \<notin> set (divisions_d (findPcaTwoLines_double pos1 (of_vec3 mom) pos2
                                            (of_vec3 mom') P1 P2)))"
proof (intro conjI impI)
  assume "Mag (cross b1 b2) = 0"
  then show "dcaTwoLines_double a1 (of_vec3 b1) a2 (of_vec3 b2) P1 P2
        = \<lparr>dca_d = Number 999, PCA1_d = P1, PCA2_d = P2, divisions_d = []\<rparr>"
    by (rule dcaTwoLines_double_parallel)
next
  assume h: "double_unit mom1 = of_vec3 u1 \<and> double_unit mom2 = of_vec3 u2 \<and> Mag (cross u1 u2) = 0"
  then have "Mag (cross u1 u2) = 0" by simp
  then show "findPcaTwoLines_double pos1 mom1 pos2 mom2 P1 P2
        = \<lparr>dca_d = Number 999, PCA1_d = P1, PCA2_d = P2,
           divisions_d = [By_mom1_norm, By_mom1_norm, By_mom1_norm,
                          By_mom2_norm, By_mom2_norm, By_mom2_norm]\<rparr>"
    using h by (simp add: findPcaTwoLines_double_eq dcaTwoLines_double_parallel)
next
  assume h: "Mag mom \<noteq> 0 \<and> (mom' = mom \<or> mom' = smul (- 1) mom)"
  then have a: "Mag mom \<noteq> 0" and b: "mom' = mom \<or> mom' = smul (- 1) mom"
    by simp_all
  show r: "findPcaTwoLines_double pos1 (of_vec3 mom) pos2 (of_vec3 mom') P1 P2
        = \<lparr>dca_d = Number 999, PCA1_d = P1, PCA2_d = P2,
           divisions_d = [By_mom1_norm, By_mom1_norm, By_mom1_norm,
                          By_mom2_norm, By_mom2_norm, By_mom2_norm]\<rparr>"
    by (rule findPcaTwoLines_double_same [OF a b])
  show "By_mag_bcrossb \<notin> set (divisions_d (findPcaTwoLines_double pos1 (of_vec3 mom) pos2
                                             (of_vec3 mom') P1 P2))"
    by (simp add: r)
  show "By_b2_dot_b1 \<notin> set (divisions_d (findPcaTwoLines_double pos1 (of_vec3 mom) pos2
                                            (of_vec3 mom') P1 P2))"
    by (simp add: r)
qed

lemma double_unit_axis:
  "double_unit (of_vec3 (Vec3 2 0 0)) = of_vec3 (Vec3 1 0 0)"
  "double_unit (of_vec3 (Vec3 8 0 0)) = of_vec3 (Vec3 1 0 0)"
proof -
  have e: "to_double 4 = 4" "to_double 2 = 2" "to_double 1 = 1" "to_double 64 = 64" "to_double 8 = 8"
    by (rule to_double_exact [of _ 4 0], simp, simp)
       (rule to_double_exact [of _ 2 0], simp, simp,
        rule to_double_exact [of _ 1 0], simp, simp,
        rule to_double_exact [of _ 64 0], simp, simp,
        rule to_double_exact [of _ 8 0], simp, simp)
  have s: "sqrt 64 = 8"
    by (rule real_sqrt_unique) simp_all
  show "double_unit (of_vec3 (Vec3 2 0 0)) = of_vec3 (Vec3 1 0 0)"
    by (simp add: double_unit_def of_vec3_def i_norm_def i_dot_def e)
  show "double_unit (of_vec3 (Vec3 8 0 0)) = of_vec3 (Vec3 1 0 0)"
    by (simp add: double_unit_def of_vec3_def i_norm_def i_dot_def e s)
qed

text \<open>
  \<open>dcaTwoLines\<close> on the parallel directions (1,3,2) and (5,15,10); \<open>findPcaTwoLines\<close> on the
  momenta (2,0,0) and (8,0,0), whose computed directions are both (1,0,0), and on the
  momentum (1,3,2) and its opposite.
\<close>

theorem parallel_lines_sentinel_witness:
  "Mag (cross (Vec3 1 3 2) (Vec3 5 15 10)) = 0 \<and>
   dcaTwoLines_double (of_vec3 (Vec3 0 0 0)) (of_vec3 (Vec3 1 3 2))
       (of_vec3 (Vec3 1 0 0)) (of_vec3 (Vec3 5 15 10))
       (of_vec3 (Vec3 0 0 0)) (of_vec3 (Vec3 0 0 0))
     = \<lparr>dca_d = Number 999, PCA1_d = of_vec3 (Vec3 0 0 0), PCA2_d = of_vec3 (Vec3 0 0 0),
        divisions_d = []\<rparr> \<and>
   double_unit (of_vec3 (Vec3 2 0 0)) = of_vec3 (Vec3 1 0 0) \<and>
   double_unit (of_vec3 (Vec3 8 0 0)) = of_vec3 (Vec3 1 0 0) \<and>
   Mag (cross (Vec3 1 0 0) (Vec3 1 0 0)) = 0 \<and>
   findPcaTwoLines_double (of_vec3 (Vec3 0 0 0)) (of_vec3 (Vec3 2 0 0))
       (of_vec3 (Vec3 0 1 0)) (of_vec3 (Vec3 8 0 0))
       (of_vec3 (Vec3 0 0 0)) (of_vec3 (Vec3 0 0 0))
     = \<lparr>dca_d = Number 999, PCA1_d = of_vec3 (Vec3 0 0 0), PCA2_d = of_vec3 (Vec3 0 0 0),
        divisions_d = [By_mom1_norm, By_mom1_norm, By_mom1_norm,
                       By_mom2_norm, By_mom2_norm, By_mom2_norm]\<rparr> \<and>
   Mag (Vec3 1 3 2) \<noteq> 0 \<and>
   findPcaTwoLines_double (of_vec3 (Vec3 0 0 0)) (of_vec3 (Vec3 1 3 2))
       (of_vec3 (Vec3 1 0 0)) (of_vec3 (smul (- 1) (Vec3 1 3 2)))
       (of_vec3 (Vec3 0 0 0)) (of_vec3 (Vec3 0 0 0))
     = \<lparr>dca_d = Number 999, PCA1_d = of_vec3 (Vec3 0 0 0), PCA2_d = of_vec3 (Vec3 0 0 0),
        divisions_d = [By_mom1_norm, By_mom1_norm, By_mom1_norm,
                       By_mom2_norm, By_mom2_norm, By_mom2_norm]\<rparr>"
proof -
  have p: "Mag (cross (Vec3 1 3 2) (Vec3 5 15 10)) = 0" "Mag (cross (Vec3 1 0 0) (Vec3 1 0 0)) = 0"
    by (simp_all add: Mag_def dot_def cross_def)
  have n: "Mag (Vec3 1 3 2) \<noteq> 0"
    by (simp add: Mag_def dot_def)
  note t = parallel_lines_sentinel [where ?b1.0 = "Vec3 1 3 2" and ?b2.0 = "Vec3 5 15 10"
      and mom = "Vec3 1 3 2" and mom' = "smul (- 1) (Vec3 1 3 2)"]
  note t2 = parallel_lines_sentinel [where ?mom1.0 = "of_vec3 (Vec3 2 0 0)"
      and ?mom2.0 = "of_vec3 (Vec3 8 0 0)" and ?u1.0 = "Vec3 1 0 0" and ?u2.0 = "Vec3 1 0 0"]
  from t t2 p n double_unit_axis show ?thesis
    by simp
qed

subsection \<open>Parallel momenta that miss the sentinel\<close>

text \<open>
  The values \<open>findPcaTwoLines\<close> computes for the momenta (1,3,2) and (5,15,10) at the
  positions (0,0,0) and (1,0,0), each with the rounding that gives it. The two directions
  differ in the last bit of their second component, and the norm of their cross product is
  not 0.
\<close>

lemma ex_dbl_1: "to_double (1) = 1"
  by (rule to_double_exact [of _ 4503599627370496 "- 52"]) simp_all

lemma ex_dbl_2: "to_double (9) = 9"
  by (rule to_double_exact [of _ 5066549580791808 "- 49"]) simp_all

lemma ex_dbl_3: "to_double (10) = 10"
  by (rule to_double_exact [of _ 5629499534213120 "- 49"]) simp_all

lemma ex_dbl_4: "to_double (4) = 4"
  by (rule to_double_exact [of _ 4503599627370496 "- 50"]) simp_all

lemma ex_dbl_5: "to_double (14) = 14"
  by (rule to_double_exact [of _ 7881299347898368 "- 49"]) simp_all

lemma ex_dbl_6: "to_double (sqrt (14)) = 8425463406411593 / 2251799813685248"
proof -
  have lo: "16850926812823185 / 4503599627370496 < sqrt (14)"
    by (rule real_less_rsqrt) (simp add: power2_eq_square)
  have hi: "sqrt (14) < 16850926812823187 / 4503599627370496"
    by (rule real_less_lsqrt) (simp_all add: power2_eq_square)
  have "to_double (sqrt (14)) = of_int 8425463406411593 * 2 powi (- 51)"
    using lo hi by (intro to_double_cert) (simp_all add: abs_if)
  then show ?thesis by simp
qed

lemma ex_dbl_7: "to_double (25) = 25"
  by (rule to_double_exact [of _ 7036874417766400 "- 48"]) simp_all

lemma ex_dbl_8: "to_double (225) = 225"
  by (rule to_double_exact [of _ 7916483719987200 "- 45"]) simp_all

lemma ex_dbl_9: "to_double (250) = 250"
  by (rule to_double_exact [of _ 8796093022208000 "- 45"]) simp_all

lemma ex_dbl_10: "to_double (100) = 100"
  by (rule to_double_exact [of _ 7036874417766400 "- 46"]) simp_all

lemma ex_dbl_11: "to_double (350) = 350"
  by (rule to_double_exact [of _ 6157265115545600 "- 44"]) simp_all

lemma ex_dbl_12: "to_double (sqrt (350)) = 2632957314503623 / 140737488355328"
proof -
  have lo: "10531829258014491 / 562949953421312 < sqrt (350)"
    by (rule real_less_rsqrt) (simp add: power2_eq_square)
  have hi: "sqrt (350) < 10531829258014493 / 562949953421312"
    by (rule real_less_lsqrt) (simp_all add: power2_eq_square)
  have "to_double (sqrt (350)) = of_int 5265914629007246 * 2 powi (- 48)"
    using lo hi by (intro to_double_cert) (simp_all add: abs_if)
  then show ?thesis by simp
qed

lemma ex_dbl_13: "to_double (2251799813685248 / 8425463406411593) = 2407275258974741 / 9007199254740992"
proof -
  have "to_double (2251799813685248 / 8425463406411593) = of_int 4814550517949482 * 2 powi (- 54)"
    by (rule to_double_cert) (simp_all add: abs_if)
  then show ?thesis by simp
qed

lemma ex_dbl_14: "to_double (6755399441055744 / 8425463406411593) = 7221825776924223 / 9007199254740992"
proof -
  have "to_double (6755399441055744 / 8425463406411593) = of_int 7221825776924223 * 2 powi (- 53)"
    by (rule to_double_cert) (simp_all add: abs_if)
  then show ?thesis by simp
qed

lemma ex_dbl_15: "to_double (4503599627370496 / 8425463406411593) = 2407275258974741 / 4503599627370496"
proof -
  have "to_double (4503599627370496 / 8425463406411593) = of_int 4814550517949482 * 2 powi (- 53)"
    by (rule to_double_cert) (simp_all add: abs_if)
  then show ?thesis by simp
qed

lemma ex_dbl_16: "to_double (703687441776640 / 2632957314503623) = 2407275258974741 / 9007199254740992"
proof -
  have "to_double (703687441776640 / 2632957314503623) = of_int 4814550517949482 * 2 powi (- 54)"
    by (rule to_double_cert) (simp_all add: abs_if)
  then show ?thesis by simp
qed

lemma ex_dbl_17: "to_double (2111062325329920 / 2632957314503623) = 3610912888462111 / 4503599627370496"
proof -
  have "to_double (2111062325329920 / 2632957314503623) = of_int 7221825776924222 * 2 powi (- 53)"
    by (rule to_double_cert) (simp_all add: abs_if)
  then show ?thesis by simp
qed

lemma ex_dbl_18: "to_double (1407374883553280 / 2632957314503623) = 2407275258974741 / 4503599627370496"
proof -
  have "to_double (1407374883553280 / 2632957314503623) = of_int 4814550517949482 * 2 powi (- 53)"
    by (rule to_double_cert) (simp_all add: abs_if)
  then show ?thesis by simp
qed

lemma ex_dbl_19: "to_double (17384922517415719048399428051243 / 40564819207303340847894502572032) = 1930114126015927 / 4503599627370496"
proof -
  have "to_double (17384922517415719048399428051243 / 40564819207303340847894502572032) = of_int 7720456504063708 * 2 powi (- 54)"
    by (rule to_double_cert) (simp_all add: abs_if)
  then show ?thesis by simp
qed

lemma ex_dbl_20: "to_double (8692461258707858320562084538251 / 20282409603651670423947251286016) = 7720456504063707 / 18014398509481984"
proof -
  have "to_double (8692461258707858320562084538251 / 20282409603651670423947251286016) = of_int 7720456504063707 * 2 powi (- 54)"
    by (rule to_double_cert) (simp_all add: abs_if)
  then show ?thesis by simp
qed

lemma ex_dbl_21: "to_double (1 / 18014398509481984) = 1 / 18014398509481984"
  by (rule to_double_exact [of _ 4503599627370496 "- 106"]) simp_all

lemma ex_dbl_22: "to_double (5794974172471906349466476017081 / 40564819207303340847894502572032) = 5146971002709139 / 36028797018963968"
proof -
  have "to_double (5794974172471906349466476017081 / 40564819207303340847894502572032) = of_int 5146971002709139 * 2 powi (- 55)"
    by (rule to_double_cert) (simp_all add: abs_if)
  then show ?thesis by simp
qed

lemma ex_dbl_23: "to_double (8692461258707858320562084538251 / 40564819207303340847894502572032) = 7720456504063707 / 36028797018963968"
proof -
  have "to_double (8692461258707858320562084538251 / 40564819207303340847894502572032) = of_int 7720456504063707 * 2 powi (- 55)"
    by (rule to_double_cert) (simp_all add: abs_if)
  then show ?thesis by simp
qed

lemma ex_dbl_24: "to_double (17384922517415719048399428051243 / 81129638414606681695789005144064) = 1930114126015927 / 9007199254740992"
proof -
  have "to_double (17384922517415719048399428051243 / 81129638414606681695789005144064) = of_int 7720456504063708 * 2 powi (- 55)"
    by (rule to_double_cert) (simp_all add: abs_if)
  then show ?thesis by simp
qed

lemma ex_dbl_25: "to_double (1 / 36028797018963968) = 1 / 36028797018963968"
  by (rule to_double_exact [of _ 4503599627370496 "- 107"]) simp_all

lemma ex_dbl_26: "to_double (1 / 324518553658426726783156020576256) = 1 / 324518553658426726783156020576256"
  by (rule to_double_exact [of _ 4503599627370496 "- 160"]) simp_all

lemma ex_dbl_27: "to_double (1 / 1298074214633706907132624082305024) = 1 / 1298074214633706907132624082305024"
  by (rule to_double_exact [of _ 4503599627370496 "- 162"]) simp_all

lemma ex_dbl_28: "to_double (5 / 1298074214633706907132624082305024) = 5 / 1298074214633706907132624082305024"
  by (rule to_double_exact [of _ 5629499534213120 "- 160"]) simp_all

lemma ex_dbl_29: "to_double (sqrt (5 / 1298074214633706907132624082305024)) = 629397181890197 / 10141204801825835211973625643008"
proof -
  have lo: "10070354910243151 / 162259276829213363391578010288128 < sqrt (5 / 1298074214633706907132624082305024)"
    by (rule real_less_rsqrt) (simp add: power2_eq_square)
  have hi: "sqrt (5 / 1298074214633706907132624082305024) < 10070354910243153 / 162259276829213363391578010288128"
    by (rule real_less_lsqrt) (simp_all add: power2_eq_square)
  have "to_double (sqrt (5 / 1298074214633706907132624082305024)) = of_int 5035177455121576 * 2 powi (- 106)"
    using lo hi by (intro to_double_cert) (simp_all add: abs_if)
  then show ?thesis by simp
qed

lemma ex_dbl_30: "to_double (562949953421312 / 629397181890197) = 8056283928194521 / 9007199254740992"
proof -
  have "to_double (562949953421312 / 629397181890197) = of_int 8056283928194521 * 2 powi (- 53)"
    by (rule to_double_cert) (simp_all add: abs_if)
  then show ?thesis by simp
qed

lemma ex_dbl_31: "to_double (5794974172471906349466476017081 / 81129638414606681695789005144064) = 5146971002709139 / 72057594037927936"
proof -
  have "to_double (5794974172471906349466476017081 / 81129638414606681695789005144064) = of_int 5146971002709139 * 2 powi (- 56)"
    by (rule to_double_cert) (simp_all add: abs_if)
  then show ?thesis by simp
qed

lemma ex_dbl_32: "to_double (26077383776123574961686253614753 / 40564819207303340847894502572032) = 1447585594511945 / 2251799813685248"
proof -
  have "to_double (26077383776123574961686253614753 / 40564819207303340847894502572032) = of_int 5790342378047780 * 2 powi (- 53)"
    by (rule to_double_cert) (simp_all add: abs_if)
  then show ?thesis by simp
qed

lemma ex_dbl_33: "to_double (51469710027091379 / 72057594037927936) = 3216856876693211 / 4503599627370496"
proof -
  have "to_double (51469710027091379 / 72057594037927936) = of_int 6433713753386422 * 2 powi (- 53)"
    by (rule to_double_cert) (simp_all add: abs_if)
  then show ?thesis by simp
qed

lemma ex_dbl_34: "to_double (5794974172471906349466476017081 / 20282409603651670423947251286016) = 5146971002709139 / 18014398509481984"
proof -
  have "to_double (5794974172471906349466476017081 / 20282409603651670423947251286016) = of_int 5146971002709139 * 2 powi (- 54)"
    by (rule to_double_cert) (simp_all add: abs_if)
  then show ?thesis by simp
qed

lemma ex_dbl_35: "to_double (18014398509481983 / 18014398509481984) = 1"
proof -
  have "to_double (18014398509481983 / 18014398509481984) = of_int 9007199254740992 * 2 powi (- 53)"
    by (rule to_double_cert_tie) (simp_all add: abs_if)
  then show ?thesis by simp
qed

lemma ex_dbl_36: "to_double (52154767552247157145198284153729 / 81129638414606681695789005144064) = 5790342378047781 / 9007199254740992"
proof -
  have "to_double (52154767552247157145198284153729 / 81129638414606681695789005144064) = of_int 5790342378047781 * 2 powi (- 53)"
    by (rule to_double_cert) (simp_all add: abs_if)
  then show ?thesis by simp
qed

lemma ex_dbl_37: "to_double (51469710027091387 / 72057594037927936) = 6433713753386423 / 9007199254740992"
proof -
  have "to_double (51469710027091387 / 72057594037927936) = of_int 6433713753386423 * 2 powi (- 53)"
    by (rule to_double_cert) (simp_all add: abs_if)
  then show ?thesis by simp
qed

lemma ex_dbl_38: "to_double (18014398509481985 / 18014398509481984) = 1"
proof -
  have "to_double (18014398509481985 / 18014398509481984) = of_int 4503599627370496 * 2 powi (- 52)"
    by (rule to_double_cert) (simp_all add: abs_if)
  then show ?thesis by simp
qed

lemma ex_dbl_39: "to_double (13038691888061785675386682576321 / 20282409603651670423947251286016) = 5790342378047779 / 9007199254740992"
proof -
  have "to_double (13038691888061785675386682576321 / 20282409603651670423947251286016) = of_int 5790342378047779 * 2 powi (- 53)"
    by (rule to_double_cert) (simp_all add: abs_if)
  then show ?thesis by simp
qed

lemma ex_dbl_40: "to_double (51469710027091371 / 72057594037927936) = 6433713753386421 / 9007199254740992"
proof -
  have "to_double (51469710027091371 / 72057594037927936) = of_int 6433713753386421 * 2 powi (- 53)"
    by (rule to_double_cert) (simp_all add: abs_if)
  then show ?thesis by simp
qed

lemma ex_dbl_41: "to_double (18014398509481981 / 18014398509481984) = 4503599627370495 / 4503599627370496"
proof -
  have "to_double (18014398509481981 / 18014398509481984) = of_int 9007199254740990 * 2 powi (- 53)"
    by (rule to_double_cert_tie) (simp_all add: abs_if)
  then show ?thesis by simp
qed

lemma ex_dbl_42: "to_double (4503599627370495 / 4503599627370496) = 4503599627370495 / 4503599627370496"
  by (rule to_double_exact [of _ 9007199254740990 "- 53"]) simp_all

lemma ex_dbl_43: "to_double (1 / 4503599627370496) = 1 / 4503599627370496"
  by (rule to_double_exact [of _ 4503599627370496 "- 104"]) simp_all

lemma ex_dbl_44: "to_double (2407275258974741 / 9007199254740992) = 2407275258974741 / 9007199254740992"
  by (rule to_double_exact [of _ 4814550517949482 "- 54"]) simp_all

lemma ex_dbl_45: "to_double (10841403959296855417095453666795 / 40564819207303340847894502572032) = 4814550517949481 / 18014398509481984"
proof -
  have "to_double (10841403959296855417095453666795 / 40564819207303340847894502572032) = of_int 4814550517949481 * 2 powi (- 54)"
    by (rule to_double_cert) (simp_all add: abs_if)
  then show ?thesis by simp
qed

lemma ex_dbl_46: "to_double (4814550517949481 / 18014398509481984) = 4814550517949481 / 18014398509481984"
  by (rule to_double_exact [of _ 4814550517949481 "- 54"]) simp_all

lemma ex_dbl_47: "to_double (1 / 4) = 1 / 4"
  by (rule to_double_exact [of _ 4503599627370496 "- 54"]) simp_all

lemma ex_dbl_48: "to_double (155475445289493 / 9007199254740992) = 155475445289493 / 9007199254740992"
  by (rule to_double_exact [of _ 4975214249263776 "- 58"]) simp_all

lemma ex_dbl_49: "to_double (2407275258974741 / 36028797018963968) = 2407275258974741 / 36028797018963968"
  by (rule to_double_exact [of _ 4814550517949482 "- 56"]) simp_all

lemma ex_dbl_50: "to_double (7221825776924223 / 36028797018963968) = 7221825776924223 / 36028797018963968"
  by (rule to_double_exact [of _ 7221825776924223 "- 55"]) simp_all

lemma ex_dbl_51: "to_double (2407275258974741 / 18014398509481984) = 2407275258974741 / 18014398509481984"
  by (rule to_double_exact [of _ 4814550517949482 "- 55"]) simp_all

lemma ex_dbl_52: "to_double (374272192823477437281119696313 / 81129638414606681695789005144064) = 1329681939038627 / 288230376151711744"
proof -
  have "to_double (374272192823477437281119696313 / 81129638414606681695789005144064) = of_int 5318727756154508 * 2 powi (- 60)"
    by (rule to_double_cert) (simp_all add: abs_if)
  then show ?thesis by simp
qed

lemma ex_dbl_53: "to_double (286900694212673117 / 288230376151711744) = 8965646694146035 / 9007199254740992"
proof -
  have "to_double (286900694212673117 / 288230376151711744) = of_int 8965646694146035 * 2 powi (- 53)"
    by (rule to_double_cert) (simp_all add: abs_if)
  then show ?thesis by simp
qed

lemma ex_dbl_54: "to_double (561408289235216078183956899723 / 40564819207303340847894502572032) = 7978091634231761 / 576460752303423488"
proof -
  have "to_double (561408289235216078183956899723 / 40564819207303340847894502572032) = of_int 7978091634231761 * 2 powi (- 59)"
    by (rule to_double_cert) (simp_all add: abs_if)
  then show ?thesis by simp
qed

lemma ex_dbl_55: "to_double (7978091634231761 / 576460752303423488) = 7978091634231761 / 576460752303423488"
  by (rule to_double_exact [of _ 7978091634231761 "- 59"]) simp_all

lemma ex_dbl_56: "to_double (374272192823477437281119696313 / 40564819207303340847894502572032) = 1329681939038627 / 144115188075855872"
proof -
  have "to_double (374272192823477437281119696313 / 40564819207303340847894502572032) = of_int 5318727756154508 * 2 powi (- 59)"
    by (rule to_double_cert) (simp_all add: abs_if)
  then show ?thesis by simp
qed

lemma ex_dbl_57: "to_double (1329681939038627 / 144115188075855872) = 1329681939038627 / 144115188075855872"
  by (rule to_double_exact [of _ 5318727756154508 "- 59"]) simp_all

lemmas ex_dbl_values = ex_dbl_1 ex_dbl_2 ex_dbl_3 ex_dbl_4 ex_dbl_5 ex_dbl_6 ex_dbl_7 ex_dbl_8 ex_dbl_9 ex_dbl_10 ex_dbl_11 ex_dbl_12 ex_dbl_13 ex_dbl_14 ex_dbl_15 ex_dbl_16 ex_dbl_17 ex_dbl_18 ex_dbl_19 ex_dbl_20 ex_dbl_21 ex_dbl_22 ex_dbl_23 ex_dbl_24 ex_dbl_25 ex_dbl_26 ex_dbl_27 ex_dbl_28 ex_dbl_29 ex_dbl_30 ex_dbl_31 ex_dbl_32 ex_dbl_33 ex_dbl_34 ex_dbl_35 ex_dbl_36 ex_dbl_37 ex_dbl_38 ex_dbl_39 ex_dbl_40 ex_dbl_41 ex_dbl_42 ex_dbl_43 ex_dbl_44 ex_dbl_45 ex_dbl_46 ex_dbl_47 ex_dbl_48 ex_dbl_49 ex_dbl_50 ex_dbl_51 ex_dbl_52 ex_dbl_53 ex_dbl_54 ex_dbl_55 ex_dbl_56 ex_dbl_57


lemma ex_lines_double:
  "findPcaTwoLines_double (of_vec3 (Vec3 0 0 0)) (of_vec3 (Vec3 1 3 2))
       (of_vec3 (Vec3 1 0 0)) (of_vec3 (Vec3 5 15 10))
       (of_vec3 (Vec3 0 0 0)) (of_vec3 (Vec3 0 0 0))
     = \<lparr>dca_d = Number (8056283928194521 / 9007199254740992),
        PCA1_d = IVec3 (Number (2407275258974741 / 36028797018963968))
                       (Number (7221825776924223 / 36028797018963968))
                       (Number (2407275258974741 / 18014398509481984)),
        PCA2_d = IVec3 (Number (8965646694146035 / 9007199254740992))
                       (Number (- (7978091634231761 / 576460752303423488)))
                       (Number (- (1329681939038627 / 144115188075855872))),
        divisions_d = [By_mom1_norm, By_mom1_norm, By_mom1_norm,
                       By_mom2_norm, By_mom2_norm, By_mom2_norm,
                       By_mag_bcrossb, By_b2_dot_b1, By_b2_dot_b1, By_X,
                       By_b2_dot_b1, By_b2_dot_b1]\<rparr>"
  by (simp add: findPcaTwoLines_double_def of_vec3_def i_dot_def i_norm_def i_cross_def
      i_vsub_def i_vadd_def i_smul_def d_sub_def divide_by_def Let_def to_double_minus ex_dbl_values)

lemma ex_lines_double_zero_momentum:
  "findPcaTwoLines_double (of_vec3 (Vec3 0 0 0)) (of_vec3 (Vec3 0 0 0))
       (of_vec3 (Vec3 1 0 0)) (of_vec3 (Vec3 1 0 0))
       (of_vec3 (Vec3 0 0 0)) (of_vec3 (Vec3 0 0 0))
     = \<lparr>dca_d = NotANumber,
        PCA1_d = IVec3 NotANumber NotANumber NotANumber,
        PCA2_d = IVec3 NotANumber NotANumber NotANumber,
        divisions_d = [By_mom1_norm, By_mom1_norm, By_mom1_norm,
                       By_mom2_norm, By_mom2_norm, By_mom2_norm,
                       By_mag_bcrossb, By_b2_dot_b1, By_b2_dot_b1, By_X,
                       By_b2_dot_b1, By_b2_dot_b1]\<rparr>"
  by (simp add: findPcaTwoLines_double_def of_vec3_def i_dot_def i_norm_def i_cross_def
      i_vsub_def i_vadd_def i_smul_def d_sub_def divide_by_def Let_def ex_dbl_1)

text \<open>
  Claim C2 as written fails for \<open>findPcaTwoLines\<close>. The momenta (1,3,2) and (5,15,10) are
  parallel; the routine does not return the sentinel, divides by the norm of the cross
  product and by \<open>b2.dot(b1)\<close>, and overwrites the two PCA points. With a momentum that is
  zero, whose cross product with any vector is zero, it returns not-a-number in \<open>dca\<close> and in
  the two points.
\<close>

theorem parallel_lines_counterexample:
  "Mag (cross (Vec3 1 3 2) (Vec3 5 15 10)) = 0 \<and>
   findPcaTwoLines_double (of_vec3 (Vec3 0 0 0)) (of_vec3 (Vec3 1 3 2))
       (of_vec3 (Vec3 1 0 0)) (of_vec3 (Vec3 5 15 10))
       (of_vec3 (Vec3 0 0 0)) (of_vec3 (Vec3 0 0 0))
     = \<lparr>dca_d = Number (8056283928194521 / 9007199254740992),
        PCA1_d = IVec3 (Number (2407275258974741 / 36028797018963968))
                       (Number (7221825776924223 / 36028797018963968))
                       (Number (2407275258974741 / 18014398509481984)),
        PCA2_d = IVec3 (Number (8965646694146035 / 9007199254740992))
                       (Number (- (7978091634231761 / 576460752303423488)))
                       (Number (- (1329681939038627 / 144115188075855872))),
        divisions_d = [By_mom1_norm, By_mom1_norm, By_mom1_norm,
                       By_mom2_norm, By_mom2_norm, By_mom2_norm,
                       By_mag_bcrossb, By_b2_dot_b1, By_b2_dot_b1, By_X,
                       By_b2_dot_b1, By_b2_dot_b1]\<rparr> \<and>
   Mag (cross (Vec3 0 0 0) (Vec3 1 0 0)) = 0 \<and>
   findPcaTwoLines_double (of_vec3 (Vec3 0 0 0)) (of_vec3 (Vec3 0 0 0))
       (of_vec3 (Vec3 1 0 0)) (of_vec3 (Vec3 1 0 0))
       (of_vec3 (Vec3 0 0 0)) (of_vec3 (Vec3 0 0 0))
     = \<lparr>dca_d = NotANumber,
        PCA1_d = IVec3 NotANumber NotANumber NotANumber,
        PCA2_d = IVec3 NotANumber NotANumber NotANumber,
        divisions_d = [By_mom1_norm, By_mom1_norm, By_mom1_norm,
                       By_mom2_norm, By_mom2_norm, By_mom2_norm,
                       By_mag_bcrossb, By_b2_dot_b1, By_b2_dot_b1, By_X,
                       By_b2_dot_b1, By_b2_dot_b1]\<rparr>"
proof -
  have "Mag (cross (Vec3 1 3 2) (Vec3 5 15 10)) = 0" "Mag (cross (Vec3 0 0 0) (Vec3 1 0 0)) = 0"
    by (simp_all add: Mag_def dot_def cross_def)
  with ex_lines_double ex_lines_double_zero_momentum show ?thesis
    by (intro conjI)
qed

end
